(* ===== verification/Prelude.thy ===== *)
theory Prelude
  imports Main "HOL-Library.Word"
begin

text \<open>
  Shared vocabulary of the development: C strings and bounded buffers, the environment
  the server runs in (write callbacks, clocks, SQLite outcomes, cryptography), and the
  generic facts on lists the component theories use.

  A C string is a \<^typ>\<open>string\<close> (a list of bytes without its terminating NUL); a NULL
  pointer is \<^term>\<open>None\<close>. A buffer with its length field is the list of the bytes
  written so far, its capacity being an argument of the operations that write to it.
\<close>

named_theorems frame \<open>which parts of the state an operation leaves unchanged\<close>

subsection \<open>C strings\<close>

type_synonym cstr = string

text \<open>\<^verbatim>\<open>strchr\<close>: the suffix that starts at the first occurrence, or NULL.\<close>

definition strchr :: "cstr \<Rightarrow> char \<Rightarrow> cstr option" where
  "strchr s c = (case dropWhile (\<lambda>x. x \<noteq> c) s of [] \<Rightarrow> None | t \<Rightarrow> Some t)"

text \<open>The bytes before the first occurrence of a byte: what the code obtains as
  \<^verbatim>\<open>p ? p - s : strlen(s)\<close> bytes of \<open>s\<close>, with \<^verbatim>\<open>p = strchr(s, c)\<close>.\<close>

definition before :: "char \<Rightarrow> cstr \<Rightarrow> cstr" where
  "before c s = takeWhile (\<lambda>x. x \<noteq> c) s"

text \<open>\<^verbatim>\<open>snprintf(buf, cap, ...)\<close> keeps at most \<open>cap - 1\<close> bytes of the formatted text.\<close>

definition snprintf :: "nat \<Rightarrow> cstr \<Rightarrow> cstr" where
  "snprintf cap s = take (cap - 1) s"

definition quote_char :: char where
  "quote_char = CHR 0x27"

text \<open>An XML attribute as the format strings of the code write it, with the leading blank.\<close>

definition attr :: "cstr \<Rightarrow> cstr \<Rightarrow> cstr" where
  "attr n v = '' '' @ n @ ''='' @ [quote_char] @ v @ [quote_char]"

text \<open>Decimal output of \<^verbatim>\<open>%u\<close> and \<^verbatim>\<open>%d\<close>.\<close>

definition digit :: "nat \<Rightarrow> char" where
  "digit d = char_of (48 + d)"

fun show_nat :: "nat \<Rightarrow> cstr" where
  "show_nat n = (if n < 10 then [digit n] else show_nat (n div 10) @ [digit (n mod 10)])"

declare show_nat.simps [simp del]

definition hex_digit :: "nat \<Rightarrow> char" where
  "hex_digit d = ''0123456789abcdef'' ! d"

text \<open>\<^verbatim>\<open>%02x\<close> of one byte.\<close>

definition show_hex2 :: "char \<Rightarrow> cstr" where
  "show_hex2 b = [hex_digit (of_char b div 16), hex_digit (of_char b mod 16)]"

subsection \<open>Bounded output buffers\<close>

text \<open>
  \<^verbatim>\<open>iq_append\<close> (and its copies \<^verbatim>\<open>write_append\<close>, \<^verbatim>\<open>sm_write_append\<close>,
  \<^verbatim>\<open>csi_write_append\<close>): format at the end of the buffer; if the text and its NUL do not
  fit in the remaining capacity the length is left alone and the result is \<open>-1\<close>.
\<close>

definition iq_append :: "nat \<Rightarrow> cstr \<Rightarrow> cstr \<Rightarrow> int \<times> cstr" where
  "iq_append cap buf txt =
     (if length txt \<ge> cap - length buf then (- 1, buf) else (0, buf @ txt))"

lemma iq_append_rc: "fst (iq_append cap buf txt) = 0 \<or> fst (iq_append cap buf txt) = - 1"
  by (simp add: iq_append_def)

lemma iq_append_ok:
  "fst (iq_append cap buf txt) = 0 \<longleftrightarrow> length txt < cap - length buf"
  by (auto simp: iq_append_def)

lemma iq_append_bound:
  "length buf < cap \<Longrightarrow> length (snd (iq_append cap buf txt)) < cap"
  by (auto simp: iq_append_def)

lemma snprintf_length: "0 < cap \<Longrightarrow> length (snprintf cap s) < cap"
  by (auto simp: snprintf_def)

lemma snprintf_fits [simp]: "length s < cap \<Longrightarrow> snprintf cap s = s"
  by (simp add: snprintf_def)

lemma set_snprintf: "c \<in> set (snprintf cap s) \<Longrightarrow> c \<in> set s"
  by (auto simp: snprintf_def dest: in_set_takeD)

subsection \<open>The environment\<close>

text \<open>A write callback with its user data is the sink it writes to.\<close>

type_synonym sink = nat

text \<open>
  Everything the server asks of code outside this repository while it handles one event:
  the result of the transport's write callback (libuv, mbedTLS), the clocks, the outcome
  of opening the database, of preparing and of stepping a statement (SQLite, by the SQL
  text), the random bytes of \<^verbatim>\<open>/dev/urandom\<close>, SHA-256 and HMAC-SHA-256 (PSA
  crypto), the
  digest that mbedTLS's \<^verbatim>\<open>md\<close> calls give, if any, and the 32 bytes an output
  buffer holds when the call that should have filled it failed.
\<close>

record env =
  write_rc :: "sink \<Rightarrow> cstr \<Rightarrow> int"
  monotonic_ns :: "64 word"
  now_seconds :: int
  db_open_ok :: bool
  prepare_ok :: "cstr \<Rightarrow> bool"
  step_ok :: "cstr \<Rightarrow> bool"
  urandom :: "nat \<Rightarrow> char"
  hmac_sha256 :: "cstr \<Rightarrow> cstr \<Rightarrow> cstr option"
  sha256 :: "cstr \<Rightarrow> cstr option"
  uninit32 :: cstr
  md_digest :: "cstr \<Rightarrow> cstr option"
  sm_key :: "cstr option"

subsection \<open>Generic facts on lists\<close>

lemma before_id [simp]: "c \<notin> set s \<Longrightarrow> before c s = s"
  by (auto simp: before_def takeWhile_eq_all_conv)

lemma before_stop [simp]: "before c (s @ c # t) = before c s"
  by (induction s) (auto simp: before_def)

lemma before_notin [simp]: "c \<notin> set (before c s)"
  by (auto simp: before_def dest: set_takeWhileD)

lemma before_idem [simp]: "before c (before c s) = before c s"
  by simp

lemma length_before: "length (before c s) \<le> length s"
  by (simp add: before_def length_takeWhile_le)

lemma strchr_None_iff: "strchr s c = None \<longleftrightarrow> c \<notin> set s"
proof -
  have "strchr s c = None \<longleftrightarrow> dropWhile (\<lambda>x. x \<noteq> c) s = []"
    by (simp add: strchr_def del: dropWhile_eq_Nil_conv split: list.splits)
  then show ?thesis by auto
qed

lemma strchr_Some_iff: "(\<exists>t. strchr s c = Some t) \<longleftrightarrow> c \<in> set s"
  using strchr_None_iff [of s c] by (cases "strchr s c") auto

lemma strchr_SomeD: "strchr s c = Some t \<Longrightarrow> s = before c s @ t \<and> (\<exists>u. t = c # u)"
proof -
  assume "strchr s c = Some t"
  then have t: "dropWhile (\<lambda>x. x \<noteq> c) s = t" and ne: "t \<noteq> []"
    by (auto simp: strchr_def split: list.splits)
  from t have "before c s @ t = s"
    by (auto simp: before_def)
  moreover have "hd t = c"
    using t ne hd_dropWhile [of "\<lambda>x. x \<noteq> c" s] by auto
  ultimately show ?thesis using ne by (cases t) auto
qed

lemma strchr_append: "c \<notin> set xs \<Longrightarrow> strchr (xs @ c # ys) c = Some (c # ys)"
  by (induction xs) (auto simp: strchr_def)

text \<open>First element that satisfies a test: the search loops over a table.\<close>

fun find_index :: "('a \<Rightarrow> bool) \<Rightarrow> 'a list \<Rightarrow> nat option" where
  "find_index P [] = None"
| "find_index P (x # xs) =
     (if P x then Some 0 else map_option Suc (find_index P xs))"

lemma find_index_None: "find_index P xs = None \<longleftrightarrow> (\<forall>x\<in>set xs. \<not> P x)"
  by (induction xs) auto

lemma find_index_SomeD:
  "find_index P xs = Some i \<Longrightarrow> i < length xs \<and> P (xs ! i) \<and> (\<forall>j<i. \<not> P (xs ! j))"
proof (induction xs arbitrary: i)
  case (Cons x xs)
  show ?case
  proof (cases "P x")
    case False
    with Cons.prems obtain k where "find_index P xs = Some k" "i = Suc k" by auto
    with Cons.IH [of k] False show ?thesis by (auto simp: less_Suc_eq_0_disj)
  qed (use Cons.prems in auto)
qed simp

lemma find_index_Some_ex: "x \<in> set xs \<Longrightarrow> P x \<Longrightarrow> \<exists>i. find_index P xs = Some i"
  using find_index_None [of P xs] by (cases "find_index P xs") auto

lemma find_append:
  "find P (xs @ ys) = (case find P xs of None \<Rightarrow> find P ys | Some x \<Rightarrow> Some x)"
  by (induction xs) auto

subsection \<open>Loops that may not end\<close>

text \<open>A \<^verbatim>\<open>while\<close> loop whose body either goes on with a new state or leaves with a result;
  \<^term>\<open>None\<close> is a loop that runs forever.\<close>

partial_function (option) iterate :: "('a \<Rightarrow> 'a + 'b) \<Rightarrow> 'a \<Rightarrow> 'b option" where
  "iterate body x = (case body x of Inl y \<Rightarrow> iterate body y | Inr r \<Rightarrow> Some r)"

lemma iterate_induct [consumes 1, case_names leave again]:
  fixes body :: "'a \<Rightarrow> 'a + 'b"
  assumes "iterate body x = Some r"
    and "\<And>x r. body x = Inr r \<Longrightarrow> Q x r"
    and "\<And>x y r. body x = Inl y \<Longrightarrow> Q y r \<Longrightarrow> Q x r"
  shows "Q x r"
proof -
  have "(case (body, x) of (f, x) \<Rightarrow> \<lambda>r. f = body \<longrightarrow> Q x r) r"
  proof (rule iterate.raw_induct)
    fix loop and f :: "'a \<Rightarrow> 'a + 'b" and x r
    assume ih: "\<And>f x r. loop f x = Some r \<Longrightarrow> f = body \<longrightarrow> Q x r"
      and r: "(case f x of Inl y \<Rightarrow> loop f y | Inr r \<Rightarrow> Some r) = Some r"
    show "f = body \<longrightarrow> Q x r"
      using r ih assms(2,3) by (cases "f x") auto
  qed (simp add: assms(1))
  then show ?thesis by simp
qed

lemma iterate_returns:
  fixes m :: "'a \<Rightarrow> nat"
  assumes "I x"
    and "\<And>x y. I x \<Longrightarrow> body x = Inl y \<Longrightarrow> I y \<and> m y < m x"
    and "\<And>x r. I x \<Longrightarrow> body x = Inr r \<Longrightarrow> J r"
  shows "\<exists>r. iterate body x = Some r \<and> J r"
  using assms(1)
proof (induction "m x" arbitrary: x rule: less_induct)
  case less
  show ?case
    using less assms(2,3) by (cases "body x") (auto simp: iterate.simps [of body x])
qed

end
