(* ===== verification/Stanza.thy ===== *)
theory Stanza
  imports Prelude
begin

text \<open>
  The parsed stanza. Stanzas are produced and owned by libstrophe, which is not part of
  this repository: the accessors the handlers call (\<^verbatim>\<open>xmpp_stanza_get_name\<close>,
  \<^verbatim>\<open>_get_ns\<close>, \<^verbatim>\<open>_get_attribute\<close>, ...) are a parameter of the model, a record
  of functions over an arbitrary stanza type. A walk along \<^verbatim>\<open>xmpp_stanza_get_next\<close>
  visits a finite chain of siblings, so \<open>get_children\<close> and \<open>get_siblings\<close> give
  the chain as a list.
\<close>

record 's strophe =
  get_name :: "'s \<Rightarrow> cstr option"
  get_ns :: "'s \<Rightarrow> cstr option"
  get_type :: "'s \<Rightarrow> cstr option"
  get_attribute :: "'s \<Rightarrow> cstr \<Rightarrow> cstr option"
  get_text :: "'s \<Rightarrow> cstr option"
  get_children :: "'s \<Rightarrow> 's list"
  get_siblings :: "'s \<Rightarrow> 's list"
  get_child_by_name :: "'s \<Rightarrow> cstr \<Rightarrow> 's option"
  stanza_to_text :: "'s \<Rightarrow> cstr option"

text \<open>A concrete stanza type, used to instantiate the parameter in examples: a text node
  has no name, no namespace and no attributes.\<close>

datatype xml = Text cstr | Elem cstr cstr "(cstr \<times> cstr) list" "xml list"

fun xml_name :: "xml \<Rightarrow> cstr option" where
  "xml_name (Text _) = None"
| "xml_name (Elem n _ _ _) = Some n"

fun xml_ns :: "xml \<Rightarrow> cstr option" where
  "xml_ns (Text _) = None"
| "xml_ns (Elem _ u _ _) = Some u"

fun xml_attr :: "xml \<Rightarrow> cstr \<Rightarrow> cstr option" where
  "xml_attr (Text _) k = None"
| "xml_attr (Elem _ _ as _) k = map_of as k"

fun xml_children :: "xml \<Rightarrow> xml list" where
  "xml_children (Text _) = []"
| "xml_children (Elem _ _ _ cs) = cs"

fun xml_text :: "xml \<Rightarrow> cstr option" where
  "xml_text (Text t) = Some t"
| "xml_text (Elem _ _ _ cs) = (case cs of [] \<Rightarrow> None | Text t # _ \<Rightarrow> Some t | _ \<Rightarrow> None)"

definition xml_strophe :: "xml strophe" where
  "xml_strophe = \<lparr>
     get_name = xml_name, get_ns = xml_ns, get_type = (\<lambda>x. xml_attr x ''type''),
     get_attribute = xml_attr, get_text = xml_text, get_children = xml_children,
     get_siblings = (\<lambda>_. []),
     get_child_by_name = (\<lambda>x n. find (\<lambda>c. xml_name c = Some n) (xml_children x)),
     stanza_to_text = (\<lambda>_. Some ''<vCard/>'') \<rparr>"

lemma xml_strophe_simps [simp]:
  "get_name xml_strophe = xml_name"
  "get_ns xml_strophe = xml_ns"
  "get_type xml_strophe x = xml_attr x ''type''"
  "get_attribute xml_strophe = xml_attr"
  "get_text xml_strophe = xml_text"
  "get_children xml_strophe = xml_children"
  "get_child_by_name xml_strophe x n = find (\<lambda>c. xml_name c = Some n) (xml_children x)"
  by (simp_all add: xml_strophe_def)

text \<open>\<^verbatim>\<open>strcmp(get_name(st), n) == 0\<close> on a tag.\<close>

definition has_name :: "'s strophe \<Rightarrow> 's \<Rightarrow> cstr \<Rightarrow> bool" where
  "has_name L st n \<longleftrightarrow> get_name L st = Some n"

text \<open>The loops that look for a child element with a given name and namespace.\<close>

definition child_with :: "'s strophe \<Rightarrow> 's \<Rightarrow> cstr \<Rightarrow> cstr \<Rightarrow> 's option" where
  "child_with L st n u =
     find (\<lambda>c. get_name L c = Some n \<and> get_ns L c = Some u) (get_children L st)"

lemma child_with_None:
  "child_with L st n u = None \<longleftrightarrow>
     (\<forall>c\<in>set (get_children L st). \<not> (get_name L c = Some n \<and> get_ns L c = Some u))"
  by (auto simp: child_with_def find_None_iff)

end
