(* ===== verification/Server_State.thy ===== *)
theory Server_State
  imports Stanza
begin

text \<open>
  The data of the server: the negotiation states and stream errors, the per-connection
  session structure of \<^verbatim>\<open>include/xmpp.h\<close>, an entry of the session table, the rows of
  the database tables, and the state a handler works on: the session it was called for,
  the session table, the database, and a log of what the write callbacks were given.
\<close>

subsection \<open>Enumerations and structures of include/xmpp.h\<close>

datatype xmpp_state =
    DISCONNECTED | CONNECTED_TCP | STREAM_OPENED | FEATURES_RECEIVED | STARTTLS_SENT
  | TLS_NEGOTIATED | STREAM_RESTARTED_POST_TLS | FEATURES_RECEIVED_POST_TLS
  | SASL_NEGOTIATING | SASL_SUCCESS | STREAM_RESTARTED_POST_SASL
  | FEATURES_RECEIVED_POST_SASL | RESOURCE_BINDING | BOUND | ONLINE | CLOSING | CLOSED

datatype stream_error = NOT_WELL_FORMED | BAD_NAMESPACE | POLICY_VIOLATION | NOT_AUTHORIZED

datatype csi = CSI_ACTIVE | CSI_INACTIVE

abbreviation (input) JID_BUF_SIZE :: nat where "JID_BUF_SIZE \<equiv> 3073"
abbreviation (input) XMPP_BUF_SIZE :: nat where "XMPP_BUF_SIZE \<equiv> 8192"
abbreviation (input) IQ_BUF_SIZE :: nat where "IQ_BUF_SIZE \<equiv> 65536"
abbreviation (input) SESSION_TABLE_CAP :: nat where "SESSION_TABLE_CAP \<equiv> 256"

record scram_state =
  sc_username :: cstr
  sc_client_nonce :: cstr
  sc_server_nonce :: cstr
  sc_client_first_bare :: cstr
  sc_server_first :: cstr
  sc_has_server_first :: bool
  sc_has_client_final :: bool
  sc_iteration_count :: int
  sc_salt_base64 :: cstr
  sc_salt :: cstr
  sc_stored_key :: cstr
  sc_server_key :: cstr

record session =
  state :: xmpp_state
  conn_id :: cstr
  domain :: cstr
  authcid :: cstr
  resource :: cstr
  bound_jid :: cstr
  stream_id :: cstr
  needs_parser_reset :: bool
  needs_starttls_proceed :: bool
  failed_auth_count :: int
  write_ud :: sink
  pending_error :: bool
  has_stream_error_fn :: bool
  out_buf :: cstr
  client_ns :: cstr
  stream_ns :: cstr
  carbons_enabled :: bool
  csi_state :: csi
  sm_enabled :: bool
  sm_resumable :: bool
  sm_outbound :: "32 word"
  sm_handled :: "32 word"
  sm_id :: cstr
  scram :: scram_state

subsection \<open>Session table entries and database rows\<close>

record session_entry =
  e_write_ud :: sink
  e_last_active :: "64 word"
  e_priority :: int
  e_carbons :: bool
  e_jid :: cstr

record user_row =
  u_jid :: cstr
  u_password_plain :: cstr
  u_created_at :: int
  u_disabled :: bool
  u_scram_salt :: "cstr option"
  u_scram_stored_key :: "cstr option"
  u_scram_server_key :: "cstr option"
  u_scram_iterations :: int

record roster_row =
  r_owner :: cstr
  r_contact :: cstr
  r_name :: cstr
  r_subscription :: cstr
  r_ask :: int

record offline_row =
  om_id :: nat
  om_recipient :: cstr
  om_sender :: cstr
  om_stanza :: cstr
  om_received_at :: int
  om_bytes :: nat

record database =
  users :: "user_row list"
  roster :: "roster_row list"
  roster_groups :: "(cstr \<times> cstr \<times> cstr) list"
  offline_messages :: "offline_row list"
  offline_next_id :: nat
  roster_ver :: "cstr \<rightharpoonup> cstr"
  vcards :: "cstr \<rightharpoonup> cstr"
  blocklist :: "(cstr \<times> cstr) list"

record server =
  ctx :: session
  g_sessions :: "session_entry list"
  db :: database
  sent :: "(sink \<times> cstr) list"
  stream_errors :: "stream_error list"
  crashed :: bool

text \<open>The three results of a query for one row.\<close>

datatype 'a fetched = Found 'a | Not_found | Fetch_error

subsection \<open>Effects\<close>

text \<open>An update of the session the handler runs for.\<close>

definition upd :: "(session \<Rightarrow> session) \<Rightarrow> server \<Rightarrow> server" where
  "upd f s = s\<lparr>ctx := f (ctx s)\<rparr>"

abbreviation set_state :: "xmpp_state \<Rightarrow> server \<Rightarrow> server" where
  "set_state q \<equiv> upd (\<lambda>c. c\<lparr>state := q\<rparr>)"

abbreviation set_pending_error :: "server \<Rightarrow> server" where
  "set_pending_error \<equiv> upd (\<lambda>c. c\<lparr>pending_error := True\<rparr>)"

text \<open>Calling a write callback: the data is logged, the result is the environment's.\<close>

definition write_fn :: "env \<Rightarrow> sink \<Rightarrow> cstr \<Rightarrow> server \<Rightarrow> int \<times> server" where
  "write_fn E u data s = (write_rc E u data, s\<lparr>sent := sent s @ [(u, data)]\<rparr>)"

definition iq_flush :: "env \<Rightarrow> cstr \<Rightarrow> server \<Rightarrow> int \<times> server" where
  "iq_flush E buf s = write_fn E (write_ud (ctx s)) buf s"

text \<open>The process is killed by an access through a null pointer. Nothing after it happens; the model
  records it and returns, so that what is shown of the states that follow is void for the program.\<close>

definition crash :: "server \<Rightarrow> server" where
  "crash s = s\<lparr>crashed := True\<rparr>"

lemma crash_simps [simp]:
  "ctx (crash s) = ctx s" "g_sessions (crash s) = g_sessions s" "db (crash s) = db s" "sent (crash s) = sent s"
  "stream_errors (crash s) = stream_errors s" "crashed (crash s)"
  by (simp_all add: crash_def)

lemma upd_simps [simp]:
  "ctx (upd f s) = f (ctx s)"
  "g_sessions (upd f s) = g_sessions s"
  "db (upd f s) = db s"
  "sent (upd f s) = sent s"
  "stream_errors (upd f s) = stream_errors s"
  by (simp_all add: upd_def)

lemma write_fn_simps [simp]:
  "fst (write_fn E u d s) = write_rc E u d"
  "ctx (snd (write_fn E u d s)) = ctx s"
  "g_sessions (snd (write_fn E u d s)) = g_sessions s"
  "db (snd (write_fn E u d s)) = db s"
  "sent (snd (write_fn E u d s)) = sent s @ [(u, d)]"
  "stream_errors (snd (write_fn E u d s)) = stream_errors s"
  by (simp_all add: write_fn_def)

lemma iq_flush_simps [simp]:
  "fst (iq_flush E d s) = write_rc E (write_ud (ctx s)) d"
  "ctx (snd (iq_flush E d s)) = ctx s"
  "g_sessions (snd (iq_flush E d s)) = g_sessions s"
  "db (snd (iq_flush E d s)) = db s"
  "sent (snd (iq_flush E d s)) = sent s @ [(write_ud (ctx s), d)]"
  "stream_errors (snd (iq_flush E d s)) = stream_errors s"
  by (simp_all add: iq_flush_def)

text \<open>An empty session and server, for concrete inputs.\<close>

definition scram0 :: scram_state where
  "scram0 = \<lparr> sc_username = [], sc_client_nonce = [], sc_server_nonce = [],
     sc_client_first_bare = [], sc_server_first = [], sc_has_server_first = False,
     sc_has_client_final = False, sc_iteration_count = 0, sc_salt_base64 = [], sc_salt = [],
     sc_stored_key = replicate 32 (CHR 0x00), sc_server_key = replicate 32 (CHR 0x00) \<rparr>"

definition session0 :: session where
  "session0 = \<lparr> state = DISCONNECTED, conn_id = [], domain = [], authcid = [], resource = [],
     bound_jid = [], stream_id = [], needs_parser_reset = False,
     needs_starttls_proceed = False, failed_auth_count = 0, write_ud = 0,
     pending_error = False, has_stream_error_fn = False, out_buf = [], client_ns = [],
     stream_ns = [], carbons_enabled = False, csi_state = CSI_ACTIVE, sm_enabled = False,
     sm_resumable = False, sm_outbound = 0, sm_handled = 0, sm_id = [], scram = scram0 \<rparr>"

definition database0 :: database where
  "database0 = \<lparr> users = [], roster = [], roster_groups = [], offline_messages = [],
     offline_next_id = 1, roster_ver = Map.empty, vcards = Map.empty, blocklist = [] \<rparr>"

definition server0 :: server where
  "server0 = \<lparr> ctx = session0, g_sessions = [], db = database0, sent = [], stream_errors = [], crashed = False \<rparr>"

definition env0 :: env where
  "env0 = \<lparr> write_rc = (\<lambda>_ _. 0), monotonic_ns = 0, now_seconds = 0, db_open_ok = True,
     prepare_ok = (\<lambda>_. True), step_ok = (\<lambda>_. True), urandom = (\<lambda>_. CHR 0x00),
     hmac_sha256 = (\<lambda>_ _. Some (replicate 32 (CHR 0x00))),
     sha256 = (\<lambda>_. Some (replicate 32 (CHR 0x00))), uninit32 = replicate 32 (CHR 0x00),
     md_digest = (\<lambda>_. Some (replicate 32 (CHR 0x00))), sm_key = Some [] \<rparr>"

lemmas example_defs = scram0_def session0_def database0_def server0_def env0_def

end
