(* ===== verification/Storage_Offline.thy ===== *)
theory Storage_Offline
  imports Server_State "HOL-Library.Multiset"
begin

text \<open>
  The offline message store (\<^verbatim>\<open>storage/db_offline.c\<close>, XEP-0160): storing a message for
  an absent recipient under a per-recipient cap, counting, listing in order of arrival,
  and draining the queue with a \<^verbatim>\<open><delay/>\<close> stamp when the recipient comes online.
  A statement whose SQLite step fails changes nothing and yields no row.
\<close>

abbreviation (input) OFFLINE_MAX_MESSAGES :: int where "OFFLINE_MAX_MESSAGES \<equiv> 100"
abbreviation (input) OFFLINE_MAX_BYTES :: int where "OFFLINE_MAX_BYTES \<equiv> 1048576"

definition SQL_OFFLINE_INSERT :: cstr where
  "SQL_OFFLINE_INSERT = ''INSERT INTO offline_messages (recipient_jid, sender_jid, stanza_xml, received_at, bytes_size) VALUES (?, ?, ?, ?, ?)''"
definition SQL_OFFLINE_COUNT :: cstr where
  "SQL_OFFLINE_COUNT = ''SELECT COUNT(*) FROM offline_messages WHERE recipient_jid = ?''"
definition SQL_OFFLINE_BYTES :: cstr where
  "SQL_OFFLINE_BYTES = ''SELECT COALESCE(SUM(bytes_size), 0) FROM offline_messages WHERE recipient_jid = ?''"
definition SQL_OFFLINE_LIST :: cstr where
  "SQL_OFFLINE_LIST = ''SELECT id, sender_jid, stanza_xml, received_at FROM offline_messages WHERE recipient_jid = ? ORDER BY received_at ASC''"
definition SQL_OFFLINE_DELETE :: cstr where
  "SQL_OFFLINE_DELETE = ''DELETE FROM offline_messages WHERE id = ?''"
definition SQL_OFFLINE_DELETE_ALL :: cstr where
  "SQL_OFFLINE_DELETE_ALL = ''DELETE FROM offline_messages WHERE recipient_jid = ?''"

text \<open>The rows of one recipient.\<close>

definition offline_for :: "cstr \<Rightarrow> database \<Rightarrow> offline_row list" where
  "offline_for jid d = filter (\<lambda>r. om_recipient r = jid) (offline_messages d)"

definition offline_count :: "env \<Rightarrow> cstr \<Rightarrow> database \<Rightarrow> int" where
  "offline_count E jid d =
     (if \<not> db_open_ok E then - 1
      else if \<not> prepare_ok E SQL_OFFLINE_COUNT then - 1
      else if step_ok E SQL_OFFLINE_COUNT then int (length (offline_for jid d)) else 0)"

definition offline_total_bytes :: "env \<Rightarrow> cstr \<Rightarrow> database \<Rightarrow> int" where
  "offline_total_bytes E jid d =
     (if \<not> db_open_ok E then - 1
      else if \<not> prepare_ok E SQL_OFFLINE_BYTES then - 1
      else if step_ok E SQL_OFFLINE_BYTES then int (\<Sum>r\<leftarrow>offline_for jid d. om_bytes r) else 0)"

definition offline_is_capped :: "env \<Rightarrow> cstr \<Rightarrow> database \<Rightarrow> int" where
  "offline_is_capped E jid d =
     (if offline_count E jid d < 0 then - 1
      else if offline_count E jid d \<ge> OFFLINE_MAX_MESSAGES then 1
      else if offline_total_bytes E jid d < 0 then - 1
      else if offline_total_bytes E jid d \<ge> OFFLINE_MAX_BYTES then 1
      else 0)"

definition offline_store :: "env \<Rightarrow> cstr \<Rightarrow> cstr \<Rightarrow> cstr \<Rightarrow> database \<Rightarrow> int \<times> database" where
  "offline_store E jid sender stanza d =
     (if offline_is_capped E jid d \<noteq> 0 then (- 2, d)
      else if \<not> db_open_ok E then (- 1, d)
      else if \<not> prepare_ok E SQL_OFFLINE_INSERT then (- 1, d)
      else if \<not> step_ok E SQL_OFFLINE_INSERT then (- 1, d)
      else (0, d\<lparr>offline_messages := offline_messages d @
                  [\<lparr> om_id = offline_next_id d, om_recipient = jid, om_sender = sender,
                     om_stanza = stanza, om_received_at = now_seconds E,
                     om_bytes = length stanza \<rparr>],
                offline_next_id := Suc (offline_next_id d)\<rparr>))"

text \<open>\<^verbatim>\<open>offline_list\<close>: the rows the callback is called on, in \<^verbatim>\<open>received_at\<close> order.\<close>

definition offline_list :: "env \<Rightarrow> cstr \<Rightarrow> database \<Rightarrow> int \<times> offline_row list" where
  "offline_list E jid d =
     (if \<not> db_open_ok E then (- 1, [])
      else if \<not> prepare_ok E SQL_OFFLINE_LIST then (- 1, [])
      else if \<not> step_ok E SQL_OFFLINE_LIST then (- 1, [])
      else (0, sort_key om_received_at (offline_for jid d)))"

definition offline_delete :: "env \<Rightarrow> nat \<Rightarrow> database \<Rightarrow> int \<times> database" where
  "offline_delete E i d =
     (if \<not> db_open_ok E \<or> \<not> prepare_ok E SQL_OFFLINE_DELETE then (- 1, d)
      else if \<not> step_ok E SQL_OFFLINE_DELETE then (- 1, d)
      else (0, d\<lparr>offline_messages := filter (\<lambda>r. om_id r \<noteq> i) (offline_messages d)\<rparr>))"

definition offline_delete_all :: "env \<Rightarrow> cstr \<Rightarrow> database \<Rightarrow> int \<times> database" where
  "offline_delete_all E jid d =
     (if \<not> db_open_ok E \<or> \<not> prepare_ok E SQL_OFFLINE_DELETE_ALL then (- 1, d)
      else if \<not> step_ok E SQL_OFFLINE_DELETE_ALL then (- 1, d)
      else (int (length (offline_for jid d)),
            d\<lparr>offline_messages := filter (\<lambda>r. om_recipient r \<noteq> jid) (offline_messages d)\<rparr>))"

subsection \<open>Draining\<close>

text \<open>\<^verbatim>\<open>gmtime_r\<close> and \<^verbatim>\<open>strftime\<close> with \<^verbatim>\<open>%Y-%m-%dT%H:%M:%SZ\<close>: the proleptic
  Gregorian date of a day number, and zero-padded decimal fields.\<close>

definition civil_from_days :: "int \<Rightarrow> int \<times> int \<times> int" where
  "civil_from_days z0 =
     (let z = z0 + 719468;
          era = z div 146097;
          doe = z mod 146097;
          yoe = (doe - doe div 1460 + doe div 36524 - doe div 146096) div 365;
          doy = doe - (365 * yoe + yoe div 4 - yoe div 100);
          mp = (5 * doy + 2) div 153;
          d = doy - (153 * mp + 2) div 5 + 1;
          m = (if mp < 10 then mp + 3 else mp - 9);
          y = yoe + era * 400
      in (if m \<le> 2 then y + 1 else y, m, d))"

definition show_int :: "int \<Rightarrow> cstr" where
  "show_int i = (if i < 0 then ''-'' @ show_nat (nat (- i)) else show_nat (nat i))"

definition show_pad2 :: "int \<Rightarrow> cstr" where
  "show_pad2 i = (if i < 10 then ''0'' @ show_int i else show_int i)"

definition format_datetime :: "int \<Rightarrow> cstr" where
  "format_datetime t =
     (let (y, m, d) = civil_from_days (t div 86400); r = t mod 86400
      in show_int y @ ''-'' @ show_pad2 m @ ''-'' @ show_pad2 d @ ''T'' @
         show_pad2 (r div 3600) @ '':'' @ show_pad2 (r mod 3600 div 60) @ '':'' @
         show_pad2 (r mod 60) @ ''Z'')"

abbreviation (input) DELAYED_SIZE :: nat where "DELAYED_SIZE \<equiv> 65536"

definition delay_element :: "cstr \<Rightarrow> int \<Rightarrow> cstr" where
  "delay_element recipient t =
     ''<delay'' @ attr ''xmlns'' ''urn:xmpp:delay'' @ attr ''stamp'' (format_datetime t) @
     attr ''from'' recipient @ ''/>''"

text \<open>The text \<^verbatim>\<open>drain_cb\<close> writes for one stored stanza.\<close>

definition drain_text :: "cstr \<Rightarrow> cstr \<Rightarrow> int \<Rightarrow> cstr" where
  "drain_text recipient stanza t =
     (case strchr stanza (CHR ''>'') of
        None \<Rightarrow> stanza
      | Some rest \<Rightarrow>
          (let opening = before (CHR ''>'') stanza @ ''>'';
               delay = delay_element recipient t;
               tail = tl rest
           in if length opening \<ge> DELAYED_SIZE then stanza
              else if length delay \<ge> DELAYED_SIZE - length opening then stanza
              else if length opening + length delay + length tail \<ge> DELAYED_SIZE then stanza
              else opening @ delay @ tail))"

definition drain_cb :: "env \<Rightarrow> sink \<Rightarrow> offline_row \<Rightarrow> server \<Rightarrow> server" where
  "drain_cb E u r s =
     snd (write_fn E u (drain_text (om_recipient r) (om_stanza r) (om_received_at r)) s)"

definition offline_drain :: "env \<Rightarrow> cstr \<Rightarrow> sink \<Rightarrow> server \<Rightarrow> int \<times> server" where
  "offline_drain E jid u s =
     (let count = offline_count E jid (db s) in
      if count < 0 then (- 1, s)
      else if count = 0 then (0, s)
      else (case offline_list E jid (db s) of (rc, rows) \<Rightarrow>
        (let s1 = fold (drain_cb E u) rows s in
         if rc \<noteq> 0 then (- 1, s1)
         else (case offline_delete_all E jid (db s1) of (n, d) \<Rightarrow>
           (if n < 0 then (- 1, s1) else (0, s1\<lparr>db := d\<rparr>))))))"

subsection \<open>Lemmas\<close>

lemma drain_cb_simps [simp]:
  "ctx (drain_cb E u r s) = ctx s"
  "g_sessions (drain_cb E u r s) = g_sessions s"
  "db (drain_cb E u r s) = db s"
  "stream_errors (drain_cb E u r s) = stream_errors s"
  "sent (drain_cb E u r s) =
     sent s @ [(u, drain_text (om_recipient r) (om_stanza r) (om_received_at r))]"
  by (simp_all add: drain_cb_def)

lemma fold_drain_cb [simp]:
  "ctx (fold (drain_cb E u) rs s) = ctx s"
  "g_sessions (fold (drain_cb E u) rs s) = g_sessions s"
  "db (fold (drain_cb E u) rs s) = db s"
  "stream_errors (fold (drain_cb E u) rs s) = stream_errors s"
  "sent (fold (drain_cb E u) rs s) = sent s @
     map (\<lambda>r. (u, drain_text (om_recipient r) (om_stanza r) (om_received_at r))) rs"
  by (induction rs arbitrary: s) simp_all

lemma offline_drain_frame [simp]:
  "ctx (snd (offline_drain E jid u s)) = ctx s"
  "g_sessions (snd (offline_drain E jid u s)) = g_sessions s"
  "stream_errors (snd (offline_drain E jid u s)) = stream_errors s"
  by (simp_all add: offline_drain_def Let_def split: prod.splits)

lemma offline_drain_db:
  "db (snd (offline_drain E jid u s)) = db s \<or>
   db (snd (offline_drain E jid u s)) = snd (offline_delete_all E jid (db s))"
  by (auto simp: offline_drain_def Let_def split: prod.splits)

lemma offline_drain_sent:
  "\<exists>out. sent (snd (offline_drain E jid u s)) = sent s @ map (Pair u) out"
proof -
  have "\<exists>out. sent (fold (drain_cb E u) rs s) = sent s @ map (Pair u) out" for rs
    by (rule exI [where x = "map (\<lambda>r. drain_text (om_recipient r) (om_stanza r) (om_received_at r)) rs"])
      simp
  moreover have "\<exists>out. sent s = sent s @ map (Pair u) out"
    by (rule exI [where x = "[]"]) simp
  ultimately show ?thesis
    by (auto simp: offline_drain_def Let_def split: prod.splits)
qed

text \<open>A store that succeeds is below the cap, and the queue grows by one row.\<close>

lemma offline_store_ok:
  assumes "fst (offline_store E jid sender stanza d) = 0"
    and "step_ok E SQL_OFFLINE_COUNT" and "step_ok E SQL_OFFLINE_BYTES"
  shows "length (offline_for jid d) < 100"
    and "(\<Sum>r\<leftarrow>offline_for jid d. om_bytes r) < 1048576"
  using assms
  by (auto simp: offline_store_def offline_is_capped_def offline_count_def
        offline_total_bytes_def split: if_splits)

definition offline_inv :: "database \<Rightarrow> bool" where
  "offline_inv d \<longleftrightarrow> distinct (map om_id (offline_messages d)) \<and>
     (\<forall>r\<in>set (offline_messages d). om_id r < offline_next_id d) \<and>
     (\<forall>jid. length (offline_for jid d) \<le> 100)"

lemma offline_for_store:
  "snd (offline_store E jid sender stanza d) = d \<or>
   (fst (offline_store E jid sender stanza d) = 0 \<and>
    offline_for j (snd (offline_store E jid sender stanza d)) =
      offline_for j d @ (if j = jid then
        [\<lparr> om_id = offline_next_id d, om_recipient = jid, om_sender = sender,
           om_stanza = stanza, om_received_at = now_seconds E, om_bytes = length stanza \<rparr>]
       else []))"
  by (auto simp: offline_store_def offline_for_def)

subsection \<open>Properties\<close>

lemma offline_for_add:
  "offline_for j (d\<lparr>offline_messages := offline_messages d @ [r], offline_next_id := n\<rparr>) =
     offline_for j d @ (if om_recipient r = j then [r] else [])"
  by (simp add: offline_for_def)

text \<open>A database that cannot be opened counts as a full queue.\<close>

lemma unopened_counts_as_capped: "\<not> db_open_ok E \<Longrightarrow> offline_store E jid sender stanza d = (- 2, d)"
  by (simp add: offline_store_def offline_is_capped_def offline_count_def)

lemma offline_store_cases:
  obtains "snd (offline_store E jid sender stanza d) = d"
  | r where "snd (offline_store E jid sender stanza d) =
        d\<lparr>offline_messages := offline_messages d @ [r], offline_next_id := Suc (offline_next_id d)\<rparr>"
      "om_id r = offline_next_id d" "om_recipient r = jid"
      "fst (offline_store E jid sender stanza d) = 0"
proof (cases "fst (offline_store E jid sender stanza d) = 0")
  case True
  then show thesis
    by (intro that(2) [of "\<lparr> om_id = offline_next_id d, om_recipient = jid, om_sender = sender,
        om_stanza = stanza, om_received_at = now_seconds E, om_bytes = length stanza \<rparr>"])
      (auto simp: offline_store_def split: if_splits)
next
  case False
  then show thesis by (intro that(1)) (auto simp: offline_store_def split: if_splits)
qed

text \<open>Storing a message keeps the offline table well-formed: row ids stay unique and
  below the next id, and no recipient ever has more than 100 stored messages, whatever the
  outcome of the store.\<close>

theorem offline_store_keeps_inv:
  assumes "offline_inv d" "step_ok E SQL_OFFLINE_COUNT" "step_ok E SQL_OFFLINE_BYTES"
  shows "offline_inv (snd (offline_store E jid sender stanza d))"
proof (cases rule: offline_store_cases [of E jid sender stanza d])
  case 1
  then show ?thesis using assms(1) by simp
next
  case (2 r)
  have "length (offline_for jid d) < 100"
    using offline_store_ok [OF 2(4) assms(2,3)] by simp
  then show ?thesis
    using assms(1) 2 by (auto simp: offline_inv_def offline_for_add less_SucI)
qed

theorem offline_store_keeps_inv_witness:
  "offline_inv (snd (offline_store env0 ''b@d'' ''a@d/r'' ''<message/>'' database0))"
  by (rule offline_store_keeps_inv) (simp_all add: offline_inv_def offline_for_def example_defs)

lemma offline_drain_effect:
  assumes "db_open_ok E" "\<forall>sql. prepare_ok E sql \<and> step_ok E sql"
  shows "sent (snd (offline_drain E jid u s)) = sent s @
      map (\<lambda>r. (u, drain_text (om_recipient r) (om_stanza r) (om_received_at r)))
        (sort_key om_received_at (offline_for jid (db s))) \<and>
    offline_for jid (db (snd (offline_drain E jid u s))) = [] \<and>
    (\<forall>j. j \<noteq> jid \<longrightarrow> offline_for j (db (snd (offline_drain E jid u s))) = offline_for j (db s))"
proof (cases "offline_for jid (db s) = []")
  case True
  then show ?thesis using assms by (simp add: offline_drain_def offline_count_def)
next
  case False
  then have "0 < int (length (offline_for jid (db s)))" by simp
  then show ?thesis using assms
    by (simp add: offline_drain_def offline_count_def offline_list_def offline_delete_all_def
        offline_for_def Let_def) (auto simp: filter_empty_conv intro!: filter_cong)
qed

definition queued_server :: server where
  "queued_server = server0\<lparr>db := database0\<lparr>offline_messages :=
     [\<lparr> om_id = 1, om_recipient = ''b@d'', om_sender = ''a@d/r'', om_stanza = ''<m/>'',
        om_received_at = 0, om_bytes = 4 \<rparr>]\<rparr>\<rparr>"

text \<open>When a recipient comes online the whole queue is written to its connection, in
  order of arrival, each stanza with its delay stamp; afterwards the recipient's queue is
  empty and the queues of all others are unchanged.\<close>

theorem drain_delivers_queue:
  assumes "db_open_ok E" "\<forall>sql. prepare_ok E sql \<and> step_ok E sql"
  shows "sent (snd (offline_drain E jid u s)) = sent s @
      map (\<lambda>r. (u, drain_text (om_recipient r) (om_stanza r) (om_received_at r)))
        (sort_key om_received_at (offline_for jid (db s))) \<and>
    offline_for jid (db (snd (offline_drain E jid u s))) = [] \<and>
    (\<forall>j. j \<noteq> jid \<longrightarrow> offline_for j (db (snd (offline_drain E jid u s))) = offline_for j (db s))"
  by (rule offline_drain_effect [OF assms])

theorem drain_delivers_queue_witness:
  "offline_for ''b@d'' (db queued_server) \<noteq> [] \<and>
   offline_for ''b@d'' (db (snd (offline_drain env0 ''b@d'' 3 queued_server))) = []"
  using drain_delivers_queue [of env0 "''b@d''" 3 queued_server]
  by (simp add: queued_server_def offline_for_def example_defs)

text \<open>The delay stamp of a stored stanza is inserted right after its opening tag, and
  the rest of the stanza follows unchanged, whenever the result fits in the buffer.\<close>

theorem drain_text_inserts_delay:
  assumes "CHR ''>'' \<notin> set opening"
    and "length opening + 1 + length (delay_element recipient t) + length rest < DELAYED_SIZE"
  shows "drain_text recipient (opening @ ''>'' @ rest) t =
    opening @ ''>'' @ delay_element recipient t @ rest"
proof -
  have s: "strchr (opening @ CHR ''>'' # rest) (CHR ''>'') = Some (CHR ''>'' # rest)"
    using assms(1) by (rule strchr_append)
  have l: "\<not> length opening + 1 \<ge> DELAYED_SIZE"
    "\<not> length (delay_element recipient t) \<ge> DELAYED_SIZE - (length opening + 1)"
    "\<not> length opening + 1 + length (delay_element recipient t) + length rest \<ge> DELAYED_SIZE"
    using assms(2) by linarith+
  show ?thesis using l assms(1) by (simp add: drain_text_def s Let_def)
qed

lemma stamp_epoch: "format_datetime 0 = ''1970-01-01T00:00:00Z''"
  by code_simp

theorem drain_text_inserts_delay_witness:
  "drain_text ''b@d'' ''<m></m>'' 0 = ''<m>'' @ delay_element ''b@d'' 0 @ ''</m>''"
  using drain_text_inserts_delay [of "''<m''" "''b@d''" 0 "''</m>''"]
  by (simp add: delay_element_def attr_def stamp_epoch)

end
