(* ===== verification/Session_Table.thy ===== *)
theory Session_Table
  imports Storage_Offline
begin

text \<open>
  The table of online resources (\<^verbatim>\<open>xmpp_session.c\<close> and the table operations of
  \<^verbatim>\<open>xep-0280-carbons.c\<close>): an array of at most 256 entries, each a full JID with the
  sink of its connection, its priority, its last activity and its carbons flag.
  Every lookup is a linear search by \<^verbatim>\<open>strcmp\<close>; removal moves the last entry into
  the hole.
\<close>

subsection \<open>Bare JIDs\<close>

definition xmpp_session_bare_jid :: "cstr \<Rightarrow> nat \<Rightarrow> cstr" where
  "xmpp_session_bare_jid full out_size =
     (let len = length (before (CHR ''/'') full);
          len' = (if len \<ge> out_size then out_size - 1 else len)
      in take len' full)"

abbreviation bare :: "cstr \<Rightarrow> cstr" where
  "bare j \<equiv> xmpp_session_bare_jid j JID_BUF_SIZE"

subsection \<open>Operations\<close>

abbreviation find_session :: "cstr \<Rightarrow> server \<Rightarrow> nat option" where
  "find_session j s \<equiv> find_index (\<lambda>e. e_jid e = j) (g_sessions s)"

definition xmpp_session_table_register :: "env \<Rightarrow> sink \<Rightarrow> server \<Rightarrow> server" where
  "xmpp_session_table_register E u s =
     (let j = bound_jid (ctx s); now = monotonic_ns E in
      if j = [] then s
      else case find_session j s of
        Some i \<Rightarrow>
          s\<lparr>g_sessions := (g_sessions s)[i := (g_sessions s ! i)
              \<lparr>e_write_ud := u, e_last_active := now, e_carbons := carbons_enabled (ctx s)\<rparr>]\<rparr>
      | None \<Rightarrow>
          if length (g_sessions s) \<ge> SESSION_TABLE_CAP then s
          else
            (let e = \<lparr> e_write_ud = u, e_last_active = now, e_priority = 0,
                       e_carbons = carbons_enabled (ctx s),
                       e_jid = snprintf JID_BUF_SIZE j \<rparr>;
                 s1 = s\<lparr>g_sessions := g_sessions s @ [e]\<rparr>
             in snd (offline_drain E (bare j) u s1)))"

definition xmpp_session_table_unregister :: "cstr \<Rightarrow> server \<Rightarrow> server" where
  "xmpp_session_table_unregister j s =
     (case find_session j s of
        None \<Rightarrow> s
      | Some i \<Rightarrow> s\<lparr>g_sessions := butlast ((g_sessions s)[i := last (g_sessions s)])\<rparr>)"

definition xmpp_session_table_write :: "env \<Rightarrow> cstr \<Rightarrow> cstr \<Rightarrow> server \<Rightarrow> int \<times> server" where
  "xmpp_session_table_write E j data s =
     (case find_session j s of
        None \<Rightarrow> (- 1, s)
      | Some i \<Rightarrow> write_fn E (e_write_ud (g_sessions s ! i)) data s)"

text \<open>The three operations that update one field of the first matching entry.\<close>

definition update_entry ::
    "cstr \<Rightarrow> (session_entry \<Rightarrow> session_entry) \<Rightarrow> server \<Rightarrow> server" where
  "update_entry j f s =
     (case find_session j s of
        None \<Rightarrow> s
      | Some i \<Rightarrow> s\<lparr>g_sessions := (g_sessions s)[i := f (g_sessions s ! i)]\<rparr>)"

definition xmpp_session_table_update_priority :: "cstr \<Rightarrow> int \<Rightarrow> server \<Rightarrow> server" where
  "xmpp_session_table_update_priority j p = update_entry j (\<lambda>e. e\<lparr>e_priority := p\<rparr>)"

definition xmpp_session_table_touch :: "env \<Rightarrow> cstr \<Rightarrow> server \<Rightarrow> server" where
  "xmpp_session_table_touch E j = update_entry j (\<lambda>e. e\<lparr>e_last_active := monotonic_ns E\<rparr>)"

definition xmpp_session_table_update_carbons :: "cstr \<Rightarrow> bool \<Rightarrow> server \<Rightarrow> server" where
  "xmpp_session_table_update_carbons j on = update_entry j (\<lambda>e. e\<lparr>e_carbons := on\<rparr>)"

text \<open>The loop of \<^verbatim>\<open>best_resource\<close>: \<open>best\<close> is the entry found so far.\<close>

definition better :: "session_entry \<Rightarrow> session_entry \<Rightarrow> bool" where
  "better e b \<longleftrightarrow> e_priority e > e_priority b \<or>
     e_priority e = e_priority b \<and> e_last_active e > e_last_active b"

fun best_loop :: "cstr \<Rightarrow> session_entry list \<Rightarrow> session_entry option \<Rightarrow> session_entry option"
where
  "best_loop bj [] best = best"
| "best_loop bj (e # es) best =
     (if bare (e_jid e) \<noteq> bj then best_loop bj es best
      else case best of
          None \<Rightarrow> best_loop bj es (Some e)
        | Some b \<Rightarrow> best_loop bj es (if better e b then Some e else Some b))"

definition xmpp_session_table_best_resource :: "cstr \<Rightarrow> nat \<Rightarrow> server \<Rightarrow> cstr option" where
  "xmpp_session_table_best_resource bj out_size s =
     (case best_loop bj (g_sessions s) None of
        None \<Rightarrow> None
      | Some b \<Rightarrow> Some (snprintf out_size (e_jid b)))"

definition xmpp_session_table_for_each_resource ::
    "cstr \<Rightarrow> cstr option \<Rightarrow> (cstr \<Rightarrow> sink \<Rightarrow> server \<Rightarrow> server) \<Rightarrow> server \<Rightarrow> server" where
  "xmpp_session_table_for_each_resource bj excl cb s =
     fold (\<lambda>e s. if excl = Some (e_jid e) then s
                 else if bare (e_jid e) = bj then cb (e_jid e) (e_write_ud e) s else s)
       (g_sessions s) s"

definition xmpp_session_table_for_each_carbon_resource ::
    "cstr \<Rightarrow> cstr option \<Rightarrow> (cstr \<Rightarrow> sink \<Rightarrow> server \<Rightarrow> server) \<Rightarrow> server \<Rightarrow> server" where
  "xmpp_session_table_for_each_carbon_resource bj excl cb s =
     fold (\<lambda>e s. if excl = Some (e_jid e) then s
                 else if bare (e_jid e) \<noteq> bj then s
                 else if \<not> e_carbons e then s
                 else cb (e_jid e) (e_write_ud e) s)
       (g_sessions s) s"

definition xmpp_session_table_broadcast_except ::
    "env \<Rightarrow> cstr \<Rightarrow> cstr \<Rightarrow> cstr \<Rightarrow> server \<Rightarrow> server" where
  "xmpp_session_table_broadcast_except E bj excl data s =
     fold (\<lambda>e s. if e_jid e = excl then s
                 else if bare (e_jid e) = bj then snd (write_fn E (e_write_ud e) data s) else s)
       (g_sessions s) s"

definition xmpp_session_table_broadcast_to_bare :: "env \<Rightarrow> cstr \<Rightarrow> cstr \<Rightarrow> server \<Rightarrow> server" where
  "xmpp_session_table_broadcast_to_bare E bj data s =
     fold (\<lambda>e s. if bare (e_jid e) = bj then snd (write_fn E (e_write_ud e) data s) else s)
       (g_sessions s) s"

definition xmpp_session_table_is_registered :: "cstr \<Rightarrow> server \<Rightarrow> bool" where
  "xmpp_session_table_is_registered j s \<longleftrightarrow> find_session j s \<noteq> None"

definition xmpp_session_table_reset_all :: "server \<Rightarrow> server" where
  "xmpp_session_table_reset_all s = s\<lparr>g_sessions := []\<rparr>"

subsection \<open>Bare JIDs: lemmas\<close>

lemma bare_eq: "length j < JID_BUF_SIZE \<Longrightarrow> bare j = before (CHR ''/'') j"
proof -
  assume j: "length j < JID_BUF_SIZE"
  have "length (before (CHR ''/'') j) < JID_BUF_SIZE"
    using j length_before [of "CHR ''/''" j] by linarith
  then show ?thesis
    by (simp add: xmpp_session_bare_jid_def Let_def before_def takeWhile_eq_take [symmetric])
qed

lemma bare_length: "0 < n \<Longrightarrow> length (xmpp_session_bare_jid j n) < n"
  by (auto simp: xmpp_session_bare_jid_def Let_def)

lemma bare_no_slash: "CHR ''/'' \<notin> set (xmpp_session_bare_jid j n)"
proof -
  let ?b = "before (CHR ''/'') j"
  have "take k j = take k ?b" if "k \<le> length ?b" for k
    using that takeWhile_eq_take [of "\<lambda>x. x \<noteq> CHR ''/''" j]
    by (metis before_def min_absorb1 take_take)
  then have "set (xmpp_session_bare_jid j n) \<subseteq> set ?b"
    by (auto simp: xmpp_session_bare_jid_def Let_def dest: in_set_takeD)
  with before_notin [of "CHR ''/''" j] show ?thesis by blast
qed

subsection \<open>The table as a finite map\<close>

text \<open>The interface the routing code relies on: lookups by key, removal and update.\<close>

locale keyed_table =
  fixes lookup :: "'w \<Rightarrow> 'k \<Rightarrow> 'e option"
    and invar :: "'w \<Rightarrow> bool"
    and remove :: "'k \<Rightarrow> 'w \<Rightarrow> 'w"
    and modify :: "'k \<Rightarrow> ('e \<Rightarrow> 'e) \<Rightarrow> 'w \<Rightarrow> 'w"
    and keeps :: "('e \<Rightarrow> 'e) \<Rightarrow> bool"
  assumes lookup_remove: "invar w \<Longrightarrow> lookup (remove k w) = (lookup w)(k := None)"
    and invar_remove: "invar w \<Longrightarrow> invar (remove k w)"
    and lookup_modify:
      "invar w \<Longrightarrow> keeps f \<Longrightarrow> lookup (modify k f w) = (lookup w)(k := map_option f (lookup w k))"
    and invar_modify: "invar w \<Longrightarrow> keeps f \<Longrightarrow> invar (modify k f w)"
begin

lemma lookup_remove_self: "invar w \<Longrightarrow> lookup (remove k w) k = None"
  by (simp add: lookup_remove)

lemma lookup_remove_other: "invar w \<Longrightarrow> k' \<noteq> k \<Longrightarrow> lookup (remove k w) k' = lookup w k'"
  by (simp add: lookup_remove)

lemma dom_modify: "invar w \<Longrightarrow> keeps f \<Longrightarrow> dom (lookup (modify k f w)) = dom (lookup w)"
  by (auto simp: lookup_modify dom_def)

lemma remove_modify:
  "invar w \<Longrightarrow> keeps f \<Longrightarrow> lookup (remove k (modify k f w)) = lookup (remove k w)"
  by (simp add: lookup_remove lookup_modify invar_modify)

lemma modify_other:
  "invar w \<Longrightarrow> keeps f \<Longrightarrow> k' \<noteq> k \<Longrightarrow> lookup (modify k f w) k' = lookup w k'"
  by (simp add: lookup_modify)

end

definition entry_map :: "session_entry list \<Rightarrow> cstr \<Rightarrow> session_entry option" where
  "entry_map es = map_of (map (\<lambda>e. (e_jid e, e)) es)"

definition session_lookup :: "server \<Rightarrow> cstr \<Rightarrow> session_entry option" where
  "session_lookup s = entry_map (g_sessions s)"

definition entries_ok :: "session_entry list \<Rightarrow> bool" where
  "entries_ok es \<longleftrightarrow> distinct (map e_jid es) \<and> length es \<le> SESSION_TABLE_CAP \<and>
     (\<forall>e\<in>set es. e_jid e \<noteq> [] \<and> length (e_jid e) < JID_BUF_SIZE)"

definition table_inv :: "server \<Rightarrow> bool" where
  "table_inv s \<longleftrightarrow> entries_ok (g_sessions s)"

text \<open>Which connection each registered JID belongs to.\<close>

definition owners :: "server \<Rightarrow> (cstr \<times> sink) set" where
  "owners s = (\<lambda>e. (e_jid e, e_write_ud e)) ` set (g_sessions s)"

definition keeps_jid :: "(session_entry \<Rightarrow> session_entry) \<Rightarrow> bool" where
  "keeps_jid f \<longleftrightarrow> (\<forall>e. e_jid (f e) = e_jid e)"

lemma entry_map_None: "entry_map es j = None \<longleftrightarrow> j \<notin> e_jid ` set es"
  by (auto simp: entry_map_def map_of_eq_None_iff image_image)

lemma dom_session_lookup: "dom (session_lookup s) = e_jid ` set (g_sessions s)"
  using entry_map_None [of "g_sessions s"] by (auto simp: session_lookup_def dom_def)

lemma entry_map_SomeI:
  "distinct (map e_jid es) \<Longrightarrow> e \<in> set es \<Longrightarrow> entry_map es (e_jid e) = Some e"
  by (induction es) (auto simp: entry_map_def image_iff)

lemma entry_map_SomeD: "entry_map es j = Some e \<Longrightarrow> e \<in> set es \<and> e_jid e = j"
  by (auto simp: entry_map_def dest: map_of_SomeD)

lemma entry_map_iff:
  "distinct (map e_jid es) \<Longrightarrow> entry_map es j = Some e \<longleftrightarrow> e \<in> set es \<and> e_jid e = j"
  by (auto intro: entry_map_SomeI dest: entry_map_SomeD)

lemma find_session_None: "find_session j s = None \<longleftrightarrow> session_lookup s j = None"
  by (auto simp: session_lookup_def entry_map_None find_index_None)

lemma find_session_lookup:
  "table_inv s \<Longrightarrow> find_session j s = Some i \<Longrightarrow>
     i < length (g_sessions s) \<and> session_lookup s j = Some (g_sessions s ! i)"
  by (auto simp: table_inv_def entries_ok_def session_lookup_def entry_map_iff
      dest!: find_index_SomeD)

text \<open>Replacing an entry by one with the same JID.\<close>

lemma map_jid_list_update:
  "i < length es \<Longrightarrow> e_jid e = e_jid (es ! i) \<Longrightarrow> map e_jid (es[i := e]) = map e_jid es"
  by (simp add: map_update list_update_same_conv)

lemma entries_ok_update:
  assumes "entries_ok es" "i < length es" "e_jid e = e_jid (es ! i)"
  shows "entries_ok (es[i := e])"
proof -
  have jids: "map e_jid (es[i := e]) = map e_jid es"
    using assms by (intro map_jid_list_update)
  moreover have "\<forall>x\<in>set (es[i := e]). e_jid x \<noteq> [] \<and> length (e_jid x) < JID_BUF_SIZE"
  proof
    fix x assume "x \<in> set (es[i := e])"
    then have "e_jid x \<in> set (map e_jid (es[i := e]))" by simp
    then have "e_jid x \<in> set (map e_jid es)" using jids by simp
    then show "e_jid x \<noteq> [] \<and> length (e_jid x) < JID_BUF_SIZE"
      using assms(1) unfolding entries_ok_def by fastforce
  qed
  ultimately show ?thesis using assms(1) by (simp add: entries_ok_def)
qed

lemma entry_map_update:
  assumes "distinct (map e_jid es)" "i < length es" "e_jid e = e_jid (es ! i)"
  shows "entry_map (es[i := e]) = (entry_map es)(e_jid e \<mapsto> e)"
proof
  fix j
  have d: "distinct (map e_jid (es[i := e]))"
    using assms by (simp add: map_jid_list_update)
  show "entry_map (es[i := e]) j = ((entry_map es)(e_jid e \<mapsto> e)) j"
  proof (cases "j = e_jid e")
    case True
    with d assms(2) show ?thesis
      by (simp add: entry_map_iff set_update_memI)
  next
    case False
    have "entry_map (es[i := e]) j = Some x \<longleftrightarrow> entry_map es j = Some x" for x
    proof -
      have "x \<in> set (es[i := e]) \<longleftrightarrow> x \<in> set es" if "e_jid x = j"
        using that False assms(2,3)
        by (metis in_set_conv_nth length_list_update nth_list_update)
      then show ?thesis using d assms(1) by (auto simp: entry_map_iff)
    qed
    then show ?thesis using False
      by (metis fun_upd_other option.exhaust)
  qed
qed

text \<open>Swap-with-last removal.\<close>

lemma swap_remove_append:
  "butlast ((xs @ x # ys)[length xs := last (xs @ x # ys)]) =
     (if ys = [] then xs else xs @ last ys # butlast ys)"
  by (cases ys rule: rev_cases) (simp_all add: list_update_append butlast_append)

lemma swap_remove:
  assumes "distinct (map e_jid es)" "i < length es"
  defines "rs \<equiv> butlast (es[i := last es])"
  shows "distinct (map e_jid rs)" and "set rs = set es - {es ! i}"
    and "length rs = length es - 1"
proof -
  obtain xs x ys where es: "es = xs @ x # ys" and i: "i = length xs"
    using id_take_nth_drop [OF assms(2)] assms(2)
    by (metis length_take less_imp_le min.absorb2)
  have rs: "rs = (if ys = [] then xs else xs @ last ys # butlast ys)"
    unfolding rs_def es i by (rule swap_remove_append)
  have m: "mset rs = mset (xs @ ys)"
    using rs by (cases ys rule: rev_cases) simp_all
  have d: "distinct (map e_jid (xs @ x # ys))" using assms(1) es by simp
  have "mset (map e_jid rs) = mset (map e_jid (xs @ ys))" using m by (simp add: mset_map)
  then have "distinct (map e_jid rs) = distinct (map e_jid (xs @ ys))"
    by (rule mset_eq_imp_distinct_iff)
  then show "distinct (map e_jid rs)" using d by simp
  have "set rs = set (xs @ ys)" using m by (rule mset_eq_setD)
  then have "set rs = set xs \<union> set ys" by simp
  moreover have "x \<notin> set xs \<union> set ys" using d by force
  moreover have "es ! i = x" by (simp add: es i)
  ultimately show "set rs = set es - {es ! i}" by (auto simp: es)
  show "length rs = length es - 1" by (simp add: rs_def)
qed

lemma unregister_table:
  assumes "table_inv s"
  shows "table_inv (xmpp_session_table_unregister j s)"
    and "session_lookup (xmpp_session_table_unregister j s) = (session_lookup s)(j := None)"
proof -
  let ?t = "xmpp_session_table_unregister j s" and ?es = "g_sessions s"
  have d: "distinct (map e_jid ?es)" using assms by (simp add: table_inv_def entries_ok_def)
  show "table_inv ?t"
  proof (cases "find_session j s")
    case (Some i)
    then have "i < length ?es" by (auto dest: find_index_SomeD)
    from swap_remove [OF d this] assms Some show ?thesis
      by (auto simp: table_inv_def entries_ok_def xmpp_session_table_unregister_def)
  qed (use assms in \<open>simp add: xmpp_session_table_unregister_def\<close>)
  show "session_lookup ?t = (session_lookup s)(j := None)"
  proof (cases "find_session j s")
    case None
    then show ?thesis using find_session_None [of j s]
      by (auto simp: xmpp_session_table_unregister_def)
  next
    case (Some i)
    then have i: "i < length ?es" and ij: "e_jid (?es ! i) = j" by (auto dest: find_index_SomeD)
    define rs where "rs = butlast (?es[i := last ?es])"
    note sw = swap_remove [OF d i, folded rs_def]
    have "entry_map rs k = ((entry_map ?es)(j := None)) k" for k
    proof (cases "k = j")
      case True
      have "j \<notin> e_jid ` set rs"
      proof
        assume "j \<in> e_jid ` set rs"
        then obtain e where e: "e \<in> set ?es" "e \<noteq> ?es ! i" "e_jid e = j" using sw(2) by auto
        then have "entry_map ?es j = Some e" "entry_map ?es j = Some (?es ! i)"
          using d i ij by (auto simp: entry_map_iff)
        with e(2) show False by simp
      qed
      with True show ?thesis by (simp add: entry_map_None)
    next
      case False
      have "entry_map rs k = Some e \<longleftrightarrow> entry_map ?es k = Some e" for e
        using False ij d sw(1,2) by (auto simp: entry_map_iff)
      then show ?thesis using False by (metis fun_upd_other option.exhaust)
    qed
    then show ?thesis using Some
      by (auto simp: session_lookup_def xmpp_session_table_unregister_def rs_def)
  qed
qed

lemma update_entry_table:
  assumes "table_inv s" and "keeps_jid f"
  shows "table_inv (update_entry j f s)"
    and "session_lookup (update_entry j f s) = (session_lookup s)(j := map_option f (session_lookup s j))"
proof -
  have "table_inv (update_entry j f s) \<and>
    session_lookup (update_entry j f s) = (session_lookup s)(j := map_option f (session_lookup s j))"
  proof (cases "find_session j s")
    case None
    then show ?thesis using assms find_session_None [of j s]
      by (auto simp: update_entry_def)
  next
    case (Some i)
    then have i: "i < length (g_sessions s)" "e_jid (g_sessions s ! i) = j"
      and l: "session_lookup s j = Some (g_sessions s ! i)"
      using find_session_lookup [OF assms(1)] by (auto dest: find_index_SomeD)
    then show ?thesis using assms Some
      by (auto simp: update_entry_def table_inv_def keeps_jid_def entries_ok_update
          session_lookup_def entry_map_update entries_ok_def [of "g_sessions s"])
  qed
  then show "table_inv (update_entry j f s)"
    and "session_lookup (update_entry j f s) = (session_lookup s)(j := map_option f (session_lookup s j))"
    by blast+
qed

interpretation st: keyed_table session_lookup table_inv xmpp_session_table_unregister
  update_entry keeps_jid
  by unfold_locales (simp_all add: unregister_table update_entry_table)

subsection \<open>Frame and effect of the operations\<close>

lemma table_ops_frame [simp]:
  "ctx (xmpp_session_table_register E u s) = ctx s"
  "stream_errors (xmpp_session_table_register E u s) = stream_errors s"
  "ctx (xmpp_session_table_unregister j s) = ctx s"
  "db (xmpp_session_table_unregister j s) = db s"
  "sent (xmpp_session_table_unregister j s) = sent s"
  "stream_errors (xmpp_session_table_unregister j s) = stream_errors s"
  "ctx (snd (xmpp_session_table_write E j d s)) = ctx s"
  "g_sessions (snd (xmpp_session_table_write E j d s)) = g_sessions s"
  "db (snd (xmpp_session_table_write E j d s)) = db s"
  "stream_errors (snd (xmpp_session_table_write E j d s)) = stream_errors s"
  by (simp_all add: xmpp_session_table_register_def xmpp_session_table_unregister_def
      xmpp_session_table_write_def Let_def split: option.splits)

lemma update_entry_frame [simp]:
  "ctx (update_entry j f s) = ctx s"
  "db (update_entry j f s) = db s"
  "sent (update_entry j f s) = sent s"
  "stream_errors (update_entry j f s) = stream_errors s"
  by (simp_all add: update_entry_def split: option.splits)

lemma owners_cong: "g_sessions s' = g_sessions s \<Longrightarrow> owners s' = owners s"
  by (simp add: owners_def)

lemma update_entry_owners:
  assumes "\<And>e. e_jid (f e) = e_jid e \<and> e_write_ud (f e) = e_write_ud e"
  shows "owners (update_entry j f s) = owners s"
proof (cases "find_session j s")
  case (Some i)
  have "map (\<lambda>e. (e_jid e, e_write_ud e)) ((g_sessions s)[i := f (g_sessions s ! i)]) =
      map (\<lambda>e. (e_jid e, e_write_ud e)) (g_sessions s)"
    using assms by (simp add: map_update) (metis (no_types, lifting) list_update_beyond list_update_id
        linorder_not_less length_map nth_map)
  then have "(\<lambda>e. (e_jid e, e_write_ud e)) ` set ((g_sessions s)[i := f (g_sessions s ! i)]) = owners s"
    unfolding owners_def by (metis list.set_map)
  then show ?thesis using Some by (simp add: update_entry_def owners_def)
qed (simp add: update_entry_def)

lemma unregister_owners: "owners (xmpp_session_table_unregister j s) \<subseteq> owners s"
proof -
  have "set (butlast ((g_sessions s)[i := last (g_sessions s)])) \<subseteq> set (g_sessions s)" if "i < length (g_sessions s)" for i
    using that set_update_subset_insert [of "g_sessions s" i "last (g_sessions s)"]
    by (metis (no_types, lifting) in_set_butlastD insert_absorb last_in_set length_greater_0_conv
        gr_zeroI not_less_zero subset_iff)
  then show ?thesis
    by (auto simp: owners_def xmpp_session_table_unregister_def dest: find_index_SomeD split: option.split)
qed

lemma unregister_removes:
  "table_inv s \<Longrightarrow> (j, u) \<notin> owners (xmpp_session_table_unregister j s)"
  using st.lookup_remove_self [of s j]
  by (auto simp: owners_def session_lookup_def entry_map_None)

lemma register_owners:
  assumes "length (bound_jid (ctx s)) < JID_BUF_SIZE"
  shows "owners (xmpp_session_table_register E u s) \<subseteq> insert (bound_jid (ctx s), u) (owners s)"
proof (cases "find_session (bound_jid (ctx s)) s")
  case (Some i)
  let ?e = "(g_sessions s ! i)\<lparr>e_write_ud := u, e_last_active := monotonic_ns E, e_carbons := carbons_enabled (ctx s)\<rparr>"
  have "e_jid ?e = bound_jid (ctx s)" using find_index_SomeD [OF Some] by simp
  moreover have "set ((g_sessions s)[i := ?e]) \<subseteq> insert ?e (set (g_sessions s))"
    by (rule set_update_subset_insert)
  ultimately show ?thesis
    using Some by (auto simp: xmpp_session_table_register_def owners_def Let_def)
next
  case None
  then show ?thesis using assms by (auto simp: xmpp_session_table_register_def owners_def Let_def)
qed

lemma keeps_jid_ops [simp]:
  "keeps_jid (\<lambda>e. e\<lparr>e_priority := p\<rparr>)"
  "keeps_jid (\<lambda>e. e\<lparr>e_last_active := t\<rparr>)"
  "keeps_jid (\<lambda>e. e\<lparr>e_carbons := b\<rparr>)"
  by (simp_all add: keeps_jid_def)

lemma touch_frame [simp]:
  "ctx (xmpp_session_table_touch E j s) = ctx s"
  "db (xmpp_session_table_touch E j s) = db s"
  "sent (xmpp_session_table_touch E j s) = sent s"
  "stream_errors (xmpp_session_table_touch E j s) = stream_errors s"
  by (simp_all add: xmpp_session_table_touch_def)

lemma fold_write_filter:
  "fold (\<lambda>e s. if P e then snd (write_fn E (e_write_ud e) data s) else s) es s =
     s\<lparr>sent := sent s @ map (\<lambda>e. (e_write_ud e, data)) (filter P es)\<rparr>"
  by (induction es arbitrary: s) (simp_all add: write_fn_def)

lemma broadcast_to_bare_eq:
  "xmpp_session_table_broadcast_to_bare E bj data s =
     s\<lparr>sent := sent s @ map (\<lambda>e. (e_write_ud e, data))
        (filter (\<lambda>e. bare (e_jid e) = bj) (g_sessions s))\<rparr>"
  by (simp add: xmpp_session_table_broadcast_to_bare_def fold_write_filter)

lemma broadcast_except_eq:
  "xmpp_session_table_broadcast_except E bj excl data s =
     s\<lparr>sent := sent s @ map (\<lambda>e. (e_write_ud e, data))
        (filter (\<lambda>e. bare (e_jid e) = bj \<and> e_jid e \<noteq> excl) (g_sessions s))\<rparr>"
proof -
  have "xmpp_session_table_broadcast_except E bj excl data s =
    fold (\<lambda>e s. if bare (e_jid e) = bj \<and> e_jid e \<noteq> excl
       then snd (write_fn E (e_write_ud e) data s) else s) (g_sessions s) s"
    unfolding xmpp_session_table_broadcast_except_def
    by (intro fold_cong) auto
  then show ?thesis by (simp only: fold_write_filter)
qed

lemma fold_cb_filter:
  assumes "\<And>e s. step e s = (if P e then snd (write_fn E (e_write_ud e) (txt (e_jid e)) s) else s)"
  shows "fold step es s =
     s\<lparr>sent := sent s @ map (\<lambda>e. (e_write_ud e, txt (e_jid e))) (filter P es)\<rparr>"
  by (induction es arbitrary: s) (simp_all add: assms write_fn_def)

lemma for_each_carbon_resource_eq:
  "xmpp_session_table_for_each_carbon_resource bj excl (\<lambda>j u. snd \<circ> write_fn E u (txt j)) s =
     s\<lparr>sent := sent s @ map (\<lambda>e. (e_write_ud e, txt (e_jid e)))
        (filter (\<lambda>e. bare (e_jid e) = bj \<and> e_carbons e \<and> excl \<noteq> Some (e_jid e)) (g_sessions s))\<rparr>"
  unfolding xmpp_session_table_for_each_carbon_resource_def
  by (rule fold_cb_filter [where P = "\<lambda>e. bare (e_jid e) = bj \<and> e_carbons e \<and> excl \<noteq> Some (e_jid e)"])
    auto

text \<open>Registration on the table seen as a map.\<close>

lemma entry_map_snoc:
  "e_jid e \<notin> e_jid ` set es \<Longrightarrow> entry_map (es @ [e]) = (entry_map es)(e_jid e \<mapsto> e)"
  by (induction es) (auto simp: entry_map_def)

definition registered_entry :: "env \<Rightarrow> sink \<Rightarrow> server \<Rightarrow> session_entry" where
  "registered_entry E u s =
     \<lparr> e_write_ud = u, e_last_active = monotonic_ns E,
       e_priority = (case session_lookup s (bound_jid (ctx s)) of None \<Rightarrow> 0 | Some e \<Rightarrow> e_priority e),
       e_carbons = carbons_enabled (ctx s), e_jid = bound_jid (ctx s) \<rparr>"

lemma register_existing:
  assumes "table_inv s" "bound_jid (ctx s) \<noteq> []" "session_lookup s (bound_jid (ctx s)) \<noteq> None"
  shows "table_inv (xmpp_session_table_register E u s) \<and>
    session_lookup (xmpp_session_table_register E u s) =
      (session_lookup s)(bound_jid (ctx s) \<mapsto> registered_entry E u s)"
proof -
  let ?j = "bound_jid (ctx s)"
  obtain i where f: "find_session ?j s = Some i"
    using assms(3) find_session_None [of ?j s] by (cases "find_session ?j s") auto
  note fi = find_session_lookup [OF assms(1) f]
  have ij: "e_jid (g_sessions s ! i) = ?j" using f by (auto dest: find_index_SomeD)
  have reg: "registered_entry E u s = (g_sessions s ! i)
      \<lparr>e_write_ud := u, e_last_active := monotonic_ns E, e_carbons := carbons_enabled (ctx s)\<rparr>"
    using fi ij by (simp add: registered_entry_def)
  have "g_sessions (xmpp_session_table_register E u s) = (g_sessions s)[i := registered_entry E u s]"
    using assms(2) f by (simp add: xmpp_session_table_register_def reg)
  moreover have "e_jid (registered_entry E u s) = e_jid (g_sessions s ! i)"
    using ij by (simp add: registered_entry_def)
  ultimately show ?thesis
    using assms(1) fi ij
    by (auto simp: table_inv_def session_lookup_def entries_ok_update entry_map_update
        entries_ok_def [of "g_sessions s"])
qed

lemma register_new:
  assumes "table_inv s" "bound_jid (ctx s) \<noteq> []" "length (bound_jid (ctx s)) < JID_BUF_SIZE"
    and "session_lookup s (bound_jid (ctx s)) = None" "length (g_sessions s) < SESSION_TABLE_CAP"
  shows "table_inv (xmpp_session_table_register E u s) \<and>
    session_lookup (xmpp_session_table_register E u s) =
      (session_lookup s)(bound_jid (ctx s) \<mapsto> registered_entry E u s)"
proof -
  let ?j = "bound_jid (ctx s)"
  have f: "find_session ?j s = None" using assms(4) find_session_None by blast
  have "g_sessions (xmpp_session_table_register E u s) = g_sessions s @ [registered_entry E u s]"
    using assms f
    by (simp add: xmpp_session_table_register_def registered_entry_def Let_def)
  moreover have "e_jid (registered_entry E u s) = ?j" by (simp add: registered_entry_def)
  moreover have "?j \<notin> e_jid ` set (g_sessions s)"
    using assms(4) by (simp add: session_lookup_def entry_map_None)
  ultimately show ?thesis
    using assms by (auto simp: table_inv_def session_lookup_def entry_map_snoc entries_ok_def)
qed

lemma register_noop:
  assumes "bound_jid (ctx s) = [] \<or>
    session_lookup s (bound_jid (ctx s)) = None \<and> length (g_sessions s) \<ge> SESSION_TABLE_CAP"
  shows "xmpp_session_table_register E u s = s"
  using assms find_session_None [of "bound_jid (ctx s)" s]
  by (auto simp: xmpp_session_table_register_def Let_def)

lemma register_table_inv:
  assumes "table_inv s" "length (bound_jid (ctx s)) < JID_BUF_SIZE"
  shows "table_inv (xmpp_session_table_register E u s)"
proof -
  consider "bound_jid (ctx s) = [] \<or>
      session_lookup s (bound_jid (ctx s)) = None \<and> length (g_sessions s) \<ge> SESSION_TABLE_CAP"
    | "bound_jid (ctx s) \<noteq> []" "session_lookup s (bound_jid (ctx s)) \<noteq> None"
    | "bound_jid (ctx s) \<noteq> []" "session_lookup s (bound_jid (ctx s)) = None"
      "length (g_sessions s) < SESSION_TABLE_CAP"
    by linarith
  then show ?thesis
  proof cases
    case 1
    then show ?thesis using assms(1) register_noop by simp
  next
    case 2
    then show ?thesis using assms(1) register_existing by blast
  next
    case 3
    then show ?thesis using assms register_new by blast
  qed
qed

lemma is_registered_iff:
  "xmpp_session_table_is_registered j s \<longleftrightarrow> session_lookup s j \<noteq> None"
  using find_session_None [of j s] by (simp add: xmpp_session_table_is_registered_def)

lemma table_write_eq:
  "table_inv s \<Longrightarrow> xmpp_session_table_write E j d s =
     (case session_lookup s j of None \<Rightarrow> (- 1, s) | Some e \<Rightarrow> write_fn E (e_write_ud e) d s)"
  using find_session_None [of j s] find_session_lookup [of s j]
  by (auto simp: xmpp_session_table_write_def split: option.splits)

subsection \<open>Choosing the best resource\<close>

lemma better_trans: "better a b \<Longrightarrow> better b c \<Longrightarrow> better a c"
  by (auto simp: better_def)

lemma better_irrefl [simp]: "\<not> better a a"
  by (simp add: better_def)

lemma better_not_trans: "\<not> better a b \<Longrightarrow> better c b \<Longrightarrow> better c a"
  by (auto simp: better_def)

definition best_split :: "(session_entry \<Rightarrow> bool) \<Rightarrow> session_entry list \<Rightarrow> session_entry \<Rightarrow> bool" where
  "best_split P es b \<longleftrightarrow> P b \<and> (\<exists>xs ys. es = xs @ b # ys \<and>
     (\<forall>x\<in>set xs. P x \<longrightarrow> better b x) \<and> (\<forall>y\<in>set ys. P y \<longrightarrow> \<not> better y b))"

lemma best_split_snoc_skip:
  "best_split P es b \<Longrightarrow> \<not> P e \<or> \<not> better e b \<Longrightarrow> best_split P (es @ [e]) b"
  by (fastforce simp: best_split_def)

lemma best_split_snoc_new:
  assumes "best_split P es b" "P e" "better e b"
  shows "best_split P (es @ [e]) e"
proof -
  obtain xs ys where es: "es = xs @ b # ys"
    and xs: "\<forall>x\<in>set xs. P x \<longrightarrow> better b x" and ys: "\<forall>y\<in>set ys. P y \<longrightarrow> \<not> better y b"
    using assms(1) by (auto simp: best_split_def)
  have "\<forall>x\<in>set es. P x \<longrightarrow> better e x"
    using es xs ys assms(3) by (auto intro: better_trans better_not_trans)
  moreover have "es @ [e] = es @ e # []" by simp
  ultimately show ?thesis using assms(2) unfolding best_split_def by fastforce
qed

lemma best_split_first:
  "\<forall>x\<in>set pre. \<not> P x \<Longrightarrow> P e \<Longrightarrow> best_split P (pre @ [e]) e"
  unfolding best_split_def by fastforce

lemma best_loop_spec:
  assumes "case best of None \<Rightarrow> \<forall>x\<in>set pre. bare (e_jid x) \<noteq> bj
           | Some b \<Rightarrow> best_split (\<lambda>e. bare (e_jid e) = bj) pre b"
  shows "case best_loop bj es best of None \<Rightarrow> \<forall>x\<in>set (pre @ es). bare (e_jid x) \<noteq> bj
           | Some b \<Rightarrow> best_split (\<lambda>e. bare (e_jid e) = bj) (pre @ es) b"
  using assms
proof (induction es arbitrary: pre best)
  case (Cons e es)
  let ?P = "\<lambda>e. bare (e_jid e) = bj"
  define best' where "best' = (if \<not> ?P e then best else case best of None \<Rightarrow> Some e
    | Some b \<Rightarrow> if better e b then Some e else Some b)"
  have "best_loop bj (e # es) best = best_loop bj es best'"
    by (simp add: best'_def split: option.splits)
  moreover have "case best' of None \<Rightarrow> \<forall>x\<in>set (pre @ [e]). \<not> ?P x
      | Some b \<Rightarrow> best_split ?P (pre @ [e]) b"
  proof (cases best)
    case None
    with Cons.prems show ?thesis by (auto simp: best'_def best_split_first)
  next
    case (Some b)
    with Cons.prems have "best_split ?P pre b" by simp
    then show ?thesis using Some
      by (auto simp: best'_def intro: best_split_snoc_skip best_split_snoc_new)
  qed
  ultimately show ?case using Cons.IH [of "pre @ [e]" best']
    by (simp only: append_assoc append_Cons append_Nil)
qed (simp split: option.splits)

lemma best_loop_None:
  "best_loop bj es None = None \<longleftrightarrow> (\<forall>x\<in>set es. bare (e_jid x) \<noteq> bj)"
  using best_loop_spec [where best = None and pre = "[]" and bj = bj and es = es]
  by (auto simp: best_split_def split: option.splits)

lemma best_loop_Some:
  "best_loop bj es None = Some b \<Longrightarrow> best_split (\<lambda>e. bare (e_jid e) = bj) es b"
  using best_loop_spec [where best = None and pre = "[]" and bj = bj and es = es] by simp

lemma best_resource_None:
  "xmpp_session_table_best_resource bj n s = None \<longleftrightarrow>
     (\<forall>e\<in>set (g_sessions s). bare (e_jid e) \<noteq> bj)"
  unfolding xmpp_session_table_best_resource_def
  using best_loop_None [of bj "g_sessions s"]
  by (cases "best_loop bj (g_sessions s) None") auto

lemma best_resource_Some:
  assumes "table_inv s" "xmpp_session_table_best_resource bj JID_BUF_SIZE s = Some j"
  shows "\<exists>b. session_lookup s j = Some b \<and> best_split (\<lambda>e. bare (e_jid e) = bj) (g_sessions s) b"
proof -
  obtain b where b: "best_loop bj (g_sessions s) None = Some b" and j: "j = snprintf JID_BUF_SIZE (e_jid b)"
    using assms(2) by (auto simp: xmpp_session_table_best_resource_def split: option.splits)
  note sp = best_loop_Some [OF b]
  then have "b \<in> set (g_sessions s)" by (auto simp: best_split_def)
  then have "j = e_jid b" "session_lookup s (e_jid b) = Some b"
    using assms(1) j by (auto simp: table_inv_def entries_ok_def session_lookup_def entry_map_SomeI)
  with sp show ?thesis by auto
qed

lemma best_resource_top:
  assumes "table_inv s" "xmpp_session_table_best_resource bj JID_BUF_SIZE s = Some j"
  shows "\<exists>b. session_lookup s j = Some b \<and> b \<in> set (g_sessions s) \<and> e_jid b = j \<and> bare j = bj \<and>
    (\<forall>x\<in>set (g_sessions s). bare (e_jid x) = bj \<longrightarrow> e_priority x \<le> e_priority b)"
proof -
  obtain b xs ys where b: "session_lookup s j = Some b" "bare (e_jid b) = bj" and es: "g_sessions s = xs @ b # ys"
    and xs: "\<forall>x\<in>set xs. bare (e_jid x) = bj \<longrightarrow> better b x" and ys: "\<forall>y\<in>set ys. bare (e_jid y) = bj \<longrightarrow> \<not> better y b"
    using best_resource_Some [OF assms] unfolding best_split_def by blast
  have "e_priority x \<le> e_priority b" if x: "x \<in> set (g_sessions s)" "bare (e_jid x) = bj" for x
  proof -
    from x es have "x = b \<or> x \<in> set xs \<or> x \<in> set ys" by simp
    then have "x = b \<or> better b x \<or> \<not> better x b" using x(2) xs ys by blast
    then show ?thesis unfolding better_def by auto
  qed
  moreover have "e_jid b = j" using b(1) by (auto simp: session_lookup_def entry_map_def find_Some_iff dest: map_of_SomeD)
  moreover have "b \<in> set (g_sessions s)" using es by simp
  ultimately show ?thesis using b by blast
qed

subsection \<open>Properties\<close>

text \<open>C19: registering a bound session in a table that has room for it, or already has it,
  updates the table seen as a map from full JIDs at exactly that JID: the entry carries the
  new sink, time stamp and carbons flag and keeps the priority of an existing entry.\<close>

theorem register_updates_map:
  assumes "table_inv s" "bound_jid (ctx s) \<noteq> []" "length (bound_jid (ctx s)) < JID_BUF_SIZE"
    and "session_lookup s (bound_jid (ctx s)) \<noteq> None \<or> length (g_sessions s) < SESSION_TABLE_CAP"
  shows "table_inv (xmpp_session_table_register E u s) \<and>
    session_lookup (xmpp_session_table_register E u s) =
      (session_lookup s)(bound_jid (ctx s) \<mapsto> registered_entry E u s)"
  using register_existing [OF assms(1,2)] register_new [OF assms(1-3)] assms(4) by blast

definition example_server :: server where
  "example_server = server0\<lparr>ctx := session0\<lparr>bound_jid := ''a@d/r''\<rparr>,
     g_sessions := [\<lparr> e_write_ud = 7, e_last_active = 1, e_priority = 5, e_carbons = False, e_jid = ''b@d/x'' \<rparr>,
       \<lparr> e_write_ud = 8, e_last_active = 2, e_priority = 5, e_carbons = True, e_jid = ''b@d/y'' \<rparr>]\<rparr>"

lemma example_server_inv: "table_inv example_server"
  by (simp add: table_inv_def entries_ok_def example_server_def example_defs)

theorem register_updates_map_witness:
  "session_lookup (xmpp_session_table_register env0 3 example_server) ''a@d/r'' =
     Some \<lparr> e_write_ud = 3, e_last_active = 0, e_priority = 0, e_carbons = False, e_jid = ''a@d/r'' \<rparr>"
proof -
  have "bound_jid (ctx example_server) = ''a@d/r''" "length (g_sessions example_server) = 2"
    "carbons_enabled (ctx example_server) = False" "session_lookup example_server ''a@d/r'' = None"
    "monotonic_ns env0 = 0"
    by (simp_all add: example_server_def example_defs session_lookup_def entry_map_def)
  then show ?thesis
    using register_updates_map [OF example_server_inv, of env0 3] by (simp add: registered_entry_def)
qed

text \<open>C20: unregistering removes exactly the given JID from the table, although the code
  fills the hole with the last entry, and keeps the table well-formed.\<close>

theorem unregister_updates_map:
  assumes "table_inv s"
  shows "table_inv (xmpp_session_table_unregister j s) \<and>
    session_lookup (xmpp_session_table_unregister j s) = (session_lookup s)(j := None)"
  using assms by (simp add: st.lookup_remove st.invar_remove)

theorem unregister_updates_map_witness:
  "session_lookup (xmpp_session_table_unregister ''b@d/x'' example_server) ''b@d/x'' = None \<and>
   session_lookup (xmpp_session_table_unregister ''b@d/x'' example_server) ''b@d/y'' \<noteq> None"
  using unregister_updates_map [OF example_server_inv, of "''b@d/x''"]
  by (simp add: example_server_def session_lookup_def entry_map_def)

text \<open>The table never holds more than 256 sessions: registering one more is ignored,
  without a change anywhere and without draining the offline queue.\<close>

theorem register_full_ignored:
  assumes "length (g_sessions s) \<ge> SESSION_TABLE_CAP" "session_lookup s (bound_jid (ctx s)) = None"
  shows "xmpp_session_table_register E u s = s"
  using assms by (intro register_noop) simp

definition full_server :: server where
  "full_server = server0\<lparr>g_sessions := replicate 256
     \<lparr> e_write_ud = 0, e_last_active = 0, e_priority = 0, e_carbons = False, e_jid = ''b@d/x'' \<rparr>,
     ctx := session0\<lparr>bound_jid := ''a@d/r''\<rparr>\<rparr>"

theorem register_full_ignored_witness:
  "xmpp_session_table_register env0 3 full_server = full_server"
proof (rule register_full_ignored)
  show "SESSION_TABLE_CAP \<le> length (g_sessions full_server)"
    by (simp add: full_server_def)
  show "session_lookup full_server (bound_jid (ctx full_server)) = None"
    by (simp add: full_server_def session_lookup_def entry_map_None)
qed

text \<open>C21: the resource chosen for a bare JID is registered and belongs to the bare JID; no entry of
  the bare JID has a higher priority, none with the same priority was active later, and of the
  entries that tie in both it is the first in the table.\<close>

theorem best_resource_is_best:
  assumes "table_inv s" "xmpp_session_table_best_resource bj JID_BUF_SIZE s = Some j"
  shows "\<exists>b xs ys. session_lookup s j = Some b \<and> bare (e_jid b) = bj \<and> g_sessions s = xs @ b # ys \<and>
    (\<forall>e\<in>set (g_sessions s). bare (e_jid e) = bj \<longrightarrow> e_priority e \<le> e_priority b \<and>
       (e_priority e = e_priority b \<longrightarrow> e_last_active e \<le> e_last_active b)) \<and>
    (\<forall>x\<in>set xs. bare (e_jid x) = bj \<longrightarrow>
       e_priority x < e_priority b \<or> e_last_active x < e_last_active b)"
proof -
  obtain b xs ys where b: "session_lookup s j = Some b" "bare (e_jid b) = bj" and es: "g_sessions s = xs @ b # ys"
    and xs: "\<forall>x\<in>set xs. bare (e_jid x) = bj \<longrightarrow> better b x" and ys: "\<forall>y\<in>set ys. bare (e_jid y) = bj \<longrightarrow> \<not> better y b"
    using best_resource_Some [OF assms] unfolding best_split_def by blast
  have best: "e_priority e \<le> e_priority b \<and> (e_priority e = e_priority b \<longrightarrow> e_last_active e \<le> e_last_active b)"
    if e: "e \<in> set (g_sessions s)" "bare (e_jid e) = bj" for e
  proof -
    from e es have "e = b \<or> e \<in> set xs \<or> e \<in> set ys" by simp
    then have "e = b \<or> better b e \<or> \<not> better e b" using e(2) xs ys by blast
    then show ?thesis unfolding better_def by (auto simp: not_less intro: less_imp_le)
  qed
  have first: "e_priority x < e_priority b \<or> e_last_active x < e_last_active b"
    if "x \<in> set xs" "bare (e_jid x) = bj" for x
    using xs that unfolding better_def by blast
  show ?thesis using b es best first by blast
qed

theorem best_resource_is_best_witness:
  "xmpp_session_table_best_resource ''b@d'' JID_BUF_SIZE example_server = Some ''b@d/y'' \<and>
   (\<exists>b. session_lookup example_server ''b@d/y'' = Some b \<and> bare (e_jid b) = ''b@d'' \<and>
     (\<forall>e\<in>set (g_sessions example_server). bare (e_jid e) = ''b@d'' \<longrightarrow> e_priority e \<le> e_priority b))"
proof -
  have b: "xmpp_session_table_best_resource ''b@d'' JID_BUF_SIZE example_server = Some ''b@d/y''"
    by (simp add: xmpp_session_table_best_resource_def example_server_def better_def
        xmpp_session_bare_jid_def before_def Let_def)
  from best_resource_is_best [OF example_server_inv b] show ?thesis using b by blast
qed

text \<open>No resource is found exactly when no entry of the table belongs to the bare JID.\<close>

theorem best_resource_none_iff:
  "xmpp_session_table_best_resource bj n s = None \<longleftrightarrow>
     \<not> (\<exists>e. e \<in> set (g_sessions s) \<and> bare (e_jid e) = bj)"
  by (auto simp: best_resource_None)

text \<open>A broadcast to the other resources of a user writes the stanza once to each entry
  of that bare JID except the excluded full JID, in table order, and changes nothing else.\<close>

theorem broadcast_except_exact:
  "xmpp_session_table_broadcast_except E bj excl data s =
     s\<lparr>sent := sent s @ map (\<lambda>e. (e_write_ud e, data))
        (filter (\<lambda>e. bare (e_jid e) = bj \<and> e_jid e \<noteq> excl) (g_sessions s))\<rparr>"
  by (rule broadcast_except_eq)

end
