(* ===== verification/IQ_Dispatch.thy ===== *)
theory IQ_Dispatch
  imports Server_State "HOL-Library.Multiset"
begin

text \<open>
  The IQ dispatcher (\<^verbatim>\<open>xmpp_iq_dispatch.c\<close>): a bounded registry of handlers, sorted
  lazily by descending priority with an in-place insertion sort, matched by namespace and
  by a \<^verbatim>\<open>|\<close>-separated list of IQ types. A handler function pointer is a value of a
  type \<open>'h\<close>; \<open>call\<close> runs it. Allocation of a registry entry is taken to succeed.
\<close>

record 'h iq_handler_entry =
  h_ns :: "cstr option"
  h_type :: "cstr option"
  h_handler :: "'h option"
  h_priority :: int

record 'h iq_registry =
  handlers :: "'h iq_handler_entry list"
  is_sorted :: bool

abbreviation (input) MAX_HANDLERS :: nat where "MAX_HANDLERS \<equiv> 64"

definition iq_registry0 :: "'h iq_registry" where
  "iq_registry0 = \<lparr> handlers = [], is_sorted = True \<rparr>"

subsection \<open>Sorting\<close>

text \<open>The inner loop: \<open>j + 1\<close> is the hole the key is sifted down to.\<close>

fun sift_down :: "'h iq_handler_entry list \<Rightarrow> 'h iq_handler_entry \<Rightarrow> nat \<Rightarrow> 'h iq_handler_entry list"
where
  "sift_down hs key 0 = hs[0 := key]"
| "sift_down hs key (Suc j) =
     (if h_priority (hs ! j) < h_priority key then sift_down (hs[Suc j := hs ! j]) key j
      else hs[Suc j := key])"

definition insertion_pass :: "nat \<Rightarrow> 'h iq_handler_entry list \<Rightarrow> 'h iq_handler_entry list" where
  "insertion_pass i hs = sift_down hs (hs ! i) i"

definition sort_handlers :: "'h iq_registry \<Rightarrow> 'h iq_registry" where
  "sort_handlers r =
     (if is_sorted r then r
      else r\<lparr>handlers := fold insertion_pass [1..<length (handlers r)] (handlers r),
             is_sorted := True\<rparr>)"

subsection \<open>Registration\<close>

definition iq_handler_register ::
    "'h iq_handler_entry option \<Rightarrow> 'h iq_registry \<Rightarrow> int \<times> 'h iq_registry" where
  "iq_handler_register entry r =
     (case entry of
        None \<Rightarrow> (- 1, r)
      | Some e \<Rightarrow>
          if h_handler e = None \<or> h_ns e = None then (- 1, r)
          else if length (handlers r) \<ge> MAX_HANDLERS then (- 1, r)
          else (0, r\<lparr>handlers := handlers r @ [e], is_sorted := False\<rparr>))"

text \<open>The table is terminated by an entry without a namespace.\<close>

definition iq_dispatch_init :: int where
  "iq_dispatch_init = 0"

fun iq_handler_register_all ::
    "'h iq_handler_entry list \<Rightarrow> 'h iq_registry \<Rightarrow> int \<times> 'h iq_registry" where
  "iq_handler_register_all [] r = (0, r)"
| "iq_handler_register_all (e # es) r =
     (if h_ns e = None then (0, r)
      else case iq_handler_register (Some e) r of (rc, r') \<Rightarrow>
        if rc \<noteq> 0 then (- 1, r') else iq_handler_register_all es r')"

definition iq_handler_unregister ::
    "'h iq_handler_entry option \<Rightarrow> 'h iq_registry \<Rightarrow> 'h iq_registry" where
  "iq_handler_unregister entry r =
     (case entry of
        None \<Rightarrow> r
      | Some e \<Rightarrow>
          (case find_index (\<lambda>h. h_ns h = h_ns e \<and> h_handler h = h_handler e) (handlers r) of
             None \<Rightarrow> r
           | Some i \<Rightarrow> r\<lparr>handlers := take i (handlers r) @ drop (Suc i) (handlers r),
                          is_sorted := False\<rparr>))"

definition iq_dispatch_shutdown :: "'h iq_registry \<Rightarrow> 'h iq_registry" where
  "iq_dispatch_shutdown r = r\<lparr>handlers := [], is_sorted := True\<rparr>"

subsection \<open>Matching\<close>

function type_scan :: "cstr \<Rightarrow> cstr \<Rightarrow> bool" where
  "type_scan p t =
     (if p = [] then False
      else if before (CHR ''|'') p = t then True
      else case strchr p (CHR ''|'') of
          Some rest \<Rightarrow> type_scan (tl rest) t
        | None \<Rightarrow> False)"
  by pat_completeness auto
termination
proof (relation "measure (\<lambda>(p, t). length p)", goal_cases)
  case (2 p t rest)
  from strchr_SomeD [OF 2(3)] obtain u where "p = before (CHR ''|'') p @ CHR ''|'' # u"
    "rest = CHR ''|'' # u" by auto
  then have "length p = length (before (CHR ''|'') p) + Suc (length u)" "tl rest = u"
    by (metis length_append length_Cons, simp)
  then show ?case by simp
qed simp

declare type_scan.simps [simp del]

definition handler_matches :: "'h iq_handler_entry \<Rightarrow> cstr \<Rightarrow> cstr \<Rightarrow> bool" where
  "handler_matches h ns type \<longleftrightarrow>
     h_ns h = Some ns \<and> (case h_type h of None \<Rightarrow> True | Some t \<Rightarrow> type_scan t type)"

subsection \<open>Dispatch\<close>

abbreviation (input) IQ_HANDLED :: int where "IQ_HANDLED \<equiv> 0"
abbreviation (input) IQ_NOT_MINE :: int where "IQ_NOT_MINE \<equiv> - 1"
abbreviation (input) IQ_ERROR :: int where "IQ_ERROR \<equiv> 1"

definition id_attr :: "cstr option \<Rightarrow> cstr" where
  "id_attr iq_id = (case iq_id of None \<Rightarrow> [] | Some i \<Rightarrow> attr ''id'' i)"

definition NS_STANZAS :: cstr where
  "NS_STANZAS = ''urn:ietf:params:xml:ns:xmpp-stanzas''"

definition iq_error_xml :: "cstr option \<Rightarrow> cstr \<Rightarrow> cstr \<Rightarrow> cstr" where
  "iq_error_xml iq_id err_type condition =
     ''<iq'' @ attr ''type'' ''error'' @ id_attr iq_id @ ''><error'' @ attr ''type'' err_type @
     ''><'' @ condition @ attr ''xmlns'' NS_STANZAS @ ''/></error></iq>''"

definition send_error_iq :: "env \<Rightarrow> cstr option \<Rightarrow> cstr \<Rightarrow> cstr \<Rightarrow> server \<Rightarrow> server" where
  "send_error_iq E iq_id err_type condition s =
     (case iq_append IQ_BUF_SIZE [] (iq_error_xml iq_id err_type condition) of (rc, buf) \<Rightarrow>
        if rc = 0 then snd (iq_flush E buf s) else s)"

text \<open>The first child whose \<^verbatim>\<open>type\<close> is not the string \<^verbatim>\<open>text\<close>.\<close>

definition get_first_element_child :: "'s strophe \<Rightarrow> 's \<Rightarrow> 's option" where
  "get_first_element_child L st = find (\<lambda>c. get_type L c \<noteq> Some ''text'') (get_children L st)"

type_synonym ('h, 's) iq_call =
  "'h \<Rightarrow> 's \<Rightarrow> 's \<Rightarrow> cstr option \<Rightarrow> server \<Rightarrow> int \<times> server"

fun try_handlers :: "env \<Rightarrow> ('h, 's) iq_call \<Rightarrow> cstr \<Rightarrow> cstr \<Rightarrow> 's \<Rightarrow> 's \<Rightarrow> cstr option \<Rightarrow>
    'h iq_handler_entry list \<Rightarrow> server \<Rightarrow> server" where
  "try_handlers E call ns ty st child iq_id [] s =
     send_error_iq E iq_id ''cancel'' ''feature-not-implemented'' s"
| "try_handlers E call ns ty st child iq_id (h # hs) s =
     (if \<not> handler_matches h ns ty then try_handlers E call ns ty st child iq_id hs s
      else case call (the (h_handler h)) st child iq_id s of (result, s') \<Rightarrow>
        if result = IQ_HANDLED then s'
        else if result = IQ_ERROR then s'
        else try_handlers E call ns ty st child iq_id hs s')"

definition iq_dispatch :: "env \<Rightarrow> 's strophe \<Rightarrow> ('h, 's) iq_call \<Rightarrow> 's \<Rightarrow>
    'h iq_registry \<Rightarrow> server \<Rightarrow> 'h iq_registry \<times> server" where
  "iq_dispatch E L call st r s =
     (let iq_type = (case get_attribute L st ''type'' of None \<Rightarrow> ''get'' | Some t \<Rightarrow> t);
          iq_id = get_attribute L st ''id''
      in if iq_type = ''result'' \<or> iq_type = ''error'' then (r, s)
         else case get_first_element_child L st of
             None \<Rightarrow> (r, send_error_iq E iq_id ''modify'' ''bad-request'' s)
           | Some child \<Rightarrow>
               (case get_ns L child of
                  None \<Rightarrow> (r, send_error_iq E iq_id ''modify'' ''bad-request'' s)
                | Some ns \<Rightarrow>
                    (let r' = sort_handlers r in
                     (r', try_handlers E call ns iq_type st child iq_id (handlers r') s))))"

subsection \<open>Sorting: lemmas\<close>

lemma length_sift_down [simp]: "length (sift_down hs key j) = length hs"
  by (induction hs key j rule: sift_down.induct) auto

text \<open>Sifting a key into a prefix leaves the prefix split where the key belongs.\<close>

lemma sift_down_spec:
  "sift_down (xs @ y # zs) key (length xs) =
     (let k = length (takeWhile (\<lambda>h. h_priority h < h_priority key) (rev xs));
          n = length xs - k
      in take n xs @ key # drop n xs @ zs)"
proof (induction xs arbitrary: y zs rule: rev_induct)
  case Nil
  then show ?case by simp
next
  case (snoc x xs)
  show ?case
  proof (cases "h_priority x < h_priority key")
    case True
    let ?k = "length (takeWhile (\<lambda>h. h_priority h < h_priority key) (rev xs))"
    have k: "?k \<le> length xs"
      by (metis length_rev length_takeWhile_le)
    have "sift_down ((xs @ [x]) @ y # zs) key (length (xs @ [x])) = sift_down (xs @ x # (x # zs)) key (length xs)"
      using True by (simp add: nth_append list_update_append)
    also have "\<dots> = take (length xs - ?k) xs @ key # drop (length xs - ?k) xs @ x # zs"
      by (simp only: snoc.IH Let_def)
    finally show ?thesis using True k by (simp add: Let_def)
  next
    case False
    then show ?thesis by (simp add: nth_append list_update_append)
  qed
qed

text \<open>A list in dispatch order that agrees with the registration order on equal
  priorities is the stable sort of the registration order.\<close>

definition dispatch_order :: "'h iq_handler_entry list \<Rightarrow> 'h iq_handler_entry list" where
  "dispatch_order hs = sort_key (\<lambda>h. - h_priority h) hs"

lemma sift_down_sorted_prefix:
  fixes xs :: "'h iq_handler_entry list" and key :: "'h iq_handler_entry"
  assumes "sorted (map (\<lambda>h. - h_priority h) xs)"
  defines "n \<equiv> length xs - length (takeWhile (\<lambda>h. h_priority h < h_priority key) (rev xs))"
  shows "\<forall>h\<in>set (take n xs). h_priority h \<ge> h_priority key"
    and "\<forall>h\<in>set (drop n xs). h_priority h < h_priority key"
proof -
  let ?P = "\<lambda>h. h_priority h < h_priority key"
  have dr: "drop n xs = rev (takeWhile ?P (rev xs))"
    unfolding n_def using takeWhile_eq_take [of ?P "rev xs"]
    by (metis rev_rev_ident rev_take length_rev)
  then show "\<forall>h\<in>set (drop n xs). ?P h"
    by (auto dest: set_takeWhileD)
  have tk: "take n xs = rev (dropWhile ?P (rev xs))"
    unfolding n_def using dropWhile_eq_drop [of ?P "rev xs"]
    by (metis rev_rev_ident rev_drop length_rev)
  show "\<forall>h\<in>set (take n xs). h_priority h \<ge> h_priority key"
  proof (cases "take n xs" rule: rev_cases)
    case (snoc ys z)
    then have "rev (dropWhile ?P (rev xs)) = ys @ [z]" using tk by simp
    then have "dropWhile ?P (rev xs) = z # rev ys" by (simp add: rev_swap)
    then have z: "\<not> ?P z" by (metis dropWhile_eq_Cons_conv)
    have "sorted (map (\<lambda>h. - h_priority h) (ys @ [z]))"
      using sorted_wrt_take [OF assms(1)] snoc by (metis take_map)
    then show ?thesis using z snoc by (auto simp: sorted_append)
  qed auto
qed

lemma filter_none: "(\<forall>x\<in>set xs. \<not> P x) \<Longrightarrow> filter P xs = []"
  by simp

lemma insert_dispatch_order:
  fixes ys :: "'h iq_handler_entry list" and key :: "'h iq_handler_entry"
  defines "xs \<equiv> dispatch_order ys"
  defines "n \<equiv> length xs - length (takeWhile (\<lambda>h. h_priority h < h_priority key) (rev xs))"
  shows "take n xs @ key # drop n xs = dispatch_order (ys @ [key])"
proof -
  let ?f = "\<lambda>h :: 'h iq_handler_entry. - h_priority h"
  let ?zs = "take n xs @ key # drop n xs"
  have srt: "sorted (map ?f xs)" by (simp add: xs_def dispatch_order_def)
  note pre = sift_down_sorted_prefix [OF srt, of key, folded n_def]
  have split: "xs = take n xs @ drop n xs" by simp
  have "mset (take n xs) + mset (drop n xs) = mset xs"
    by (metis mset_append append_take_drop_id)
  then have "mset ?zs = mset (ys @ [key])"
    by (simp add: xs_def dispatch_order_def)
  moreover have "filter (\<lambda>x. ?f k = ?f x) ?zs = filter (\<lambda>x. ?f k = ?f x) (ys @ [key])" for k
  proof -
    have st: "filter (\<lambda>x. ?f k = ?f x) xs = filter (\<lambda>x. ?f k = ?f x) ys"
      using sort_key_stable [of ?f "?f k" ys] by (simp add: xs_def dispatch_order_def eq_commute)
    have sp: "filter (\<lambda>x. ?f k = ?f x) xs =
        filter (\<lambda>x. ?f k = ?f x) (take n xs) @ filter (\<lambda>x. ?f k = ?f x) (drop n xs)"
      by (metis filter_append split)
    show ?thesis
    proof (cases "?f k = ?f key")
      case True
      then have "filter (\<lambda>x. ?f k = ?f x) (drop n xs) = []"
        using pre(2) by (intro filter_none) auto
      then show ?thesis using True st sp by simp
    qed (use st sp in simp)
  qed
  moreover have "sorted (map ?f ?zs)"
  proof -
    have "sorted (map ?f (take n xs))" "sorted (map ?f (drop n xs))"
      using srt by (metis sorted_wrt_take take_map, metis sorted_wrt_drop drop_map)
    then show ?thesis using pre by (fastforce simp: sorted_append)
  qed
  ultimately show ?thesis
    unfolding dispatch_order_def by (intro properties_for_sort_key [symmetric]) auto
qed

lemma insertion_pass_spec:
  assumes "i < length hs" and "ys = take i hs"
  shows "insertion_pass i (dispatch_order ys @ drop i hs) =
    dispatch_order (take (Suc i) hs) @ drop (Suc i) hs"
proof -
  have len: "length (dispatch_order ys) = i"
    using assms by (simp add: dispatch_order_def)
  have dr: "drop i hs = hs ! i # drop (Suc i) hs"
    using assms(1) by (rule Cons_nth_drop_Suc [symmetric])
  have key: "(dispatch_order ys @ drop i hs) ! i = hs ! i"
    using len assms(1) by (simp add: nth_append)
  have "insertion_pass i (dispatch_order ys @ drop i hs) =
      sift_down (dispatch_order ys @ hs ! i # drop (Suc i) hs) (hs ! i) (length (dispatch_order ys))"
    unfolding insertion_pass_def key len by (simp only: dr)
  also have "\<dots> = dispatch_order (ys @ [hs ! i]) @ drop (Suc i) hs"
    unfolding sift_down_spec Let_def insert_dispatch_order [symmetric] by simp
  also have "ys @ [hs ! i] = take (Suc i) hs"
    using assms by (simp add: take_Suc_conv_app_nth)
  finally show ?thesis .
qed

lemma insertion_sort_prefix:
  "0 < i \<Longrightarrow> i \<le> length hs \<Longrightarrow>
     fold insertion_pass [1..<i] hs = dispatch_order (take i hs) @ drop i hs"
proof (induction i)
  case (Suc i)
  show ?case
  proof (cases "i = 0")
    case True
    with Suc.prems obtain h t where "hs = h # t" by (cases hs) auto
    with True show ?thesis by (simp add: dispatch_order_def)
  next
    case False
    then have "fold insertion_pass [1..<i] hs = dispatch_order (take i hs) @ drop i hs"
      using Suc by simp
    moreover have "[1..<Suc i] = [1..<i] @ [i]" using False by simp
    ultimately show ?thesis
      using Suc.prems insertion_pass_spec [of i hs] by simp
  qed
qed simp

lemma insertion_sort_correct:
  "fold insertion_pass [1..<length hs] hs = dispatch_order hs"
  \<comment> \<open>the array sort is the stable sort by descending priority\<close>
proof (cases hs)
  case Nil
  then show ?thesis by (simp add: dispatch_order_def)
next
  case (Cons h t)
  then show ?thesis using insertion_sort_prefix [of "length hs" hs] by simp
qed

definition registry_inv :: "'h iq_registry \<Rightarrow> bool" where
  "registry_inv r \<longleftrightarrow> length (handlers r) \<le> MAX_HANDLERS \<and>
     (\<forall>h\<in>set (handlers r). h_ns h \<noteq> None \<and> h_handler h \<noteq> None) \<and>
     (is_sorted r \<longrightarrow> handlers r = dispatch_order (handlers r))"

lemma dispatch_order_idem: "dispatch_order (dispatch_order hs) = dispatch_order hs"
  by (simp add: dispatch_order_def sort_key_id_if_sorted)

lemma set_dispatch_order [simp]: "set (dispatch_order hs) = set hs"
  by (simp add: dispatch_order_def)

lemma length_dispatch_order [simp]: "length (dispatch_order hs) = length hs"
  by (simp add: dispatch_order_def)

lemma sort_handlers_eq:
  "registry_inv r \<Longrightarrow> sort_handlers r = r\<lparr>handlers := dispatch_order (handlers r), is_sorted := True\<rparr>"
  unfolding sort_handlers_def insertion_sort_correct registry_inv_def by auto

lemma registry_inv_ops:
  "registry_inv (iq_registry0 :: 'h iq_registry)"
  "registry_inv r \<Longrightarrow> registry_inv (snd (iq_handler_register e r))"
  "registry_inv r \<Longrightarrow> registry_inv (sort_handlers r)"
  "registry_inv r \<Longrightarrow> registry_inv (iq_handler_unregister e r)"
  "registry_inv (iq_dispatch_shutdown r)"
proof -
  show "registry_inv (iq_registry0 :: 'h iq_registry)" "registry_inv (iq_dispatch_shutdown r)"
    by (simp_all add: registry_inv_def iq_registry0_def iq_dispatch_shutdown_def dispatch_order_def)
  show "registry_inv r \<Longrightarrow> registry_inv (snd (iq_handler_register e r))"
    by (auto simp: registry_inv_def iq_handler_register_def split: option.splits)
  show "registry_inv r \<Longrightarrow> registry_inv (sort_handlers r)"
    by (simp add: sort_handlers_eq) (simp add: registry_inv_def dispatch_order_idem)
  show "registry_inv r \<Longrightarrow> registry_inv (iq_handler_unregister e r)"
    by (auto simp: registry_inv_def iq_handler_unregister_def
        split: option.splits dest: in_set_takeD in_set_dropD)
qed

lemma registry_inv_register_all:
  "registry_inv r \<Longrightarrow> registry_inv (snd (iq_handler_register_all es r))"
proof (induction es r rule: iq_handler_register_all.induct)
  case (2 e es r)
  then show ?case using registry_inv_ops(2) [of r "Some e"]
    by (auto split: prod.splits)
qed simp

subsection \<open>Type matching: lemmas\<close>

text \<open>Reference: the list of \<^verbatim>\<open>|\<close>-separated alternatives.\<close>

fun split_on :: "char \<Rightarrow> cstr \<Rightarrow> cstr list" where
  "split_on c [] = [[]]"
| "split_on c (x # xs) =
     (if x = c then [] # split_on c xs
      else (x # hd (split_on c xs)) # tl (split_on c xs))"

lemma split_on_unfold:
  "split_on c p = before c p #
     (case strchr p c of None \<Rightarrow> [] | Some r \<Rightarrow> split_on c (tl r))"
  by (induction p) (auto simp: before_def strchr_def)

lemma type_scan_eq: "t \<noteq> [] \<Longrightarrow> type_scan p t \<longleftrightarrow> t \<in> set (split_on (CHR ''|'') p)"
proof (induction p t rule: type_scan.induct)
  case (1 p t)
  show ?case
  proof (cases "strchr p (CHR ''|'')")
    case None
    with 1(2) show ?thesis
      by (subst type_scan.simps, subst split_on_unfold) (auto simp: before_def)
  next
    case (Some r)
    then have "p \<noteq> []" by (auto simp: strchr_def)
    with 1 Some show ?thesis
      by (subst type_scan.simps, subst split_on_unfold) auto
  qed
qed

subsection \<open>What dispatch preserves\<close>

text \<open>The contract of a set of handlers: a state property every handler keeps, and that
  only depends on what an outgoing write leaves alone.\<close>

locale handlers_keep =
  fixes call :: "('h, 's) iq_call" and E :: env and I :: "server \<Rightarrow> bool"
  assumes call_keeps: "I s \<Longrightarrow> I (snd (call h st child iq_id s))"
    and write_keeps: "I s \<Longrightarrow> I (snd (iq_flush E buf s))"
begin

lemma send_error_keeps: "I s \<Longrightarrow> I (send_error_iq E iq_id ty cond s)"
  by (simp add: send_error_iq_def write_keeps split: prod.splits)

lemma try_handlers_keeps: "I s \<Longrightarrow> I (try_handlers E call ns ty st child iq_id hs s)"
proof (induction hs arbitrary: s)
  case (Cons h hs)
  have "I (snd (call (the (h_handler h)) st child iq_id s))"
    using Cons.prems by (rule call_keeps)
  then show ?case using Cons by (auto split: prod.splits)
qed (simp add: send_error_keeps)

lemma dispatch_keeps: "I s \<Longrightarrow> I (snd (iq_dispatch E L call st r s))"
  by (auto simp: iq_dispatch_def Let_def send_error_keeps try_handlers_keeps split: option.splits)

end

lemma send_error_iq_frame [simp]:
  "ctx (send_error_iq E i t c s) = ctx s"
  "g_sessions (send_error_iq E i t c s) = g_sessions s"
  "db (send_error_iq E i t c s) = db s"
  by (simp_all add: send_error_iq_def split: prod.splits)

text \<open>Handlers that decline leave the rest of the chain to decide.\<close>

definition declines :: "('h, 's) iq_call \<Rightarrow> 's \<Rightarrow> 's \<Rightarrow> cstr option \<Rightarrow> server \<Rightarrow> 'h iq_handler_entry \<Rightarrow> bool"
where
  "declines call st child iq_id s h \<longleftrightarrow> call (the (h_handler h)) st child iq_id s = (IQ_NOT_MINE, s)"

lemma try_handlers_skip:
  assumes "\<forall>h\<in>set hs. handler_matches h ns ty \<longrightarrow> declines call st child iq_id s h"
  shows "try_handlers E call ns ty st child iq_id (hs @ hs') s =
    try_handlers E call ns ty st child iq_id hs' s"
  using assms by (induction hs) (auto simp: declines_def)

subsection \<open>Properties\<close>

text \<open>C22: the in-place insertion sort of the registry is the stable sort by descending
  priority: handlers of equal priority keep their order of registration.\<close>

theorem sort_is_stable_priority_sort:
  "handlers (sort_handlers (r\<lparr>is_sorted := False\<rparr>)) = sort_key (\<lambda>h. - h_priority h) (handlers r)"
  using insertion_sort_correct [of "handlers r"] by (simp add: sort_handlers_def dispatch_order_def)

text \<open>C23: every operation of the registry keeps it well-formed: at most 64 entries, each with
  a namespace and a handler, and in dispatch order whenever it is marked as sorted.\<close>

theorem registry_stays_well_formed:
  assumes "registry_inv r"
  shows "registry_inv (snd (iq_handler_register e r)) \<and> registry_inv (iq_handler_unregister e r) \<and>
    registry_inv (snd (iq_handler_register_all es r)) \<and> registry_inv (sort_handlers r) \<and>
    registry_inv (fst (iq_dispatch E L call st r s)) \<and> registry_inv (iq_dispatch_shutdown r)"
  using assms registry_inv_ops(2-5) [of r] registry_inv_register_all [of r es]
  by (auto simp: iq_dispatch_def Let_def split: option.splits)

theorem registry_stays_well_formed_witness:
  "registry_inv (snd (iq_handler_register (Some \<lparr> h_ns = Some ''a'', h_type = None,
     h_handler = Some (), h_priority = 1 \<rparr>) iq_registry0))"
  by (rule registry_stays_well_formed [OF registry_inv_ops(1), THEN conjunct1])

text \<open>A handler registered with a list of types separated by vertical bars matches an IQ
  exactly when its namespace is the handler's and its type is one of the list.\<close>

theorem handler_matches_iff:
  assumes "type \<noteq> []"
  shows "handler_matches \<lparr> h_ns = Some ns', h_type = Some ts, h_handler = f, h_priority = p \<rparr> ns type \<longleftrightarrow>
    ns' = ns \<and> type \<in> set (split_on (CHR ''|'') ts)"
  using type_scan_eq [OF assms] by (simp add: handler_matches_def)

theorem handler_matches_iff_witness:
  "handler_matches \<lparr> h_ns = Some ''n'', h_type = Some ''get|set'', h_handler = Some (), h_priority = 0 \<rparr>
     ''n'' ''set''"
  using handler_matches_iff [of "''set''" "''n''" "''get|set''" "Some ()" 0 "''n''"] by simp

text \<open>C24: a request is answered by the first matching handler, in dispatch order, that does
  not decline it; its effect is that handler's effect alone.\<close>

theorem dispatch_first_answer:
  assumes "registry_inv r" "dispatch_order (handlers r) = hs @ h # hs'"
    and "get_attribute L st ''type'' = Some ty" "ty = ''get'' \<or> ty = ''set''"
    and "get_first_element_child L st = Some child" "get_ns L child = Some ns"
    and "\<forall>x\<in>set hs. handler_matches x ns ty \<longrightarrow> declines call st child (get_attribute L st ''id'') s x"
    and "handler_matches h ns ty"
    and "fst (call (the (h_handler h)) st child (get_attribute L st ''id'') s) \<in> {IQ_HANDLED, IQ_ERROR}"
  shows "snd (iq_dispatch E L call st r s) =
    snd (call (the (h_handler h)) st child (get_attribute L st ''id'') s)"
proof -
  have "try_handlers E call ns ty st child (get_attribute L st ''id'') (h # hs') s =
      snd (call (the (h_handler h)) st child (get_attribute L st ''id'') s)"
    using assms(8,9) by (auto split: prod.splits)
  then show ?thesis
    using assms(3-6) try_handlers_skip [OF assms(7), of E "h # hs'"]
    by (auto simp: iq_dispatch_def Let_def sort_handlers_eq [OF assms(1)] assms(2))
qed

definition example_iq :: xml where
  "example_iq = Elem ''iq'' ''jabber:client'' [(''type'', ''get''), (''id'', ''1'')]
     [Elem ''query'' ''n'' [] []]"

definition example_entry :: "nat \<Rightarrow> int \<Rightarrow> nat iq_handler_entry" where
  "example_entry f p = \<lparr> h_ns = Some ''n'', h_type = Some ''get'', h_handler = Some f, h_priority = p \<rparr>"

text \<open>A low-priority handler registered before a high-priority one: the latter answers.\<close>

theorem dispatch_first_answer_witness:
  "snd (iq_dispatch env0 xml_strophe (\<lambda>f st child i s. (IQ_HANDLED, s\<lparr>sent := [(f, ''ok'')]\<rparr>)) example_iq
     \<lparr> handlers = [example_entry 1 10, example_entry 2 20], is_sorted = False \<rparr> server0) =
   server0\<lparr>sent := [(2, ''ok'')]\<rparr>"
proof -
  have "dispatch_order [example_entry 1 10, example_entry 2 20] =
      [] @ example_entry 2 20 # [example_entry 1 10]"
    by (simp add: dispatch_order_def example_entry_def)
  then show ?thesis
    using dispatch_first_answer [of "\<lparr> handlers = [example_entry 1 10, example_entry 2 20], is_sorted = False \<rparr>"
        "[]" "example_entry 2 20" "[example_entry 1 10]" xml_strophe example_iq "''get''"
        "Elem ''query'' ''n'' [] []" "''n''" "\<lambda>f st child i s. (IQ_HANDLED, s\<lparr>sent := [(f, ''ok'')]\<rparr>)" server0 env0]
    by (simp add: registry_inv_def example_entry_def example_iq_def get_first_element_child_def
        handler_matches_def type_scan_eq)
qed

text \<open>A request no handler matches is answered with the error
  \<open>feature-not-implemented\<close> carrying the request's id, and nothing else happens.\<close>

theorem dispatch_unhandled:
  assumes "registry_inv r" "get_attribute L st ''type'' = Some ty" "ty = ''get'' \<or> ty = ''set''"
    and "get_first_element_child L st = Some child" "get_ns L child = Some ns"
    and "\<forall>h\<in>set (handlers r). \<not> handler_matches h ns ty"
    and "length (iq_error_xml (get_attribute L st ''id'') ''cancel'' ''feature-not-implemented'') < IQ_BUF_SIZE"
  shows "snd (iq_dispatch E L call st r s) = s\<lparr>sent := sent s @
    [(write_ud (ctx s), iq_error_xml (get_attribute L st ''id'') ''cancel'' ''feature-not-implemented'')]\<rparr>"
proof -
  have m: "\<forall>h\<in>set (dispatch_order (handlers r)). handler_matches h ns ty \<longrightarrow>
      declines call st child (get_attribute L st ''id'') s h" using assms(6) by simp
  have "snd (iq_dispatch E L call st r s) =
      send_error_iq E (get_attribute L st ''id'') ''cancel'' ''feature-not-implemented'' s"
    using assms(2-5) try_handlers_skip [OF m, of E "[]"]
    by (auto simp: iq_dispatch_def Let_def sort_handlers_eq [OF assms(1)])
  then show ?thesis
    using assms(7) by (simp add: send_error_iq_def iq_append_def iq_flush_def write_fn_def)
qed

theorem dispatch_unhandled_witness:
  "sent (snd (iq_dispatch env0 xml_strophe (\<lambda>f st child i s. (IQ_HANDLED, s)) example_iq
     (iq_registry0 :: unit iq_registry) server0)) =
   [(0, iq_error_xml (Some ''1'') ''cancel'' ''feature-not-implemented'')]"
  using dispatch_unhandled [of "iq_registry0 :: unit iq_registry" xml_strophe example_iq "''get''"
      "Elem ''query'' ''n'' [] []" "''n''" env0 "\<lambda>f st child i s. (IQ_HANDLED, s)" server0]
  by (simp add: registry_inv_def dispatch_order_def iq_registry0_def example_iq_def get_first_element_child_def example_defs
      iq_error_xml_def id_attr_def attr_def NS_STANZAS_def)

end
