(* ===== verification/Blocking.thy ===== *)
theory Blocking
  imports Session_Table IQ_Dispatch
begin

text \<open>
  The block list (\<^verbatim>\<open>storage/db_blocklist.c\<close>, \<^verbatim>\<open>xep-0186-blocking.c\<close>) and the two
  smallest IQ handlers: ping (\<^verbatim>\<open>xep-0199-ping.c\<close>) and the carbons switch
  (\<^verbatim>\<open>xep-0280-carbons.c\<close>). The table has the primary key \<open>(owner, blocked)\<close>.
\<close>

subsection \<open>Storage\<close>

definition SQL_BLOCK_CHECK :: cstr where
  "SQL_BLOCK_CHECK = ''SELECT 1 FROM blocklist WHERE owner_jid = ? AND blocked_jid = ?''"
definition SQL_BLOCK_ADD :: cstr where
  "SQL_BLOCK_ADD = ''INSERT OR IGNORE INTO blocklist (owner_jid, blocked_jid) VALUES (?, ?)''"
definition SQL_BLOCK_REMOVE :: cstr where
  "SQL_BLOCK_REMOVE = ''DELETE FROM blocklist WHERE owner_jid = ? AND blocked_jid = ?''"
definition SQL_BLOCK_LIST :: cstr where
  "SQL_BLOCK_LIST = ''SELECT blocked_jid FROM blocklist WHERE owner_jid = ?''"

text \<open>A statement runs when the database opens, the SQL prepares and the step succeeds.\<close>

definition sql_runs :: "env \<Rightarrow> cstr \<Rightarrow> bool" where
  "sql_runs E sql \<longleftrightarrow> db_open_ok E \<and> prepare_ok E sql \<and> step_ok E sql"

definition storage_blocklist_check :: "env \<Rightarrow> cstr \<Rightarrow> cstr \<Rightarrow> database \<Rightarrow> int" where
  "storage_blocklist_check E owner blocked d =
     (if \<not> db_open_ok E then - 1
      else if \<not> prepare_ok E SQL_BLOCK_CHECK then - 1
      else if \<not> step_ok E SQL_BLOCK_CHECK then - 1
      else if (owner, blocked) \<in> set (blocklist d) then 1 else 0)"

definition storage_blocklist_add :: "env \<Rightarrow> cstr \<Rightarrow> cstr \<Rightarrow> database \<Rightarrow> int \<times> database" where
  "storage_blocklist_add E owner blocked d =
     (if \<not> db_open_ok E \<or> \<not> prepare_ok E SQL_BLOCK_ADD \<or> \<not> step_ok E SQL_BLOCK_ADD then (- 1, d)
      else if (owner, blocked) \<in> set (blocklist d) then (0, d)
      else (0, d\<lparr>blocklist := blocklist d @ [(owner, blocked)]\<rparr>))"

definition storage_blocklist_remove :: "env \<Rightarrow> cstr \<Rightarrow> cstr \<Rightarrow> database \<Rightarrow> int \<times> database" where
  "storage_blocklist_remove E owner blocked d =
     (if \<not> db_open_ok E \<or> \<not> prepare_ok E SQL_BLOCK_REMOVE \<or> \<not> step_ok E SQL_BLOCK_REMOVE
      then (- 1, d)
      else (0, d\<lparr>blocklist := filter (\<lambda>p. p \<noteq> (owner, blocked)) (blocklist d)\<rparr>))"

text \<open>The rows the callback is run on; it stops at the first row it rejects.\<close>

definition storage_blocklist_list :: "env \<Rightarrow> cstr \<Rightarrow> database \<Rightarrow> int \<times> cstr list" where
  "storage_blocklist_list E owner d =
     (if \<not> db_open_ok E \<or> \<not> prepare_ok E SQL_BLOCK_LIST \<or> \<not> step_ok E SQL_BLOCK_LIST then (- 1, [])
      else (0, map snd (filter (\<lambda>p. fst p = owner) (blocklist d))))"

subsection \<open>Replies\<close>

definition iq_result_xml :: "cstr option \<Rightarrow> cstr" where
  "iq_result_xml iq_id = ''<iq'' @ attr ''type'' ''result'' @ id_attr iq_id @ ''/>''"

definition send_iq_result :: "env \<Rightarrow> nat \<Rightarrow> cstr option \<Rightarrow> server \<Rightarrow> int \<times> server" where
  "send_iq_result E cap iq_id s =
     (let r = iq_append cap [] (iq_result_xml iq_id) in
      if fst r = 0 then (0, snd (iq_flush E (snd r) s)) else (- 1, s))"

definition send_blocklist_error :: "env \<Rightarrow> cstr option \<Rightarrow> cstr \<Rightarrow> cstr \<Rightarrow> server \<Rightarrow> server" where
  "send_blocklist_error = send_error_iq"

definition send_blocklist_result :: "env \<Rightarrow> cstr option \<Rightarrow> server \<Rightarrow> server" where
  "send_blocklist_result E iq_id s = snd (send_iq_result E 256 iq_id s)"

subsection \<open>Handlers\<close>

definition NS_PRIVACY :: cstr where
  "NS_PRIVACY = ''jabber:iq:privacy''"

definition block_item_xml :: "cstr \<Rightarrow> cstr" where
  "block_item_xml j = ''<item'' @ attr ''type'' ''jid'' @ attr ''action'' ''deny'' @ attr ''value'' j @ ''/>''"

text \<open>\<^verbatim>\<open>blocklist_iter_cb\<close> over the rows: buffer and error flag.\<close>

fun append_block_items :: "cstr list \<Rightarrow> cstr \<Rightarrow> bool \<times> cstr" where
  "append_block_items [] buf = (False, buf)"
| "append_block_items (j # js) buf =
     (let r = iq_append IQ_BUF_SIZE buf (block_item_xml j) in
      if fst r \<noteq> 0 then (True, snd r) else append_block_items js (snd r))"

text \<open>Without an \<^verbatim>\<open>id\<close> the arguments of the format are shifted by one: the namespace
  is the empty string.\<close>

definition blocklist_head :: "cstr option \<Rightarrow> cstr" where
  "blocklist_head iq_id =
     (case iq_id of
        Some i \<Rightarrow> ''<iq'' @ attr ''type'' ''result'' @ attr ''id'' i @ ''><query'' @ attr ''xmlns'' NS_PRIVACY @ ''>''
      | None \<Rightarrow> ''<iq'' @ attr ''type'' ''result'' @ ''><query'' @ attr ''xmlns'' [] @ ''>'')"

definition xep0186_handle_blocklist_get :: "env \<Rightarrow> cstr option \<Rightarrow> server \<Rightarrow> int \<times> server" where
  "xep0186_handle_blocklist_get E iq_id s =
     (let owner = bare (bound_jid (ctx s));
          h = iq_append IQ_BUF_SIZE [] (blocklist_head iq_id)
      in if fst h \<noteq> 0 then (IQ_ERROR, s)
         else
           (let l = storage_blocklist_list E owner (db s);
                items = append_block_items (snd l) (snd h)
            in if fst l \<noteq> 0 \<or> fst items then
                 (IQ_ERROR, snd (iq_flush E (snd (iq_append IQ_BUF_SIZE []
                    (iq_error_xml iq_id ''cancel'' ''internal-server-error''))) s))
               else
                 (let e = iq_append IQ_BUF_SIZE (snd items) ''</query></iq>'' in
                  if fst e \<noteq> 0 then (IQ_ERROR, s)
                  else (IQ_HANDLED, snd (iq_flush E (snd e) s)))))"

text \<open>The loop over \<^verbatim>\<open><item jid='...'/>\<close> children shared by block and unblock: a storage
  operation per item, the number of items handled, or the first failure.\<close>

fun block_items :: "'s strophe \<Rightarrow> (cstr \<Rightarrow> database \<Rightarrow> int \<times> database) \<Rightarrow> 's list \<Rightarrow> nat \<Rightarrow>
    database \<Rightarrow> nat option \<times> database" where
  "block_items L op [] n d = (Some n, d)"
| "block_items L op (c # cs) n d =
     (case get_attribute L c ''jid'' of
        None \<Rightarrow> block_items L op cs n d
      | Some j \<Rightarrow>
          if has_name L c ''item'' \<and> j \<noteq> [] then
            (let r = op j d in
             if fst r \<noteq> 0 then (None, snd r) else block_items L op cs (Suc n) (snd r))
          else block_items L op cs n d)"

definition finish_block :: "env \<Rightarrow> cstr option \<Rightarrow> nat option \<times> database \<Rightarrow> server \<Rightarrow> int \<times> server" where
  "finish_block E iq_id r s =
     (let s1 = s\<lparr>db := snd r\<rparr> in
      case fst r of
        None \<Rightarrow> (IQ_ERROR, send_blocklist_error E iq_id ''cancel'' ''internal-server-error'' s1)
      | Some n \<Rightarrow>
          if n = 0 then (IQ_ERROR, send_blocklist_error E iq_id ''modify'' ''bad-request'' s1)
          else (IQ_HANDLED, send_blocklist_result E iq_id s1))"

definition xep0186_handle_block :: "env \<Rightarrow> 's strophe \<Rightarrow> 's \<Rightarrow> cstr option \<Rightarrow> server \<Rightarrow> int \<times> server" where
  "xep0186_handle_block E L child iq_id s =
     (let owner = bare (bound_jid (ctx s)) in
      case get_child_by_name L child ''block'' of
        None \<Rightarrow> (IQ_NOT_MINE, s)
      | Some el \<Rightarrow>
          finish_block E iq_id
            (block_items L (storage_blocklist_add E owner) (get_children L el) 0 (db s)) s)"

definition xep0186_handle_unblock :: "env \<Rightarrow> 's strophe \<Rightarrow> 's \<Rightarrow> cstr option \<Rightarrow> server \<Rightarrow> int \<times> server" where
  "xep0186_handle_unblock E L child iq_id s =
     (let owner = bare (bound_jid (ctx s)) in
      case get_child_by_name L child ''unblock'' of
        None \<Rightarrow> (IQ_NOT_MINE, s)
      | Some el \<Rightarrow>
          finish_block E iq_id
            (block_items L (storage_blocklist_remove E owner) (get_children L el) 0 (db s)) s)"

definition xep0199_handle_ping_iq :: "env \<Rightarrow> cstr option \<Rightarrow> server \<Rightarrow> int \<times> server" where
  "xep0199_handle_ping_iq E iq_id s =
     (let r = send_iq_result E 256 iq_id s in
      if fst r = 0 then (IQ_HANDLED, snd r) else (IQ_ERROR, s))"

definition xep0280_handle_carbons_iq :: "env \<Rightarrow> 's strophe \<Rightarrow> 's \<Rightarrow> cstr option \<Rightarrow> server \<Rightarrow> int \<times> server" where
  "xep0280_handle_carbons_iq E L st iq_id s =
     (let s1 =
        (case find (\<lambda>c. has_name L c ''enable'' \<or> has_name L c ''disable'') (get_children L st) of
           None \<Rightarrow> s
         | Some c \<Rightarrow>
             (let enable = has_name L c ''enable'' in
              xmpp_session_table_update_carbons (bound_jid (ctx s)) enable
                (upd (\<lambda>x. x\<lparr>carbons_enabled := enable\<rparr>) s)))
      in case iq_id of
           None \<Rightarrow> (IQ_HANDLED, s1)
         | Some i \<Rightarrow> (IQ_HANDLED, snd (send_iq_result E 128 (Some i) s1)))"

subsection \<open>Lemmas\<close>

lemma send_iq_result_frame [simp]:
  "ctx (snd (send_iq_result E cap i s)) = ctx s"
  "g_sessions (snd (send_iq_result E cap i s)) = g_sessions s"
  "db (snd (send_iq_result E cap i s)) = db s"
  by (simp_all add: send_iq_result_def Let_def)

lemma send_iq_result_sent:
  "length (iq_result_xml i) < cap \<Longrightarrow>
     send_iq_result E cap i s = (0, snd (iq_flush E (iq_result_xml i) s))"
  by (simp add: send_iq_result_def iq_append_def)

lemma finish_block_frame [simp]:
  "ctx (snd (finish_block E i r s)) = ctx s"
  "g_sessions (snd (finish_block E i r s)) = g_sessions s"
  "db (snd (finish_block E i r s)) = snd r"
  by (simp_all add: finish_block_def Let_def send_blocklist_error_def send_blocklist_result_def
      split: option.splits)

text \<open>The JIDs a block or unblock request names.\<close>

definition item_jids :: "'s strophe \<Rightarrow> 's list \<Rightarrow> cstr list" where
  "item_jids L cs = List.map_filter
     (\<lambda>c. if has_name L c ''item'' \<and> get_attribute L c ''jid'' \<noteq> Some [] then get_attribute L c ''jid'' else None) cs"

lemma item_jids_Cons:
  "item_jids L (c # cs) =
     (case get_attribute L c ''jid'' of None \<Rightarrow> item_jids L cs
      | Some j \<Rightarrow> if has_name L c ''item'' \<and> j \<noteq> [] then j # item_jids L cs else item_jids L cs)"
  by (auto simp: item_jids_def List.map_filter_def split: option.splits)

lemma item_jids_Nil [simp]: "item_jids L [] = []"
  by (simp add: item_jids_def List.map_filter_def)

lemma block_items_ok:
  assumes "\<And>j d. fst (op j d) = 0"
  shows "block_items L op cs n d =
    (Some (n + length (item_jids L cs)), fold (\<lambda>j d. snd (op j d)) (item_jids L cs) d)"
proof (induction cs arbitrary: n d)
  case (Cons c cs)
  then show ?case using assms by (auto simp: item_jids_Cons Let_def split: option.splits)
qed simp

lemma fold_block_add:
  "sql_runs E SQL_BLOCK_ADD \<Longrightarrow>
     set (blocklist (fold (\<lambda>j d. snd (storage_blocklist_add E owner j d)) js d)) =
       set (blocklist d) \<union> Pair owner ` set js"
  by (induction js arbitrary: d) (auto simp: storage_blocklist_add_def sql_runs_def)

lemma fold_block_remove:
  "sql_runs E SQL_BLOCK_REMOVE \<Longrightarrow>
     set (blocklist (fold (\<lambda>j d. snd (storage_blocklist_remove E owner j d)) js d)) =
       set (blocklist d) - Pair owner ` set js"
  by (induction js arbitrary: d) (auto simp: storage_blocklist_remove_def sql_runs_def)

lemma blocklist_add_distinct:
  "distinct (blocklist d) \<Longrightarrow> distinct (blocklist (snd (storage_blocklist_add E owner j d)))"
  by (auto simp: storage_blocklist_add_def)

subsection \<open>Properties\<close>

text \<open>A block request with at least one named item adds exactly the named JIDs to the
  owner's block list, whatever was there before, and reports success.\<close>

theorem block_adds_items:
  assumes "sql_runs E SQL_BLOCK_ADD" "get_child_by_name L child ''block'' = Some el"
    and "item_jids L (get_children L el) \<noteq> []"
  shows "fst (xep0186_handle_block E L child iq_id s) = IQ_HANDLED \<and>
    set (blocklist (db (snd (xep0186_handle_block E L child iq_id s)))) =
      set (blocklist (db s)) \<union> Pair (bare (bound_jid (ctx s))) ` set (item_jids L (get_children L el))"
proof -
  let ?op = "storage_blocklist_add E (bare (bound_jid (ctx s)))"
  have "fst (?op j d) = 0" for j d
    using assms(1) by (auto simp: storage_blocklist_add_def sql_runs_def)
  note items = block_items_ok [of ?op L "get_children L el" 0 "db s", OF this]
  show ?thesis
    using assms(3) items fold_block_add [OF assms(1)]
    by (simp add: xep0186_handle_block_def assms(2) Let_def) (simp add: finish_block_def Let_def)
qed

definition block_request :: "cstr \<Rightarrow> xml" where
  "block_request n = Elem ''query'' NS_PRIVACY [] [Elem n NS_PRIVACY []
     [Elem ''item'' NS_PRIVACY [(''jid'', ''c@d'')] []]]"

definition alice :: server where
  "alice = server0\<lparr>ctx := session0\<lparr>bound_jid := ''a@d/r'', domain := ''d''\<rparr>\<rparr>"

lemma block_request_simps:
  "get_child_by_name xml_strophe (block_request n) n = Some (Elem n NS_PRIVACY []
     [Elem ''item'' NS_PRIVACY [(''jid'', ''c@d'')] []])"
  "item_jids xml_strophe [Elem ''item'' NS_PRIVACY [(''jid'', ''c@d'')] []] = [''c@d'']"
  by (simp_all add: block_request_def item_jids_Cons has_name_def)

lemma alice_bare: "bare (bound_jid (ctx alice)) = ''a@d''"
  by (simp add: alice_def xmpp_session_bare_jid_def before_def Let_def)

theorem block_adds_items_witness:
  "set (blocklist (db (snd (xep0186_handle_block env0 xml_strophe (block_request ''block'') None alice)))) =
     {(''a@d'', ''c@d'')}"
proof -
  have "sql_runs env0 SQL_BLOCK_ADD" by (simp add: sql_runs_def env0_def)
  note block_adds_items [OF this block_request_simps(1), of None alice, unfolded alice_bare]
  then have "set (blocklist (db (snd (xep0186_handle_block env0 xml_strophe (block_request ''block'')
      None alice)))) = set (blocklist (db alice)) \<union> {(''a@d'', ''c@d'')}"
    using block_request_simps(2) by simp
  then show ?thesis by (simp add: alice_def example_defs)
qed

text \<open>An unblock request removes exactly the named JIDs from the owner's block list and
  leaves the entries of every other owner alone.\<close>

theorem unblock_removes_items:
  assumes "sql_runs E SQL_BLOCK_REMOVE" "get_child_by_name L child ''unblock'' = Some el"
    and "item_jids L (get_children L el) \<noteq> []"
  shows "fst (xep0186_handle_unblock E L child iq_id s) = IQ_HANDLED \<and>
    set (blocklist (db (snd (xep0186_handle_unblock E L child iq_id s)))) =
      set (blocklist (db s)) - Pair (bare (bound_jid (ctx s))) ` set (item_jids L (get_children L el))"
proof -
  let ?op = "storage_blocklist_remove E (bare (bound_jid (ctx s)))"
  have "fst (?op j d) = 0" for j d
    using assms(1) by (auto simp: storage_blocklist_remove_def sql_runs_def)
  note items = block_items_ok [of ?op L "get_children L el" 0 "db s", OF this]
  show ?thesis
    using assms(3) items fold_block_remove [OF assms(1)]
    by (simp add: xep0186_handle_unblock_def assms(2) Let_def) (simp add: finish_block_def Let_def)
qed

theorem unblock_removes_items_witness:
  "set (blocklist (db (snd (xep0186_handle_unblock env0 xml_strophe (block_request ''unblock'') None
     (alice\<lparr>db := database0\<lparr>blocklist := [(''a@d'', ''c@d''), (''b@d'', ''c@d'')]\<rparr>\<rparr>))))) =
   {(''b@d'', ''c@d'')}"
proof -
  let ?s = "alice\<lparr>db := database0\<lparr>blocklist := [(''a@d'', ''c@d''), (''b@d'', ''c@d'')]\<rparr>\<rparr>"
  have "sql_runs env0 SQL_BLOCK_REMOVE" by (simp add: sql_runs_def env0_def)
  note unblock_removes_items [OF this block_request_simps(1), of None ?s]
  then have "set (blocklist (db (snd (xep0186_handle_unblock env0 xml_strophe (block_request ''unblock'')
      None ?s)))) = set (blocklist (db ?s)) - {(''a@d'', ''c@d'')}"
    using block_request_simps(2) alice_bare by simp
  then show ?thesis by auto
qed

end
