(* ===== verification/Storage_Roster.thy ===== *)
theory Storage_Roster
  imports Session_Table Blocking "HOL-Library.Char_ord" "HOL-Library.List_Lexorder"
begin

text \<open>
  The roster tables (\<^verbatim>\<open>storage/db_roster.c\<close>) and the roster version
  (\<^verbatim>\<open>xep-0059-roster-ver.c\<close>). The table \<^verbatim>\<open>roster\<close> has the primary key
  \<open>(owner, contact)\<close>, \<^verbatim>\<open>roster_groups\<close> the key \<open>(owner, contact, group)\<close>; foreign keys
  are not enabled on the connection, so deleting a roster row leaves its groups.
\<close>

subsection \<open>Statements\<close>

definition SQL_ROSTER_LIST :: cstr where
  "SQL_ROSTER_LIST = ''SELECT contact_jid, name, subscription, ask FROM roster WHERE owner_jid = ?''"
definition SQL_ROSTER_GET :: cstr where
  "SQL_ROSTER_GET = ''SELECT contact_jid, name, subscription, ask FROM roster WHERE owner_jid = ? AND contact_jid = ?''"
definition SQL_ROSTER_UPSERT :: cstr where
  "SQL_ROSTER_UPSERT = ''INSERT INTO roster (owner_jid, contact_jid, name, subscription, ask) VALUES (?, ?, ?, ?, ?) ON CONFLICT(owner_jid, contact_jid) DO UPDATE SET   name = excluded.name,   subscription = excluded.subscription,   ask = excluded.ask''"
definition SQL_GROUPS_DELETE :: cstr where
  "SQL_GROUPS_DELETE = ''DELETE FROM roster_groups WHERE owner_jid = ? AND contact_jid = ?''"
definition SQL_GROUPS_INSERT :: cstr where
  "SQL_GROUPS_INSERT = ''INSERT OR IGNORE INTO roster_groups (owner_jid, contact_jid, group_name) VALUES (?, ?, ?)''"
definition SQL_GROUPS_GET :: cstr where
  "SQL_GROUPS_GET = ''SELECT group_name FROM roster_groups WHERE owner_jid = ? AND contact_jid = ?''"
definition SQL_ROSTER_REMOVE :: cstr where
  "SQL_ROSTER_REMOVE = ''DELETE FROM roster WHERE owner_jid = ? AND contact_jid = ?''"
definition SQL_VER_ITEMS :: cstr where
  "SQL_VER_ITEMS = ''SELECT contact_jid, name, subscription FROM roster WHERE owner_jid = ? ORDER BY contact_jid ASC''"
definition SQL_VER_PUT :: cstr where
  "SQL_VER_PUT = ''INSERT OR REPLACE INTO roster_ver (owner_jid, ver) VALUES (?, ?)''"
definition SQL_VER_GET :: cstr where
  "SQL_VER_GET = ''SELECT ver FROM roster_ver WHERE owner_jid = ?''"

subsection \<open>Reading\<close>

abbreviation (input) ROSTER_JID_MAX :: nat where "ROSTER_JID_MAX \<equiv> 2048"
abbreviation (input) ROSTER_NAME_MAX :: nat where "ROSTER_NAME_MAX \<equiv> 1024"
abbreviation (input) MAX_GROUPS_STATIC :: nat where "MAX_GROUPS_STATIC \<equiv> 32"

record roster_item =
  contact_jid :: cstr
  name :: cstr
  subscription :: cstr
  ask :: int

definition roster_key :: "cstr \<Rightarrow> cstr \<Rightarrow> roster_row \<Rightarrow> bool" where
  "roster_key owner contact r \<longleftrightarrow> r_owner r = owner \<and> r_contact r = contact"

text \<open>The copy of a row into the fixed-size fields of \<^verbatim>\<open>storage_roster_item_t\<close>.\<close>

definition item_of_row :: "roster_row \<Rightarrow> roster_item" where
  "item_of_row r =
     \<lparr> contact_jid = take (ROSTER_JID_MAX - 1) (r_contact r),
       name = take (ROSTER_NAME_MAX - 1) (r_name r),
       subscription = take 7 (r_subscription r), ask = r_ask r \<rparr>"

definition storage_roster_get_groups :: "env \<Rightarrow> cstr \<Rightarrow> cstr \<Rightarrow> nat \<Rightarrow> database \<Rightarrow> int \<times> cstr list" where
  "storage_roster_get_groups E owner contact max_groups d =
     (if \<not> db_open_ok E \<or> \<not> prepare_ok E SQL_GROUPS_GET then (- 1, [])
      else if \<not> step_ok E SQL_GROUPS_GET then (0, [])
      else
        (let gs = [take 255 g. (ow, c, g) \<leftarrow> roster_groups d, ow = owner \<and> c = contact];
             out = take max_groups gs
         in (int (length out), out)))"

text \<open>The items and groups the callback is called on, and the result when it never stops.\<close>

definition storage_roster_list :: "env \<Rightarrow> cstr \<Rightarrow> database \<Rightarrow> int \<times> (roster_item \<times> cstr list) list" where
  "storage_roster_list E owner d =
     (if \<not> db_open_ok E \<or> \<not> prepare_ok E SQL_ROSTER_LIST then (- 1, [])
      else if \<not> step_ok E SQL_ROSTER_LIST then (- 1, [])
      else (0, map (\<lambda>r. let i = item_of_row r
                        in (i, snd (storage_roster_get_groups E owner (contact_jid i) MAX_GROUPS_STATIC d)))
                 (filter (\<lambda>r. r_owner r = owner) (roster d))))"

definition storage_roster_get :: "env \<Rightarrow> cstr \<Rightarrow> cstr \<Rightarrow> database \<Rightarrow> roster_item fetched" where
  "storage_roster_get E owner contact d =
     (if \<not> db_open_ok E \<or> \<not> prepare_ok E SQL_ROSTER_GET then Fetch_error
      else if \<not> step_ok E SQL_ROSTER_GET then Fetch_error
      else case find (roster_key owner contact) (roster d) of
          Some r \<Rightarrow> Found (item_of_row r)
        | None \<Rightarrow> Not_found)"

subsection \<open>The roster version\<close>

abbreviation (input) ROSTER_VER_BUF_INITIAL :: nat where "ROSTER_VER_BUF_INITIAL \<equiv> 4096"

text \<open>Appends in sequence, stopping at the first that does not fit: error flag and buffer.\<close>

fun append_all :: "nat \<Rightarrow> cstr list \<Rightarrow> cstr \<Rightarrow> bool \<times> cstr" where
  "append_all cap [] buf = (False, buf)"
| "append_all cap (p # ps) buf =
     (let r = iq_append cap buf p in
      if fst r \<noteq> 0 then (True, snd r) else append_all cap ps (snd r))"

definition roster_ver_append_item :: "cstr \<Rightarrow> cstr \<Rightarrow> cstr \<Rightarrow> cstr list \<Rightarrow> bool \<times> cstr \<Rightarrow> bool \<times> cstr" where
  "roster_ver_append_item contact nm sub groups ver =
     (if fst ver then ver
      else append_all ROSTER_VER_BUF_INITIAL
        ((if length (snd ver) > 0 then [''|''] else []) @ [contact, ''|'' @ sub] @
         (if nm \<noteq> [] then [''|'' @ nm] else []) @
         [('','' @ g). g \<leftarrow> groups, g \<noteq> []]) (snd ver))"

definition roster_ver_finalise :: "bool \<times> cstr \<Rightarrow> int" where
  "roster_ver_finalise ver =
     (if length (snd ver) \<ge> ROSTER_VER_BUF_INITIAL then - 1 else if fst ver then - 1 else 0)"

definition roster_ver_compute_sha256 :: "env \<Rightarrow> cstr \<Rightarrow> cstr option" where
  "roster_ver_compute_sha256 E data = map_option (\<lambda>h. concat (map show_hex2 h)) (md_digest E data)"

definition canonical_roster :: "env \<Rightarrow> cstr \<Rightarrow> database \<Rightarrow> bool \<times> cstr" where
  "canonical_roster E owner d =
     fold (\<lambda>r ver. if fst ver then ver
             else roster_ver_append_item (r_contact r) (r_name r) (r_subscription r)
               (snd (storage_roster_get_groups E owner (r_contact r) 32 d)) ver)
       (sort_key r_contact (filter (\<lambda>r. r_owner r = owner) (roster d))) (False, [])"

definition rebuild_and_store_ver :: "env \<Rightarrow> cstr \<Rightarrow> database \<Rightarrow> int \<times> database" where
  "rebuild_and_store_ver E owner d =
     (if \<not> prepare_ok E SQL_VER_ITEMS then (- 1, d)
      else if \<not> step_ok E SQL_VER_ITEMS then (- 1, d)
      else
        (let ver = canonical_roster E owner d in
         if roster_ver_finalise ver \<noteq> 0 then (- 1, d)
         else case roster_ver_compute_sha256 E (snd ver) of
             None \<Rightarrow> (- 1, d)
           | Some hex \<Rightarrow>
               if \<not> prepare_ok E SQL_VER_PUT then (- 1, d)
               else if \<not> step_ok E SQL_VER_PUT then (- 1, d)
               else (0, d\<lparr>roster_ver := (roster_ver d)(owner \<mapsto> hex)\<rparr>)))"

definition roster_ver_increment :: "env \<Rightarrow> cstr \<Rightarrow> database \<Rightarrow> int \<times> database" where
  "roster_ver_increment E owner d =
     (if \<not> db_open_ok E then (- 1, d) else rebuild_and_store_ver E owner d)"

definition roster_ver_get :: "env \<Rightarrow> cstr \<Rightarrow> database \<Rightarrow> cstr fetched" where
  "roster_ver_get E owner d =
     (if \<not> db_open_ok E \<or> \<not> prepare_ok E SQL_VER_GET then Fetch_error
      else if \<not> step_ok E SQL_VER_GET then Fetch_error
      else case roster_ver d owner of Some v \<Rightarrow> Found (take 64 v) | None \<Rightarrow> Not_found)"

definition roster_ver_peek :: "env \<Rightarrow> cstr \<Rightarrow> database \<Rightarrow> cstr fetched" where
  "roster_ver_peek = roster_ver_get"

subsection \<open>Writing\<close>

definition upsert_row :: "roster_row \<Rightarrow> roster_row list \<Rightarrow> roster_row list" where
  "upsert_row r rs =
     (case find_index (roster_key (r_owner r) (r_contact r)) rs of
        Some i \<Rightarrow> rs[i := r]
      | None \<Rightarrow> rs @ [r])"

definition row_of_item :: "cstr \<Rightarrow> roster_item \<Rightarrow> roster_row" where
  "row_of_item owner i =
     \<lparr> r_owner = owner, r_contact = contact_jid i, r_name = name i,
       r_subscription = (if subscription i = [] then ''none'' else subscription i), r_ask = ask i \<rparr>"

definition insert_group :: "cstr \<Rightarrow> cstr \<Rightarrow> cstr \<Rightarrow> database \<Rightarrow> database" where
  "insert_group owner contact g d =
     (if (owner, contact, g) \<in> set (roster_groups d) then d
      else d\<lparr>roster_groups := roster_groups d @ [(owner, contact, g)]\<rparr>)"

definition storage_roster_upsert :: "env \<Rightarrow> cstr \<Rightarrow> roster_item \<Rightarrow> cstr list \<Rightarrow> database \<Rightarrow> int \<times> database" where
  "storage_roster_upsert E owner item groups d =
     (if \<not> db_open_ok E \<or> \<not> prepare_ok E SQL_ROSTER_UPSERT then (- 1, d)
      else if \<not> step_ok E SQL_ROSTER_UPSERT then (- 1, d)
      else
        (let d1 = d\<lparr>roster := upsert_row (row_of_item owner item) (roster d)\<rparr> in
         if \<not> prepare_ok E SQL_GROUPS_DELETE \<or> \<not> step_ok E SQL_GROUPS_DELETE then (- 1, d1)
         else
           (let d2 = d1\<lparr>roster_groups := filter
                  (\<lambda>(ow, c, g). \<not> (ow = owner \<and> c = contact_jid item)) (roster_groups d1)\<rparr>;
                named = filter (\<lambda>g. g \<noteq> []) groups
            in if groups \<noteq> [] \<and> \<not> prepare_ok E SQL_GROUPS_INSERT then (- 1, d2)
               else if named \<noteq> [] \<and> \<not> step_ok E SQL_GROUPS_INSERT then (- 1, d2)
               else
                 (let d3 = fold (insert_group owner (contact_jid item)) named d2
                  in (0, snd (roster_ver_increment E owner d3))))))"

definition storage_roster_remove :: "env \<Rightarrow> cstr \<Rightarrow> cstr \<Rightarrow> database \<Rightarrow> int \<times> database" where
  "storage_roster_remove E owner contact d =
     (if \<not> db_open_ok E \<or> \<not> prepare_ok E SQL_ROSTER_REMOVE then (- 1, d)
      else if \<not> step_ok E SQL_ROSTER_REMOVE then (- 1, d)
      else
        (let d1 = d\<lparr>roster := filter (\<lambda>r. \<not> roster_key owner contact r) (roster d)\<rparr>
         in (0, snd (roster_ver_increment E owner d1))))"

end
