(* ===== verification/Message.thy ===== *)
theory Message
  imports Blocking
begin

text \<open>
  Message routing (\<^verbatim>\<open>xmpp_message.c\<close>) with the extensions it calls: offline storage
  (\<^verbatim>\<open>xep-0160-offline-messages.c\<close>), delivery receipts (\<^verbatim>\<open>xep-0184-receipts.c\<close>),
  message carbons (\<^verbatim>\<open>xep-0280-carbons.c\<close>) and the chat-marker helpers
  (\<^verbatim>\<open>xep-0333-chat-markers.c\<close>).
\<close>

subsection \<open>Parts of a JID\<close>

definition msg_bare_jid :: "cstr \<Rightarrow> nat \<Rightarrow> cstr" where
  "msg_bare_jid full out_size =
     (let len = length (before (CHR ''/'') full);
          len' = (if len \<ge> out_size then out_size - 1 else len)
      in take len' full)"

definition msg_resource :: "cstr \<Rightarrow> cstr option" where
  "msg_resource full = map_option tl (strchr full (CHR ''/''))"

definition msg_domain :: "cstr \<Rightarrow> nat \<Rightarrow> cstr" where
  "msg_domain jid out_size =
     (let start = (case strchr jid (CHR ''@'') of None \<Rightarrow> jid | Some t \<Rightarrow> tl t);
          len = length (before (CHR ''/'') start);
          len' = (if len \<ge> out_size then out_size - 1 else len)
      in take len' start)"

subsection \<open>Building stanzas\<close>

definition opt_attr :: "cstr \<Rightarrow> cstr option \<Rightarrow> cstr" where
  "opt_attr n v = (case v of None \<Rightarrow> [] | Some x \<Rightarrow> attr n x)"

definition body_xml :: "cstr option \<Rightarrow> cstr" where
  "body_xml body = (case body of None \<Rightarrow> [] | Some b \<Rightarrow> if b = [] then [] else ''<body>'' @ b @ ''</body>'')"

definition build_message :: "nat \<Rightarrow> cstr \<Rightarrow> cstr \<Rightarrow> cstr option \<Rightarrow> cstr option \<Rightarrow> cstr option \<Rightarrow>
    int \<times> cstr" where
  "build_message cap from_jid to_jid msg_type msg_id body_text =
     (let h = iq_append cap []
            (''<message'' @ attr ''from'' from_jid @ attr ''to'' to_jid @
             opt_attr ''type'' msg_type @ opt_attr ''id'' msg_id @ ''>'')
      in if fst h \<noteq> 0 then (- 1, snd h)
         else
           (let b = (case body_text of
                       None \<Rightarrow> (0, snd h)
                     | Some t \<Rightarrow> if t = [] then (0, snd h)
                                 else iq_append cap (snd h) (''<body>'' @ t @ ''</body>''))
            in if fst b \<noteq> 0 then (- 1, snd b)
               else
                 (let c = iq_append cap (snd b) ''</message>'' in
                  if fst c \<noteq> 0 then (- 1, snd c) else (0, snd c))))"

definition NS_CARBONS :: cstr where
  "NS_CARBONS = ''urn:xmpp:carbons:2''"

definition msg_has_private :: "'s strophe \<Rightarrow> 's \<Rightarrow> bool" where
  "msg_has_private L st \<longleftrightarrow> child_with L st ''private'' NS_CARBONS \<noteq> None"

subsection \<open>Carbon copies\<close>

record carbon_copy_ctx =
  cc_sender_bare :: cstr
  cc_orig_from :: cstr
  cc_orig_to :: cstr
  cc_orig_type :: "cstr option"
  cc_orig_id :: "cstr option"
  cc_orig_body :: "cstr option"
  cc_carbon_dir :: cstr

text \<open>The sequence of appends to the 4096-byte buffer; an append that does not fit is
  skipped, because its result is not looked at.\<close>

definition nonempty :: "cstr option \<Rightarrow> cstr option" where
  "nonempty v = (if v = Some [] then None else v)"

definition carbon_parts :: "carbon_copy_ctx \<Rightarrow> cstr \<Rightarrow> cstr list" where
  "carbon_parts cc full_jid =
     [''<message'' @ attr ''from'' (cc_sender_bare cc) @ attr ''to'' full_jid @
        opt_attr ''type'' (nonempty (cc_orig_type cc)) @ ''><'' @ cc_carbon_dir cc @
        attr ''xmlns'' NS_CARBONS @ ''><forwarded'' @ attr ''xmlns'' ''urn:xmpp:forward:0'' @
        ''><message'' @ attr ''xmlns'' ''jabber:client'',
      attr ''from'' (cc_orig_from cc) @ attr ''to'' (cc_orig_to cc),
      opt_attr ''type'' (nonempty (cc_orig_type cc)),
      opt_attr ''id'' (nonempty (cc_orig_id cc)),
      ''>'',
      body_xml (cc_orig_body cc),
      ''</message></forwarded></'' @ cc_carbon_dir cc @ ''></message>'']"

definition send_carbon_copy :: "env \<Rightarrow> carbon_copy_ctx \<Rightarrow> cstr \<Rightarrow> sink \<Rightarrow> server \<Rightarrow> server" where
  "send_carbon_copy E cc full_jid u s =
     (let buf = fold (\<lambda>p b. snd (iq_append 4096 b p)) (carbon_parts cc full_jid) []
      in snd (write_fn E u buf s))"

definition send_carbon_sent :: "env \<Rightarrow> cstr \<Rightarrow> cstr \<Rightarrow> cstr \<Rightarrow> cstr \<Rightarrow> cstr option \<Rightarrow> cstr option \<Rightarrow>
    cstr option \<Rightarrow> server \<Rightarrow> server" where
  "send_carbon_sent E sender_bare exclude orig_from orig_to orig_type orig_id orig_body =
     xmpp_session_table_for_each_carbon_resource sender_bare (Some exclude)
       (send_carbon_copy E \<lparr> cc_sender_bare = sender_bare, cc_orig_from = orig_from,
          cc_orig_to = orig_to, cc_orig_type = orig_type, cc_orig_id = orig_id,
          cc_orig_body = orig_body, cc_carbon_dir = ''sent'' \<rparr>)"

definition send_carbon_received :: "env \<Rightarrow> cstr \<Rightarrow> cstr \<Rightarrow> cstr \<Rightarrow> cstr \<Rightarrow> cstr option \<Rightarrow> cstr option \<Rightarrow>
    cstr option \<Rightarrow> server \<Rightarrow> server" where
  "send_carbon_received E recipient_bare exclude orig_from orig_to orig_type orig_id orig_body =
     xmpp_session_table_for_each_carbon_resource recipient_bare (Some exclude)
       (send_carbon_copy E \<lparr> cc_sender_bare = recipient_bare, cc_orig_from = orig_from,
          cc_orig_to = orig_to, cc_orig_type = orig_type, cc_orig_id = orig_id,
          cc_orig_body = orig_body, cc_carbon_dir = ''received'' \<rparr>)"

subsection \<open>Errors, receipts and offline storage\<close>

definition message_error_xml :: "cstr option \<Rightarrow> cstr option \<Rightarrow> cstr \<Rightarrow> cstr \<Rightarrow> cstr \<Rightarrow> cstr" where
  "message_error_xml to_attr msg_id error_type condition_ns condition =
     ''<message'' @ attr ''type'' ''error'' @ opt_attr ''id'' msg_id @
     attr ''to'' (case to_attr of None \<Rightarrow> [] | Some t \<Rightarrow> t) @ ''><error'' @
     attr ''type'' error_type @ ''><'' @ condition @ attr ''xmlns'' condition_ns @
     ''/></error></message>''"

definition send_message_error :: "env \<Rightarrow> cstr option \<Rightarrow> cstr option \<Rightarrow> cstr \<Rightarrow> cstr \<Rightarrow> cstr \<Rightarrow>
    server \<Rightarrow> server" where
  "send_message_error E to_attr msg_id error_type condition_ns condition s =
     (let r = iq_append 512 [] (message_error_xml to_attr msg_id error_type condition_ns condition)
      in if fst r = 0 then snd (write_fn E (write_ud (ctx s)) (snd r) s) else s)"

definition XEP0184_NS :: cstr where
  "XEP0184_NS = ''urn:xmpp:receipts''"

definition find_receipt_child :: "'s strophe \<Rightarrow> 's \<Rightarrow> cstr \<Rightarrow> 's option" where
  "find_receipt_child L st el_name = child_with L st el_name XEP0184_NS"

definition xep0184_has_request :: "'s strophe \<Rightarrow> 's \<Rightarrow> bool" where
  "xep0184_has_request L st \<longleftrightarrow> find_receipt_child L st ''request'' \<noteq> None"

definition xep0184_has_received :: "'s strophe \<Rightarrow> 's \<Rightarrow> bool" where
  "xep0184_has_received L st \<longleftrightarrow> find_receipt_child L st ''received'' \<noteq> None"

definition xep0184_has_displayed :: "'s strophe \<Rightarrow> 's \<Rightarrow> bool" where
  "xep0184_has_displayed L st \<longleftrightarrow> find_receipt_child L st ''displayed'' \<noteq> None"

definition receipt_xml :: "cstr \<Rightarrow> cstr \<Rightarrow> cstr \<Rightarrow> cstr \<Rightarrow> cstr" where
  "receipt_xml el from_jid to_jid orig_id =
     ''<message'' @ attr ''from'' from_jid @ attr ''to'' to_jid @ ''><'' @ el @
     attr ''xmlns'' XEP0184_NS @ attr ''id'' orig_id @ ''/></message>''"

definition xep0184_send_receipt :: "env \<Rightarrow> cstr \<Rightarrow> cstr \<Rightarrow> cstr \<Rightarrow> server \<Rightarrow> int \<times> server" where
  "xep0184_send_receipt E from_jid to_jid orig_id s =
     (let r = iq_append 1024 [] (receipt_xml ''received'' from_jid to_jid orig_id) in
      if fst r \<noteq> 0 then (- 1, s) else (0, snd (write_fn E (write_ud (ctx s)) (snd r) s)))"

definition xep0184_send_displayed :: "env \<Rightarrow> cstr \<Rightarrow> cstr \<Rightarrow> cstr \<Rightarrow> server \<Rightarrow> int \<times> server" where
  "xep0184_send_displayed E from_jid to_jid orig_id s =
     (let r = iq_append 1024 [] (receipt_xml ''displayed'' from_jid to_jid orig_id) in
      if fst r \<noteq> 0 then (- 1, s) else (0, snd (write_fn E (write_ud (ctx s)) (snd r) s)))"

definition NS_MARKERS :: cstr where
  "NS_MARKERS = ''urn:xmpp:chat-markers:0''"

definition xep0333_get_marker :: "'s strophe \<Rightarrow> 's \<Rightarrow> (cstr \<times> cstr option) option" where
  "xep0333_get_marker L st =
     (case find (\<lambda>c. get_ns L c = Some NS_MARKERS \<and>
                     get_name L c \<in> {Some ''displayed'', Some ''received'', Some ''acknowledged''})
             (get_children L st) of
        None \<Rightarrow> None
      | Some c \<Rightarrow> map_option (\<lambda>n. (n, get_attribute L c ''id'')) (get_name L c))"

definition xep0333_has_markable :: "'s strophe \<Rightarrow> 's \<Rightarrow> bool" where
  "xep0333_has_markable L st \<longleftrightarrow> child_with L st ''markable'' NS_MARKERS \<noteq> None"

definition send_cap_error :: "env \<Rightarrow> cstr option \<Rightarrow> server \<Rightarrow> server" where
  "send_cap_error E msg_id s =
     (let r = iq_append 512 [] (message_error_xml (Some (bound_jid (ctx s))) msg_id ''cancel''
                NS_STANZAS ''service-unavailable'')
      in if fst r = 0 then snd (write_fn E (write_ud (ctx s)) (snd r) s) else s)"

definition xep0160_store :: "env \<Rightarrow> cstr \<Rightarrow> cstr option \<Rightarrow> cstr \<Rightarrow> server \<Rightarrow> int \<times> server" where
  "xep0160_store E to_bare msg_id stanza_xml s =
     (let r = offline_store E to_bare (bound_jid (ctx s)) stanza_xml (db s);
          s1 = s\<lparr>db := snd r\<rparr>
      in if fst r = - 2 then (- 2, send_cap_error E msg_id s1) else (fst r, s1))"

subsection \<open>The message handler\<close>

text \<open>The attributes and the derived facts the handler works with.\<close>

record message_view =
  mv_to :: cstr
  mv_type :: "cstr option"
  mv_id :: "cstr option"
  mv_body :: "cstr option"
  mv_carbons :: bool

text \<open>Bare-JID routing to the sender's own account.\<close>

definition route_self :: "env \<Rightarrow> message_view \<Rightarrow> cstr \<Rightarrow> server \<Rightarrow> server" where
  "route_self E m to_bare s =
     (let j = bound_jid (ctx s); sender_bare = msg_bare_jid j JID_BUF_SIZE;
          f = build_message IQ_BUF_SIZE j to_bare (mv_type m) (mv_id m) (mv_body m)
      in if fst f \<noteq> 0 then s
         else
           (let s1 = xmpp_session_table_broadcast_except E sender_bare j (snd f) s;
                s2 = xmpp_session_table_touch E j s1
            in if mv_carbons m
               then send_carbon_sent E sender_bare j j to_bare (mv_type m) (mv_id m) (mv_body m) s2
               else s2))"

text \<open>Bare-JID routing to the best online resource of somebody else.\<close>

definition route_best :: "env \<Rightarrow> message_view \<Rightarrow> cstr \<Rightarrow> cstr \<Rightarrow> server \<Rightarrow> server" where
  "route_best E m to_bare best_jid s =
     (let j = bound_jid (ctx s); sender_bare = msg_bare_jid j JID_BUF_SIZE;
          f = build_message IQ_BUF_SIZE j best_jid (mv_type m) (mv_id m) (mv_body m)
      in if fst f \<noteq> 0 then s
         else
           (let w = xmpp_session_table_write E best_jid (snd f) s;
                s2 = xmpp_session_table_touch E j (snd w)
            in if fst w = 0 \<and> mv_carbons m
               then send_carbon_received E to_bare best_jid j (mv_to m) (mv_type m) (mv_id m) (mv_body m)
                     (send_carbon_sent E sender_bare j j (mv_to m) (mv_type m) (mv_id m) (mv_body m) s2)
               else s2))"

text \<open>Nobody online: store for later delivery.\<close>

definition route_offline :: "env \<Rightarrow> message_view \<Rightarrow> cstr \<Rightarrow> server \<Rightarrow> server" where
  "route_offline E m to_bare s =
     (let j = bound_jid (ctx s); sender_bare = msg_bare_jid j JID_BUF_SIZE;
          f = build_message IQ_BUF_SIZE j to_bare (mv_type m) (mv_id m) (mv_body m)
      in if fst f \<noteq> 0 then s
         else
           (let s1 = snd (xep0160_store E to_bare (mv_id m) (snd f) s);
                s2 = xmpp_session_table_touch E j s1
            in if mv_carbons m
               then send_carbon_sent E sender_bare j j to_bare (mv_type m) (mv_id m) (mv_body m) s2
               else s2))"

definition route_bare :: "env \<Rightarrow> message_view \<Rightarrow> cstr \<Rightarrow> server \<Rightarrow> server" where
  "route_bare E m to_bare s =
     (if to_bare = msg_bare_jid (bound_jid (ctx s)) JID_BUF_SIZE then route_self E m to_bare s
      else case xmpp_session_table_best_resource to_bare JID_BUF_SIZE s of
          Some best_jid \<Rightarrow> route_best E m to_bare best_jid s
        | None \<Rightarrow> route_offline E m to_bare s)"

text \<open>A full JID: the exact resource first, then the bare JID.\<close>

definition route_full :: "env \<Rightarrow> message_view \<Rightarrow> cstr \<Rightarrow> server \<Rightarrow> server" where
  "route_full E m to_bare s =
     (let j = bound_jid (ctx s);
          f = build_message IQ_BUF_SIZE j (mv_to m) (mv_type m) (mv_id m) (mv_body m)
      in if fst f \<noteq> 0 then route_bare E m to_bare s
         else
           (let w = xmpp_session_table_write E (mv_to m) (snd f) s in
            if fst w \<noteq> 0 then route_bare E m to_bare (snd w)
            else
              (let s1 = xmpp_session_table_touch E j (snd w) in
               if mv_carbons m
               then send_carbon_received E to_bare (mv_to m) j (mv_to m) (mv_type m) (mv_id m)
                      (mv_body m) s1
               else s1)))"

text \<open>The block list check and the choice between the two kinds of routing.\<close>

definition route_message :: "env \<Rightarrow> message_view \<Rightarrow> server \<Rightarrow> server" where
  "route_message E m s =
     (let to_bare = msg_bare_jid (mv_to m) JID_BUF_SIZE;
          sender_bare = msg_bare_jid (bound_jid (ctx s)) JID_BUF_SIZE
      in if storage_blocklist_check E sender_bare to_bare (db s) = 1 then s
         else if msg_resource (mv_to m) \<noteq> None then route_full E m to_bare s
         else route_bare E m to_bare s)"

definition maybe_send_receipt :: "env \<Rightarrow> 's strophe \<Rightarrow> 's \<Rightarrow> bool \<Rightarrow> server \<Rightarrow> server" where
  "maybe_send_receipt E L st is_ack s =
     (let msg_type = get_attribute L st ''type'' in
      case (get_attribute L st ''id'', get_attribute L st ''from'') of
        (Some i, Some fr) \<Rightarrow>
          if \<not> is_ack \<and> msg_type \<noteq> Some ''error'' \<and> xep0184_has_request L st \<and> i \<noteq> []
          then snd (xep0184_send_receipt E (bound_jid (ctx s)) fr i s) else s
      | _ \<Rightarrow> s)"

definition xmpp_message_handle :: "env \<Rightarrow> 's strophe \<Rightarrow> 's \<Rightarrow> server \<Rightarrow> server" where
  "xmpp_message_handle E L st s =
     (let msg_id = get_attribute L st ''id'' in
      case get_attribute L st ''to'' of
        None \<Rightarrow> send_message_error E None msg_id ''modify'' NS_STANZAS ''bad-request'' s
      | Some to_attr \<Rightarrow>
          if to_attr = []
          then send_message_error E None msg_id ''modify'' NS_STANZAS ''bad-request'' s
          else if msg_domain to_attr 1024 \<noteq> domain (ctx s)
          then send_message_error E (Some to_attr) msg_id ''cancel'' NS_STANZAS
                 ''service-unavailable'' s
          else
            (let is_private = msg_has_private L st;
                 is_receipt_ack = (xep0184_has_received L st \<or> xep0184_has_displayed L st);
                 s1 = maybe_send_receipt E L st is_receipt_ack s;
                 body = (case get_child_by_name L st ''body'' of
                           None \<Rightarrow> None | Some b \<Rightarrow> get_text L b)
             in route_message E
                  \<lparr> mv_to = to_attr, mv_type = get_attribute L st ''type'', mv_id = msg_id,
                    mv_body = body, mv_carbons = (\<not> is_private \<and> \<not> is_receipt_ack) \<rparr> s1))"

subsection \<open>Text of a forwarded message\<close>

lemma msg_bare_jid_eq: "msg_bare_jid = xmpp_session_bare_jid"
  by (intro ext) (simp add: msg_bare_jid_def xmpp_session_bare_jid_def)

definition message_xml :: "cstr \<Rightarrow> cstr \<Rightarrow> message_view \<Rightarrow> cstr" where
  "message_xml from_jid to_jid m =
     ''<message'' @ attr ''from'' from_jid @ attr ''to'' to_jid @ opt_attr ''type'' (mv_type m) @
     opt_attr ''id'' (mv_id m) @ ''>'' @ body_xml (mv_body m) @ ''</message>''"

lemma build_message_ok:
  "length (message_xml from_jid to_jid m) < cap \<Longrightarrow>
     build_message cap from_jid to_jid (mv_type m) (mv_id m) (mv_body m) =
       (0, message_xml from_jid to_jid m)"
  by (auto simp: build_message_def message_xml_def body_xml_def iq_append_def Let_def
      split: option.splits)

lemma build_message_fails:
  "cap \<le> length (message_xml from_jid to_jid m) \<Longrightarrow>
     fst (build_message cap from_jid to_jid (mv_type m) (mv_id m) (mv_body m)) = - 1"
  by (auto simp: build_message_def message_xml_def body_xml_def iq_append_def Let_def
      split: option.splits if_splits)

lemma build_message_iff:
  "fst (build_message cap from_jid to_jid (mv_type m) (mv_id m) (mv_body m)) = 0 \<longleftrightarrow>
     length (message_xml from_jid to_jid m) < cap"
  using build_message_ok [of from_jid to_jid m cap] build_message_fails [of cap from_jid to_jid m]
  by (cases "length (message_xml from_jid to_jid m) < cap") auto

text \<open>A carbon copy, when everything fits.\<close>

definition carbon_text :: "carbon_copy_ctx \<Rightarrow> cstr \<Rightarrow> cstr" where
  "carbon_text cc j = fold (\<lambda>p b. snd (iq_append 4096 b p)) (carbon_parts cc j) []"

lemma fold_append_bound:
  "length b < cap \<Longrightarrow> length (fold (\<lambda>p b. snd (iq_append cap b p)) ps b) < cap"
proof (induction ps arbitrary: b)
  case (Cons p ps)
  then show ?case using iq_append_bound [of b cap p] by simp
qed simp

lemma fold_append_fits:
  "length b + length (concat ps) < cap \<Longrightarrow>
     fold (\<lambda>p b. snd (iq_append cap b p)) ps b = b @ concat ps"
proof (induction ps arbitrary: b)
  case (Cons p ps)
  then have "p = [] \<or> length p < cap - length b" by auto
  then have "snd (iq_append cap b p) = b @ p" by (auto simp: iq_append_def)
  with Cons show ?case by simp
qed simp

lemma carbon_text_bound: "length (carbon_text cc j) < 4096"
  unfolding carbon_text_def by (rule fold_append_bound) simp

lemma carbon_text_fits:
  "length (concat (carbon_parts cc j)) < 4096 \<Longrightarrow> carbon_text cc j = concat (carbon_parts cc j)"
  unfolding carbon_text_def using fold_append_fits [of "[]"] by simp

subsection \<open>Who gets a carbon copy\<close>

definition carbon_targets :: "cstr \<Rightarrow> cstr \<Rightarrow> session_entry list \<Rightarrow> session_entry list" where
  "carbon_targets bj excl es =
     filter (\<lambda>e. bare (e_jid e) = bj \<and> e_carbons e \<and> excl \<noteq> e_jid e) es"

definition carbons_out :: "carbon_copy_ctx \<Rightarrow> cstr \<Rightarrow> session_entry list \<Rightarrow> (sink \<times> cstr) list" where
  "carbons_out cc excl es =
     map (\<lambda>e. (e_write_ud e, carbon_text cc (e_jid e))) (carbon_targets (cc_sender_bare cc) excl es)"

lemma send_carbon_copy_eq:
  "send_carbon_copy E cc = (\<lambda>j u. snd \<circ> write_fn E u (carbon_text cc j))"
  by (intro ext) (simp add: send_carbon_copy_def carbon_text_def Let_def)

definition sent_ctx :: "cstr \<Rightarrow> cstr \<Rightarrow> cstr \<Rightarrow> message_view \<Rightarrow> cstr \<Rightarrow> carbon_copy_ctx" where
  "sent_ctx bj from_jid to_jid m dir =
     \<lparr> cc_sender_bare = bj, cc_orig_from = from_jid, cc_orig_to = to_jid, cc_orig_type = mv_type m,
       cc_orig_id = mv_id m, cc_orig_body = mv_body m, cc_carbon_dir = dir \<rparr>"

lemma send_carbon_sent_eq:
  "send_carbon_sent E bj excl fr to (mv_type m) (mv_id m) (mv_body m) s =
     s\<lparr>sent := sent s @ carbons_out (sent_ctx bj fr to m ''sent'') excl (g_sessions s)\<rparr>"
  by (simp add: send_carbon_sent_def send_carbon_copy_eq for_each_carbon_resource_eq
      carbons_out_def carbon_targets_def sent_ctx_def)

lemma send_carbon_received_eq:
  "send_carbon_received E bj excl fr to (mv_type m) (mv_id m) (mv_body m) s =
     s\<lparr>sent := sent s @ carbons_out (sent_ctx bj fr to m ''received'') excl (g_sessions s)\<rparr>"
  by (simp add: send_carbon_received_def send_carbon_copy_eq for_each_carbon_resource_eq
      carbons_out_def carbon_targets_def sent_ctx_def)

text \<open>Touching an entry changes its time stamp only, so the carbon copies are the same.\<close>

lemma carbons_out_list_update:
  assumes "i < length es"
  shows "carbons_out cc excl (es[i := (es ! i)\<lparr>e_last_active := t\<rparr>]) = carbons_out cc excl es"
proof -
  have "es[i := (es ! i)\<lparr>e_last_active := t\<rparr>] =
      take i es @ (es ! i)\<lparr>e_last_active := t\<rparr> # drop (Suc i) es"
    using assms by (rule upd_conv_take_nth_drop)
  moreover have "es = take i es @ es ! i # drop (Suc i) es"
    using assms by (rule id_take_nth_drop)
  moreover have "carbons_out cc excl (xs @ x\<lparr>e_last_active := t\<rparr> # ys) =
      carbons_out cc excl (xs @ x # ys)" for xs x ys
    by (simp add: carbons_out_def carbon_targets_def)
  ultimately show ?thesis by metis
qed

lemma carbons_out_touch [simp]:
  "carbons_out cc excl (g_sessions (xmpp_session_table_touch E j s)) =
     carbons_out cc excl (g_sessions s)"
  by (auto simp: xmpp_session_table_touch_def update_entry_def carbons_out_list_update
      split: option.splits dest: find_index_SomeD)

lemma touch_table_inv: "table_inv s \<Longrightarrow> table_inv (xmpp_session_table_touch E j s)"
  by (simp add: xmpp_session_table_touch_def st.invar_modify)

subsection \<open>Frames of the routing functions\<close>

lemma send_message_error_frame [simp]:
  "ctx (send_message_error E a b c d e s) = ctx s"
  "g_sessions (send_message_error E a b c d e s) = g_sessions s"
  "db (send_message_error E a b c d e s) = db s"
  "stream_errors (send_message_error E a b c d e s) = stream_errors s"
  by (simp_all add: send_message_error_def Let_def)

lemma send_receipt_frame [simp]:
  "ctx (snd (xep0184_send_receipt E a b c s)) = ctx s"
  "g_sessions (snd (xep0184_send_receipt E a b c s)) = g_sessions s"
  "db (snd (xep0184_send_receipt E a b c s)) = db s"
  "stream_errors (snd (xep0184_send_receipt E a b c s)) = stream_errors s"
  by (simp_all add: xep0184_send_receipt_def Let_def)

lemma maybe_send_receipt_frame [simp]:
  "ctx (maybe_send_receipt E L st a s) = ctx s"
  "g_sessions (maybe_send_receipt E L st a s) = g_sessions s"
  "db (maybe_send_receipt E L st a s) = db s"
  "stream_errors (maybe_send_receipt E L st a s) = stream_errors s"
  by (simp_all add: maybe_send_receipt_def Let_def split: option.splits)

lemma xep0160_store_frame [simp]:
  "ctx (snd (xep0160_store E a b c s)) = ctx s"
  "g_sessions (snd (xep0160_store E a b c s)) = g_sessions s"
  "stream_errors (snd (xep0160_store E a b c s)) = stream_errors s"
  "db (snd (xep0160_store E a b c s)) = snd (offline_store E a (bound_jid (ctx s)) c (db s))"
  by (simp_all add: xep0160_store_def send_cap_error_def Let_def)

text \<open>What a handler of stanzas from an online client may do: it leaves the session it runs
  for and the stream errors alone, keeps the table invariant, and appends to the log.\<close>

definition route_keeps :: "server \<Rightarrow> server \<Rightarrow> bool" where
  "route_keeps s s' \<longleftrightarrow> ctx s' = ctx s \<and> stream_errors s' = stream_errors s \<and>
     (table_inv s \<longrightarrow> table_inv s') \<and> dom (session_lookup s') = dom (session_lookup s) \<and>
     owners s' = owners s \<and> (\<exists>out. sent s' = sent s @ out)"

lemma route_keeps_refl [simp]: "route_keeps s s"
  by (simp add: route_keeps_def)

lemma route_keeps_trans: "route_keeps a b \<Longrightarrow> route_keeps b c \<Longrightarrow> route_keeps a c"
  by (auto simp: route_keeps_def)

lemma route_keeps_same_table:
  "ctx s' = ctx s \<Longrightarrow> stream_errors s' = stream_errors s \<Longrightarrow> g_sessions s' = g_sessions s \<Longrightarrow>
     sent s' = sent s @ out \<Longrightarrow> route_keeps s s'"
  by (auto simp: route_keeps_def table_inv_def session_lookup_def owners_def)

lemma route_keeps_send:
  "route_keeps s s' \<Longrightarrow> route_keeps s (s'\<lparr>sent := sent s' @ out\<rparr>)"
  by (auto simp: route_keeps_def table_inv_def session_lookup_def owners_def)

lemma route_keeps_touch:
  "route_keeps s s' \<Longrightarrow> route_keeps s (xmpp_session_table_touch E j s')"
proof -
  have "dom (session_lookup (xmpp_session_table_touch E j s')) = dom (session_lookup s')"
  proof (cases "find_session j s'")
    case (Some i)
    then have "map e_jid (g_sessions (xmpp_session_table_touch E j s')) = map e_jid (g_sessions s')"
      by (auto simp: xmpp_session_table_touch_def update_entry_def map_update list_update_same_conv
          dest: find_index_SomeD)
    then have "e_jid ` set (g_sessions (xmpp_session_table_touch E j s')) = e_jid ` set (g_sessions s')"
      by (metis list.set_map)
    then show ?thesis by (simp add: dom_session_lookup)
  qed (simp add: xmpp_session_table_touch_def update_entry_def)
  moreover have "owners (xmpp_session_table_touch E j s') = owners s'"
    unfolding xmpp_session_table_touch_def by (rule update_entry_owners) simp
  moreover assume "route_keeps s s'"
  ultimately show ?thesis by (auto simp: route_keeps_def touch_table_inv)
qed

lemma table_write_keeps:
  "route_keeps s (snd (xmpp_session_table_write E j d s))"
  by (auto simp: xmpp_session_table_write_def split: option.splits
      intro: route_keeps_same_table [where out = "[(u, d)]" for u])

lemma message_error_keeps: "route_keeps s (send_message_error E a b c d e s)"
  by (auto simp: send_message_error_def Let_def
      intro: route_keeps_same_table [where out = "[(u, x)]" for u x])

lemma receipt_keeps: "route_keeps s (maybe_send_receipt E L st a s)"
  by (auto simp: maybe_send_receipt_def xep0184_send_receipt_def Let_def split: option.splits
      intro: route_keeps_same_table [where out = "[(u, x)]" for u x])

lemma store_keeps: "route_keeps s (snd (xep0160_store E a b c s))"
  by (auto simp: xep0160_store_def send_cap_error_def Let_def
      intro: route_keeps_same_table [where out = "[(u, x)]" for u x]
        route_keeps_same_table [where out = "[]"])

lemma broadcast_keeps: "route_keeps s (xmpp_session_table_broadcast_except E bj excl d s)"
  unfolding broadcast_except_eq by (rule route_keeps_send) simp

lemma carbon_keeps:
  fixes m :: message_view
  assumes "route_keeps s s'"
  shows "route_keeps s (send_carbon_sent E bj excl fr to (mv_type m) (mv_id m) (mv_body m) s')"
    and "route_keeps s (send_carbon_received E bj excl fr to (mv_type m) (mv_id m) (mv_body m) s')"
  using assms by (simp_all only: send_carbon_sent_eq send_carbon_received_eq route_keeps_send)

lemmas route_keeps_rules = carbon_keeps message_error_keeps receipt_keeps store_keeps broadcast_keeps
  table_write_keeps route_keeps_touch route_keeps_send route_keeps_refl

lemma route_bare_keeps: "route_keeps s (route_bare E m to_bare s)"
  by (auto simp: route_bare_def route_self_def route_best_def route_offline_def Let_def
      intro!: route_keeps_rules split: option.splits)

lemma route_full_keeps: "route_keeps s (route_full E m to_bare s)"
  by (auto simp: route_full_def Let_def
      intro: route_keeps_rules route_bare_keeps
        route_keeps_trans [OF table_write_keeps route_bare_keeps])

lemma route_message_keeps: "route_keeps s (route_message E m s)"
  by (auto simp: route_message_def Let_def intro: route_full_keeps route_bare_keeps)

lemma message_handle_keeps: "route_keeps s (xmpp_message_handle E L st s)"
  by (auto simp: xmpp_message_handle_def Let_def split: option.splits
      intro: message_error_keeps route_message_keeps route_keeps_trans [OF receipt_keeps route_message_keeps])

subsection \<open>What each route writes\<close>

lemma route_self_sent:
  assumes "length (message_xml (bound_jid (ctx s)) to_bare m) < IQ_BUF_SIZE"
  shows "sent (route_self E m to_bare s) = sent s @
      map (\<lambda>e. (e_write_ud e, message_xml (bound_jid (ctx s)) to_bare m))
        (filter (\<lambda>e. bare (e_jid e) = bare (bound_jid (ctx s)) \<and> e_jid e \<noteq> bound_jid (ctx s))
          (g_sessions s)) @
      (if mv_carbons m then carbons_out
         (sent_ctx (bare (bound_jid (ctx s))) (bound_jid (ctx s)) to_bare m ''sent'')
         (bound_jid (ctx s)) (g_sessions s) else [])"
  using assms
  by (simp add: route_self_def build_message_ok msg_bare_jid_eq broadcast_except_eq
      send_carbon_sent_eq Let_def)

lemma route_best_sent:
  assumes "length (message_xml (bound_jid (ctx s)) best m) < IQ_BUF_SIZE"
    and "table_inv s" "session_lookup s best = Some e"
    and "write_rc E (e_write_ud e) (message_xml (bound_jid (ctx s)) best m) = 0"
  shows "sent (route_best E m to_bare best s) = sent s @
      [(e_write_ud e, message_xml (bound_jid (ctx s)) best m)] @
      (if mv_carbons m then
         carbons_out (sent_ctx (bare (bound_jid (ctx s))) (bound_jid (ctx s)) (mv_to m) m ''sent'')
           (bound_jid (ctx s)) (g_sessions s) @
         carbons_out (sent_ctx to_bare (bound_jid (ctx s)) (mv_to m) m ''received'')
           best (g_sessions s)
       else [])"
  using assms
  by (simp add: route_best_def build_message_ok msg_bare_jid_eq table_write_eq
      send_carbon_sent_eq send_carbon_received_eq Let_def)

lemma route_full_sent:
  assumes "length (message_xml (bound_jid (ctx s)) (mv_to m) m) < IQ_BUF_SIZE"
    and "table_inv s" "session_lookup s (mv_to m) = Some e"
    and "write_rc E (e_write_ud e) (message_xml (bound_jid (ctx s)) (mv_to m) m) = 0"
  shows "sent (route_full E m to_bare s) = sent s @
      [(e_write_ud e, message_xml (bound_jid (ctx s)) (mv_to m) m)] @
      (if mv_carbons m then
         carbons_out (sent_ctx to_bare (bound_jid (ctx s)) (mv_to m) m ''received'')
           (mv_to m) (g_sessions s)
       else [])"
  using assms
  by (simp add: route_full_def build_message_ok table_write_eq send_carbon_received_eq Let_def)

lemma route_offline_db:
  assumes "length (message_xml (bound_jid (ctx s)) to_bare m) < IQ_BUF_SIZE"
  shows "db (route_offline E m to_bare s) =
    snd (offline_store E to_bare (bound_jid (ctx s)) (message_xml (bound_jid (ctx s)) to_bare m) (db s))"
  using assms
  by (simp add: route_offline_def build_message_ok msg_bare_jid_eq send_carbon_sent_eq Let_def)

subsection \<open>Properties\<close>

lemma msg_bare_eq: "msg_bare_jid j JID_BUF_SIZE = bare j"
  by (simp add: msg_bare_jid_eq)

text \<open>The messages the delivery properties are about: those between users neither of whom has the
  other in their block list, of type \<open>chat\<close> or \<open>normal\<close> (the default) and with a body.\<close>

definition neither_blocks :: "cstr \<Rightarrow> cstr \<Rightarrow> database \<Rightarrow> bool" where
  "neither_blocks a b d \<longleftrightarrow> (a, b) \<notin> set (blocklist d) \<and> (b, a) \<notin> set (blocklist d)"

definition ordinary :: "message_view \<Rightarrow> bool" where
  "ordinary m \<longleftrightarrow> mv_type m \<in> {None, Some ''normal'', Some ''chat''} \<and> mv_body m \<noteq> None \<and> mv_body m \<noteq> Some []"

lemma neither_blocks_check: "neither_blocks a b d \<Longrightarrow> storage_blocklist_check E a b d \<noteq> 1"
  by (simp add: neither_blocks_def storage_blocklist_check_def)


definition hi_view :: "cstr \<Rightarrow> message_view" where
  "hi_view t = \<lparr> mv_to = t, mv_type = Some ''chat'', mv_id = None, mv_body = Some ''hi'', mv_carbons = True \<rparr>"

lemma hi_view_simps [simp]:
  "mv_to (hi_view t) = t" "mv_carbons (hi_view t)"
  "mv_type (hi_view t) = Some ''chat''" "mv_id (hi_view t) = None" "mv_body (hi_view t) = Some ''hi''"
  by (simp_all add: hi_view_def)

lemma example_server_facts:
  "bound_jid (ctx example_server) = ''a@d/r''"
  "blocklist (db example_server) = []" "sent example_server = []"
  "write_rc env0 u x = 0"
  "bare ''a@d/r'' = ''a@d''" "bare ''b@d/x'' = ''b@d''" "bare ''b@d/y'' = ''b@d''"
  "bare ''b@d'' = ''b@d''" "bare ''c@d'' = ''c@d''"
  "msg_resource ''b@d/x'' = Some ''x''" "msg_resource ''b@d'' = None" "msg_resource ''c@d'' = None"
  by (simp_all add: example_server_def example_defs xmpp_session_bare_jid_def before_def
      msg_resource_def strchr_def Let_def)

lemma example_sessions:
  "session_lookup example_server ''b@d/x'' =
     Some \<lparr> e_write_ud = 7, e_last_active = 1, e_priority = 5, e_carbons = False, e_jid = ''b@d/x'' \<rparr>"
  "session_lookup example_server ''b@d/y'' =
     Some \<lparr> e_write_ud = 8, e_last_active = 2, e_priority = 5, e_carbons = True, e_jid = ''b@d/y'' \<rparr>"
  "xmpp_session_table_best_resource ''b@d'' JID_BUF_SIZE example_server = Some ''b@d/y''"
  "xmpp_session_table_best_resource ''c@d'' JID_BUF_SIZE example_server = None"
  by (simp_all add: example_server_def session_lookup_def entry_map_def
      xmpp_session_table_best_resource_def better_def xmpp_session_bare_jid_def before_def Let_def)

lemma no_block_check: "storage_blocklist_check E a b (db example_server) \<noteq> 1"
  by (simp add: storage_blocklist_check_def example_server_facts)

lemma example_ordinary: "neither_blocks a b (db example_server)" "ordinary (hi_view t)"
  by (simp_all add: neither_blocks_def ordinary_def example_server_facts)

lemma example_entries:
  "g_sessions example_server = [
     \<lparr> e_write_ud = 7, e_last_active = 1, e_priority = 5, e_carbons = False, e_jid = ''b@d/x'' \<rparr>,
     \<lparr> e_write_ud = 8, e_last_active = 2, e_priority = 5, e_carbons = True, e_jid = ''b@d/y'' \<rparr>]"
  by (simp add: example_server_def)




lemma route_stores_offline:
  assumes "msg_resource (mv_to m) = None" "bare (mv_to m) \<noteq> bare (bound_jid (ctx s))"
    and "storage_blocklist_check E (bare (bound_jid (ctx s))) (bare (mv_to m)) (db s) \<noteq> 1"
    and "\<forall>e\<in>set (g_sessions s). bare (e_jid e) \<noteq> bare (mv_to m)"
    and "length (message_xml (bound_jid (ctx s)) (bare (mv_to m)) m) < IQ_BUF_SIZE"
    and "db_open_ok E" "\<forall>sql. prepare_ok E sql \<and> step_ok E sql"
  shows "offline_for (bare (mv_to m)) (db (route_message E m s)) =
    offline_for (bare (mv_to m)) (db s) @
      (if offline_is_capped E (bare (mv_to m)) (db s) = 0
       then [\<lparr> om_id = offline_next_id (db s), om_recipient = bare (mv_to m),
               om_sender = bound_jid (ctx s),
               om_stanza = message_xml (bound_jid (ctx s)) (bare (mv_to m)) m,
               om_received_at = now_seconds E,
               om_bytes = length (message_xml (bound_jid (ctx s)) (bare (mv_to m)) m) \<rparr>]
       else [])"
proof -
  have "xmpp_session_table_best_resource (bare (mv_to m)) JID_BUF_SIZE s = None"
    using assms(4) by (simp add: best_resource_None)
  then have "route_message E m s = route_offline E m (bare (mv_to m)) s"
    using assms(1-3) by (simp add: route_message_def route_bare_def msg_bare_eq Let_def)
  then show ?thesis
    using assms(6,7) by (simp add: route_offline_db [OF assms(5)] offline_store_def offline_for_def)
qed

text \<open>A message to somebody who is not online is stored for them, under the full JID of
  the sender, after the messages already waiting, unless their queue is full: then it is
  left unchanged.\<close>

theorem message_stored_offline:
  assumes "msg_resource (mv_to m) = None" "bare (mv_to m) \<noteq> bare (bound_jid (ctx s))"
    and "storage_blocklist_check E (bare (bound_jid (ctx s))) (bare (mv_to m)) (db s) \<noteq> 1"
    and "\<forall>e\<in>set (g_sessions s). bare (e_jid e) \<noteq> bare (mv_to m)"
    and "length (message_xml (bound_jid (ctx s)) (bare (mv_to m)) m) < IQ_BUF_SIZE"
    and "db_open_ok E" "\<forall>sql. prepare_ok E sql \<and> step_ok E sql"
  shows "offline_for (bare (mv_to m)) (db (route_message E m s)) =
    offline_for (bare (mv_to m)) (db s) @
      (if offline_is_capped E (bare (mv_to m)) (db s) = 0
       then [\<lparr> om_id = offline_next_id (db s), om_recipient = bare (mv_to m),
               om_sender = bound_jid (ctx s),
               om_stanza = message_xml (bound_jid (ctx s)) (bare (mv_to m)) m,
               om_received_at = now_seconds E,
               om_bytes = length (message_xml (bound_jid (ctx s)) (bare (mv_to m)) m) \<rparr>]
       else [])"
  by (rule route_stores_offline [OF assms])

theorem message_stored_offline_witness:
  "map om_sender (offline_for ''c@d'' (db (route_message env0 (hi_view ''c@d'') example_server))) =
     [''a@d/r'']"
proof -
  let ?s = "example_server"
  have "length (message_xml ''a@d/r'' ''c@d'' (hi_view ''c@d'')) < IQ_BUF_SIZE"
    by (simp add: message_xml_def opt_attr_def attr_def body_xml_def)
  moreover have "\<forall>e\<in>set (g_sessions ?s). bare (e_jid e) \<noteq> ''c@d''"
    using example_sessions(4) by (simp add: best_resource_None)
  moreover have "db_open_ok env0" "\<forall>sql. prepare_ok env0 sql \<and> step_ok env0 sql"
    by (simp_all add: env0_def)
  moreover have "offline_is_capped env0 ''c@d'' (db ?s) = 0" "offline_for ''c@d'' (db ?s) = []"
    by (simp_all add: example_server_def example_defs offline_is_capped_def offline_count_def
        offline_for_def offline_total_bytes_def)
  ultimately show ?thesis
    using message_stored_offline [of "hi_view ''c@d''" ?s env0]
    by (simp add: example_server_facts no_block_check)
qed

text \<open>The block list is consulted in the wrong direction. A sender who has blocked the
  recipient cannot write to them; the block list of the recipient is not looked at.\<close>

theorem block_list_of_sender_decides:
  assumes "sql_runs E SQL_BLOCK_CHECK"
  shows "((bare (bound_jid (ctx s)), bare (mv_to m)) \<in> set (blocklist (db s)) \<longrightarrow>
      route_message E m s = s) \<and>
    ((bare (bound_jid (ctx s)), bare (mv_to m)) \<notin> set (blocklist (db s)) \<longrightarrow>
      route_message E m s = (if msg_resource (mv_to m) \<noteq> None
        then route_full E m (bare (mv_to m)) s else route_bare E m (bare (mv_to m)) s))"
  using assms
  by (simp add: route_message_def storage_blocklist_check_def sql_runs_def msg_bare_eq Let_def)

theorem block_list_of_sender_decides_witness:
  "hd (sent (route_message env0 (hi_view ''b@d/x'')
       (example_server\<lparr>db := database0\<lparr>blocklist := [(''b@d'', ''a@d'')]\<rparr>\<rparr>))) =
     (7, message_xml ''a@d/r'' ''b@d/x'' (hi_view ''b@d/x''))"
proof -
  let ?s = "example_server\<lparr>db := database0\<lparr>blocklist := [(''b@d'', ''a@d'')]\<rparr>\<rparr>"
  have "length (message_xml ''a@d/r'' ''b@d/x'' (hi_view ''b@d/x'')) < IQ_BUF_SIZE"
    by (simp add: message_xml_def opt_attr_def attr_def body_xml_def)
  moreover have "table_inv ?s" using example_server_inv by (simp add: table_inv_def)
  moreover have "session_lookup ?s = session_lookup example_server"
    by (intro ext) (simp add: session_lookup_def)
  moreover have "sql_runs env0 SQL_BLOCK_CHECK" by (simp add: sql_runs_def env0_def)
  ultimately show ?thesis
    using block_list_of_sender_decides [of env0 ?s "hi_view ''b@d/x''"]
      route_full_sent [of ?s "hi_view ''b@d/x''" _ env0 "''b@d''"]
    by (simp add: example_server_facts example_sessions)
qed

end
