(* ===== verification/Presence.thy ===== *)
theory Presence
  imports Storage_Roster Message
begin

text \<open>
  Presence (\<^verbatim>\<open>xmpp_presence.c\<close>): broadcasting availability to subscribers and to the
  user's other resources, the four subscription stanzas (the transitions of RFC 6121 section 3
  for approved requests; the server does not check that a request is pending), directed presence, and the unavailable presence sent when a connection drops.
\<close>

subsection \<open>Stanzas\<close>

definition presence_xml :: "cstr \<Rightarrow> cstr option \<Rightarrow> cstr option \<Rightarrow> cstr" where
  "presence_xml from_jid to_jid type =
     ''<presence'' @ attr ''from'' from_jid @ opt_attr ''to'' to_jid @ opt_attr ''type'' type @ ''/>''"

definition build_presence_stanza :: "cstr \<Rightarrow> cstr option \<Rightarrow> cstr option" where
  "build_presence_stanza from_full_jid type =
     (let r = iq_append IQ_BUF_SIZE [] (presence_xml from_full_jid None type) in
      if fst r \<noteq> 0 then None else Some (snd r))"

definition broadcast_to_bare_jid :: "env \<Rightarrow> cstr \<Rightarrow> cstr \<Rightarrow> server \<Rightarrow> server" where
  "broadcast_to_bare_jid = xmpp_session_table_broadcast_to_bare"

text \<open>The 512-byte buffers: a stanza that does not fit is broadcast as the empty text.\<close>

definition broadcast_subscription_stanza :: "env \<Rightarrow> cstr \<Rightarrow> cstr \<Rightarrow> cstr \<Rightarrow> server \<Rightarrow> server" where
  "broadcast_subscription_stanza E from_bare to_bare type =
     broadcast_to_bare_jid E to_bare
       (snd (iq_append 512 [] (presence_xml from_bare (Some to_bare) (Some type))))"

definition push_roster_to_bare_jid :: "env \<Rightarrow> cstr \<Rightarrow> roster_item \<Rightarrow> server \<Rightarrow> server" where
  "push_roster_to_bare_jid E owner_bare item s =
     (let r = append_all 4096
        ([''<iq'' @ attr ''type'' ''set'' @ attr ''id'' ''push-sub'' @ ''><query'' @
            attr ''xmlns'' ''jabber:iq:roster'' @ ''>'',
          ''<item'' @ attr ''jid'' (contact_jid item) @
            (if name item \<noteq> [] then attr ''name'' (name item) else []) @
            attr ''subscription'' (subscription item)] @
         (if ask item \<noteq> 0 then [attr ''ask'' ''subscribe''] else []) @
         [''/></query></iq>'']) []
      in if fst r then s else broadcast_to_bare_jid E owner_bare (snd r) s)"

subsection \<open>Subscriptions\<close>

definition update_subscription :: "env \<Rightarrow> cstr \<Rightarrow> cstr \<Rightarrow> cstr \<Rightarrow> int \<Rightarrow> database \<Rightarrow> int \<times> database" where
  "update_subscription E owner contact sub ask_flag d =
     (let item = (case storage_roster_get E owner contact d of
                    Found i \<Rightarrow> i
                  | _ \<Rightarrow> \<lparr> contact_jid = snprintf ROSTER_JID_MAX contact, name = [],
                           subscription = [], ask = 0 \<rparr>);
          item' = item\<lparr>subscription := snprintf 8 sub, ask := ask_flag\<rparr>
      in if \<not> db_open_ok E then (- 1, d) else storage_roster_upsert E owner item' [] d)"

definition send_presence_to_subscriber :: "env \<Rightarrow> cstr \<Rightarrow> cstr \<Rightarrow> sink \<Rightarrow> server \<Rightarrow> server" where
  "send_presence_to_subscriber E to_bare full_jid u s =
     (case build_presence_stanza full_jid None of
        None \<Rightarrow> s
      | Some p \<Rightarrow> xmpp_session_table_broadcast_to_bare E to_bare p s)"

definition roster_view :: "env \<Rightarrow> cstr \<Rightarrow> cstr \<Rightarrow> database \<Rightarrow> roster_item" where
  "roster_view E owner contact d =
     (case storage_roster_get E owner contact d of
        Found i \<Rightarrow> i
      | _ \<Rightarrow> \<lparr> contact_jid = snprintf ROSTER_JID_MAX contact, name = [],
               subscription = ''none'', ask = 0 \<rparr>)"

text \<open>Update one side's roster row and push the new item to that side's resources.\<close>

definition update_and_push :: "env \<Rightarrow> cstr \<Rightarrow> cstr \<Rightarrow> roster_item \<Rightarrow> cstr \<Rightarrow> server \<Rightarrow> server" where
  "update_and_push E owner contact item sub s =
     (let s1 = s\<lparr>db := snd (update_subscription E owner contact sub 0 (db s))\<rparr>
      in push_roster_to_bare_jid E owner (item\<lparr>subscription := snprintf 8 sub, ask := 0\<rparr>) s1)"

definition handle_subscribe :: "env \<Rightarrow> cstr \<Rightarrow> cstr \<Rightarrow> roster_item \<Rightarrow> roster_item \<Rightarrow> server \<Rightarrow> server" where
  "handle_subscribe E from_bare to_bare a_item b_item s =
     (let a_sub = subscription a_item; b_sub = subscription b_item;
          s1 =
            (if a_sub = ''to'' \<or> a_sub = ''both'' then s
             else
               (let s0 = s\<lparr>db := snd (update_subscription E from_bare to_bare a_sub 1 (db s))\<rparr>;
                    updated_a = (case storage_roster_get E from_bare to_bare (db s0) of
                                   Found i \<Rightarrow> i | _ \<Rightarrow> a_item)
                in push_roster_to_bare_jid E from_bare updated_a s0))
      in if b_sub = ''from'' \<or> b_sub = ''both'' then s1
         else broadcast_subscription_stanza E from_bare to_bare ''subscribe'' s1)"

text \<open>Gaining and losing the \<open>to\<close> and the \<open>from\<close> direction.\<close>

definition gain_to :: "cstr \<Rightarrow> cstr" where
  "gain_to sub = (if sub = ''none'' then ''to'' else if sub = ''from'' then ''both'' else sub)"

definition gain_from :: "cstr \<Rightarrow> cstr" where
  "gain_from sub = (if sub = ''none'' then ''from'' else if sub = ''to'' then ''both'' else sub)"

definition lose_to :: "cstr \<Rightarrow> cstr" where
  "lose_to sub = (if sub = ''to'' then ''none'' else if sub = ''both'' then ''from'' else sub)"

definition lose_from :: "cstr \<Rightarrow> cstr" where
  "lose_from sub = (if sub = ''from'' then ''none'' else if sub = ''both'' then ''to'' else sub)"

definition handle_subscribed :: "env \<Rightarrow> cstr \<Rightarrow> cstr \<Rightarrow> roster_item \<Rightarrow> roster_item \<Rightarrow> server \<Rightarrow> server" where
  "handle_subscribed E from_bare to_bare a_item b_item s =
     (let a_sub = subscription a_item; b_sub = subscription b_item;
          new_a_roster = gain_to b_sub; new_b_roster = gain_from a_sub
      in if \<not> (new_a_roster \<noteq> b_sub \<or> new_b_roster \<noteq> a_sub \<or> ask b_item \<noteq> 0) then s
         else
           (let s1 = update_and_push E to_bare from_bare b_item new_a_roster s;
                s2 = update_and_push E from_bare to_bare a_item new_b_roster s1;
                s3 = broadcast_subscription_stanza E from_bare to_bare ''subscribed'' s2
            in if new_b_roster = ''from'' \<or> new_b_roster = ''both''
               then xmpp_session_table_for_each_resource to_bare None
                      (send_presence_to_subscriber E from_bare) s3
               else s3))"

definition handle_unsubscribe :: "env \<Rightarrow> cstr \<Rightarrow> cstr \<Rightarrow> roster_item \<Rightarrow> roster_item \<Rightarrow> server \<Rightarrow> server" where
  "handle_unsubscribe E from_bare to_bare a_item b_item s =
     (let a_sub = subscription a_item; b_sub = subscription b_item;
          new_a_sub = lose_to a_sub; new_b_sub = lose_from b_sub;
          s1 = (if new_a_sub \<noteq> a_sub \<or> ask a_item \<noteq> 0
                then update_and_push E from_bare to_bare a_item new_a_sub s else s);
          s2 = (if new_b_sub \<noteq> b_sub
                then update_and_push E to_bare from_bare b_item new_b_sub s1 else s1);
          s3 = broadcast_subscription_stanza E from_bare to_bare ''unsubscribe'' s2
      in broadcast_subscription_stanza E to_bare from_bare ''unsubscribed'' s3)"

definition handle_unsubscribed :: "env \<Rightarrow> cstr \<Rightarrow> cstr \<Rightarrow> roster_item \<Rightarrow> roster_item \<Rightarrow> server \<Rightarrow> server" where
  "handle_unsubscribed E from_bare to_bare a_item b_item s =
     (let a_sub = subscription a_item; b_sub = subscription b_item;
          new_a_roster = lose_to b_sub; new_b_roster = lose_from a_sub;
          s1 = (if new_a_roster \<noteq> b_sub \<or> ask b_item \<noteq> 0
                then update_and_push E to_bare from_bare b_item new_a_roster s else s);
          s2 = (if new_b_roster \<noteq> a_sub
                then update_and_push E from_bare to_bare a_item new_b_roster s1 else s1)
      in broadcast_subscription_stanza E from_bare to_bare ''unsubscribed'' s2)"

definition handle_subscription :: "env \<Rightarrow> 's strophe \<Rightarrow> 's \<Rightarrow> cstr \<Rightarrow> cstr \<Rightarrow> server \<Rightarrow> server" where
  "handle_subscription E L st type from_bare s =
     (case get_attribute L st ''to'' of
        None \<Rightarrow> s
      | Some to_attr \<Rightarrow>
          if to_attr = [] then s
          else
            (let to_bare = bare to_attr;
                 a_item = roster_view E from_bare to_bare (db s);
                 b_item = roster_view E to_bare from_bare (db s)
             in if type = ''subscribe'' then handle_subscribe E from_bare to_bare a_item b_item s
                else if type = ''subscribed'' then handle_subscribed E from_bare to_bare a_item b_item s
                else if type = ''unsubscribe'' then handle_unsubscribe E from_bare to_bare a_item b_item s
                else if type = ''unsubscribed'' then handle_unsubscribed E from_bare to_bare a_item b_item s
                else s))"

subsection \<open>Availability\<close>

definition broadcast_to_subscriber :: "env \<Rightarrow> cstr \<Rightarrow> roster_item \<times> cstr list \<Rightarrow> server \<Rightarrow> server" where
  "broadcast_to_subscriber E stanza ig s =
     (let sub = subscription (fst ig) in
      if sub \<noteq> ''from'' \<and> sub \<noteq> ''both'' then s
      else broadcast_to_bare_jid E (contact_jid (fst ig)) stanza s)"

definition broadcast_presence :: "env \<Rightarrow> cstr \<Rightarrow> cstr \<Rightarrow> cstr option \<Rightarrow> server \<Rightarrow> server" where
  "broadcast_presence E from_bare from_full type s =
     (case build_presence_stanza from_full type of
        None \<Rightarrow> s
      | Some stanza \<Rightarrow>
          (let s1 = (if db_open_ok E
                     then fold (broadcast_to_subscriber E stanza)
                            (snd (storage_roster_list E from_bare (db s))) s
                     else s)
           in xmpp_session_table_broadcast_except E from_bare from_full stanza s1))"

definition handle_directed_presence :: "env \<Rightarrow> cstr \<Rightarrow> cstr option \<Rightarrow> server \<Rightarrow> server" where
  "handle_directed_presence E to type s =
     (let r = iq_append IQ_BUF_SIZE [] (presence_xml (bound_jid (ctx s)) (Some to) type) in
      if fst r \<noteq> 0 then s
      else if strchr to (CHR ''/'') = None then broadcast_to_bare_jid E to (snd r) s
      else
        (let w = xmpp_session_table_write E to (snd r) s in
         if fst w \<noteq> 0 then broadcast_to_bare_jid E to (snd r) (snd w) else snd w))"

text \<open>\<^verbatim>\<open>(int)strtol(text, NULL, 10)\<close>: blanks, a sign, decimal digits, saturation at the
  range of \<^verbatim>\<open>long\<close> and the conversion to 32 bits.\<close>

definition is_digit :: "char \<Rightarrow> bool" where
  "is_digit c \<longleftrightarrow> 48 \<le> (of_char c :: nat) \<and> (of_char c :: nat) \<le> 57"

definition is_space :: "char \<Rightarrow> bool" where
  "is_space c \<longleftrightarrow> of_char c = (32 :: nat) \<or> (9 \<le> (of_char c :: nat) \<and> (of_char c :: nat) \<le> 13)"

definition digits_value :: "cstr \<Rightarrow> int" where
  "digits_value ds = foldl (\<lambda>a c. a * 10 + (int (of_char c) - 48)) 0 ds"

definition strtol :: "cstr \<Rightarrow> int" where
  "strtol t =
     (let t1 = dropWhile is_space t;
          neg = (t1 \<noteq> [] \<and> hd t1 = CHR ''-'');
          t2 = (if t1 \<noteq> [] \<and> (hd t1 = CHR ''-'' \<or> hd t1 = CHR ''+'') then tl t1 else t1);
          v = digits_value (takeWhile is_digit t2);
          w = (if neg then - v else v)
      in max (- (2 ^ 63)) (min (2 ^ 63 - 1) w))"

definition to_int32 :: "int \<Rightarrow> int" where
  "to_int32 v = (v + 2 ^ 31) mod 2 ^ 32 - 2 ^ 31"

definition parse_priority :: "cstr \<Rightarrow> int" where
  "parse_priority text =
     (let prio = to_int32 (strtol text);
          prio1 = (if prio < - 128 then - 128 else prio)
      in if prio1 > 127 then 127 else prio1)"

definition handle_initial_presence :: "env \<Rightarrow> 's strophe \<Rightarrow> 's \<Rightarrow> cstr \<Rightarrow> server \<Rightarrow> server" where
  "handle_initial_presence E L st bare_jid s =
     (let s1 = xmpp_session_table_register E (write_ud (ctx s)) s;
          s2 = (case get_child_by_name L st ''priority'' of
                  None \<Rightarrow> s1
                | Some el \<Rightarrow>
                    (case get_text L el of
                       None \<Rightarrow> s1
                     | Some t \<Rightarrow>
                         xmpp_session_table_update_priority (bound_jid (ctx s)) (parse_priority t) s1))
      in broadcast_presence E bare_jid (bound_jid (ctx s)) None s2)"

definition xmpp_presence_handle :: "env \<Rightarrow> 's strophe \<Rightarrow> 's \<Rightarrow> server \<Rightarrow> server" where
  "xmpp_presence_handle E L st s =
     (let type = get_attribute L st ''type''; to = get_attribute L st ''to'';
          j = bound_jid (ctx s); bare_jid = bare j
      in if type \<in> {Some ''subscribe'', Some ''subscribed'', Some ''unsubscribe'', Some ''unsubscribed''}
         then handle_subscription E L st (the type) bare_jid s
         else if to \<noteq> None \<and> to \<noteq> Some [] then handle_directed_presence E (the to) type s
         else if type = Some ''unavailable''
         then xmpp_session_table_unregister j
                (broadcast_presence E bare_jid j (Some ''unavailable'') s)
         else if type = None \<or> type = Some [] then handle_initial_presence E L st bare_jid s
         else s)"

definition xmpp_presence_on_disconnect :: "env \<Rightarrow> cstr \<Rightarrow> cstr \<Rightarrow> server \<Rightarrow> server" where
  "xmpp_presence_on_disconnect E bound bare_jid s =
     (if \<not> xmpp_session_table_is_registered bound s then s
      else xmpp_session_table_unregister bound
             (broadcast_presence E bare_jid bound (Some ''unavailable'') s))"

subsection \<open>Frames\<close>

lemma broadcast_to_bare_frame [simp]:
  "ctx (broadcast_to_bare_jid E j d s) = ctx s"
  "g_sessions (broadcast_to_bare_jid E j d s) = g_sessions s"
  "db (broadcast_to_bare_jid E j d s) = db s"
  "stream_errors (broadcast_to_bare_jid E j d s) = stream_errors s"
  by (simp_all add: broadcast_to_bare_jid_def broadcast_to_bare_eq)

lemma subscription_stanza_frame [simp]:
  "ctx (broadcast_subscription_stanza E a b t s) = ctx s"
  "g_sessions (broadcast_subscription_stanza E a b t s) = g_sessions s"
  "db (broadcast_subscription_stanza E a b t s) = db s"
  "stream_errors (broadcast_subscription_stanza E a b t s) = stream_errors s"
  by (simp_all add: broadcast_subscription_stanza_def)

lemma push_roster_frame [simp]:
  "ctx (push_roster_to_bare_jid E j i s) = ctx s"
  "g_sessions (push_roster_to_bare_jid E j i s) = g_sessions s"
  "db (push_roster_to_bare_jid E j i s) = db s"
  "stream_errors (push_roster_to_bare_jid E j i s) = stream_errors s"
  by (simp_all add: push_roster_to_bare_jid_def Let_def)

lemma update_and_push_frame [simp]:
  "ctx (update_and_push E a b i sub s) = ctx s"
  "g_sessions (update_and_push E a b i sub s) = g_sessions s"
  "db (update_and_push E a b i sub s) = snd (update_subscription E a b sub 0 (db s))"
  "stream_errors (update_and_push E a b i sub s) = stream_errors s"
  by (simp_all add: update_and_push_def Let_def)

lemma fold_frame:
  assumes "\<And>x s. f (g x s) = f s"
  shows "f (fold g xs s) = f s"
  by (induction xs arbitrary: s) (simp_all add: assms)

lemma send_presence_to_subscriber_frame [simp]:
  "ctx (send_presence_to_subscriber E a j u s) = ctx s"
  "g_sessions (send_presence_to_subscriber E a j u s) = g_sessions s"
  "db (send_presence_to_subscriber E a j u s) = db s"
  "stream_errors (send_presence_to_subscriber E a j u s) = stream_errors s"
  by (simp_all add: send_presence_to_subscriber_def broadcast_to_bare_eq split: option.splits)

lemma for_each_resource_frame:
  assumes "\<And>j u s. f (cb j u s) = f s"
  shows "f (xmpp_session_table_for_each_resource bj excl cb s) = f s"
  unfolding xmpp_session_table_for_each_resource_def
  by (rule fold_frame) (simp add: assms)

lemma handle_subscribe_frame [simp]:
  "ctx (handle_subscribe E fb tb a b s) = ctx s"
  "g_sessions (handle_subscribe E fb tb a b s) = g_sessions s"
  "stream_errors (handle_subscribe E fb tb a b s) = stream_errors s"
  unfolding handle_subscribe_def Let_def
  by (simp_all split del: if_split add: if_distrib [where f = ctx]
      if_distrib [where f = g_sessions] if_distrib [where f = stream_errors] cong: if_cong)

lemma handle_subscribed_frame [simp]:
  "ctx (handle_subscribed E fb tb a b s) = ctx s"
  "g_sessions (handle_subscribed E fb tb a b s) = g_sessions s"
  "stream_errors (handle_subscribed E fb tb a b s) = stream_errors s"
  unfolding handle_subscribed_def Let_def
  by (simp_all split del: if_split add: if_distrib [where f = ctx]
      if_distrib [where f = g_sessions] if_distrib [where f = stream_errors] for_each_resource_frame cong: if_cong)

lemma handle_unsubscribe_frame [simp]:
  "ctx (handle_unsubscribe E fb tb a b s) = ctx s"
  "g_sessions (handle_unsubscribe E fb tb a b s) = g_sessions s"
  "stream_errors (handle_unsubscribe E fb tb a b s) = stream_errors s"
  unfolding handle_unsubscribe_def Let_def
  by (simp_all split del: if_split add: if_distrib [where f = ctx]
      if_distrib [where f = g_sessions] if_distrib [where f = stream_errors] cong: if_cong)

lemma handle_unsubscribed_frame [simp]:
  "ctx (handle_unsubscribed E fb tb a b s) = ctx s"
  "g_sessions (handle_unsubscribed E fb tb a b s) = g_sessions s"
  "stream_errors (handle_unsubscribed E fb tb a b s) = stream_errors s"
  unfolding handle_unsubscribed_def Let_def
  by (simp_all split del: if_split add: if_distrib [where f = ctx]
      if_distrib [where f = g_sessions] if_distrib [where f = stream_errors] cong: if_cong)

lemma handle_subscription_frame [simp]:
  "ctx (handle_subscription E L st ty fb s) = ctx s"
  "g_sessions (handle_subscription E L st ty fb s) = g_sessions s"
  "stream_errors (handle_subscription E L st ty fb s) = stream_errors s"
  unfolding handle_subscription_def Let_def by (auto split: option.splits)

subsection \<open>Who receives a presence broadcast\<close>

definition to_resources :: "(session_entry \<Rightarrow> bool) \<Rightarrow> cstr \<Rightarrow> session_entry list \<Rightarrow> (sink \<times> cstr) list" where
  "to_resources P d es = map (\<lambda>e. (e_write_ud e, d)) (filter P es)"

text \<open>A contact's subscription to us, and ours to a contact.\<close>

definition has_from :: "cstr \<Rightarrow> bool" where
  "has_from sub \<longleftrightarrow> sub = ''from'' \<or> sub = ''both''"

definition has_to :: "cstr \<Rightarrow> bool" where
  "has_to sub \<longleftrightarrow> sub = ''to'' \<or> sub = ''both''"

definition subscribers :: "cstr \<Rightarrow> database \<Rightarrow> cstr list" where
  "subscribers owner d =
     map (\<lambda>r. take 2047 (r_contact r))
       (filter (\<lambda>r. r_owner r = owner \<and> has_from (take 7 (r_subscription r))) (roster d))"

definition presence_out :: "cstr \<Rightarrow> cstr \<Rightarrow> cstr \<Rightarrow> server \<Rightarrow> (sink \<times> cstr) list" where
  "presence_out from_bare from_full stanza s =
     concat (map (\<lambda>c. to_resources (\<lambda>e. bare (e_jid e) = c) stanza (g_sessions s))
               (subscribers from_bare (db s))) @
     to_resources (\<lambda>e. bare (e_jid e) = from_bare \<and> e_jid e \<noteq> from_full) stanza (g_sessions s)"

lemma broadcast_to_subscriber_eq:
  "broadcast_to_subscriber E stanza ig s =
     s\<lparr>sent := sent s @ (if has_from (subscription (fst ig))
        then to_resources (\<lambda>e. bare (e_jid e) = contact_jid (fst ig)) stanza (g_sessions s) else [])\<rparr>"
  by (simp add: broadcast_to_subscriber_def broadcast_to_bare_jid_def broadcast_to_bare_eq
      to_resources_def has_from_def Let_def)

lemma fold_subscribers:
  "fold (broadcast_to_subscriber E stanza) igs s =
     s\<lparr>sent := sent s @ concat (map (\<lambda>ig. to_resources (\<lambda>e. bare (e_jid e) = contact_jid (fst ig))
         stanza (g_sessions s)) (filter (\<lambda>ig. has_from (subscription (fst ig))) igs))\<rparr>"
  by (induction igs arbitrary: s) (simp_all add: broadcast_to_subscriber_eq)

lemma filter_map_filter:
  "filter P (map f (filter Q xs)) = map f (filter (\<lambda>x. Q x \<and> P (f x)) xs)"
  by (simp add: filter_map o_def conj_commute)

lemma subscribers_list:
  "sql_runs E SQL_ROSTER_LIST \<Longrightarrow>
     map (\<lambda>ig. h (contact_jid (fst ig))) (filter (\<lambda>ig. has_from (subscription (fst ig)))
         (snd (storage_roster_list E owner d))) = map h (subscribers owner d)"
  by (simp add: storage_roster_list_def sql_runs_def subscribers_def filter_map_filter Let_def
      item_of_row_def o_def)

lemma broadcast_presence_eq:
  assumes "sql_runs E SQL_ROSTER_LIST"
    and "length (presence_xml from_full None type) < IQ_BUF_SIZE"
  shows "broadcast_presence E from_bare from_full type s =
    s\<lparr>sent := sent s @ presence_out from_bare from_full (presence_xml from_full None type) s\<rparr>"
proof -
  have "build_presence_stanza from_full type = Some (presence_xml from_full None type)"
    using assms(2) by (simp add: build_presence_stanza_def iq_append_def)
  moreover have "db_open_ok E" using assms(1) by (simp add: sql_runs_def)
  ultimately show ?thesis
    by (simp add: broadcast_presence_def fold_subscribers broadcast_except_eq presence_out_def
        to_resources_def Let_def
        subscribers_list [OF assms(1),
          where h = "\<lambda>c. map (\<lambda>e. (e_write_ud e, x)) (filter (\<lambda>e. bare (e_jid e) = c) es)" for x es])
qed

lemma broadcast_presence_frame [simp]:
  "ctx (broadcast_presence E fb ff ty s) = ctx s"
  "g_sessions (broadcast_presence E fb ff ty s) = g_sessions s"
  "db (broadcast_presence E fb ff ty s) = db s"
  "stream_errors (broadcast_presence E fb ff ty s) = stream_errors s"
  by (simp_all add: broadcast_presence_def broadcast_except_eq fold_subscribers Let_def
      split: option.splits)

lemma handle_directed_frame [simp]:
  "ctx (handle_directed_presence E to ty s) = ctx s"
  "g_sessions (handle_directed_presence E to ty s) = g_sessions s"
  "db (handle_directed_presence E to ty s) = db s"
  "stream_errors (handle_directed_presence E to ty s) = stream_errors s"
  by (simp_all add: handle_directed_presence_def Let_def)

lemma update_priority_frame [simp]:
  "ctx (xmpp_session_table_update_priority j p s) = ctx s"
  "db (xmpp_session_table_update_priority j p s) = db s"
  "sent (xmpp_session_table_update_priority j p s) = sent s"
  "stream_errors (xmpp_session_table_update_priority j p s) = stream_errors s"
  by (simp_all add: xmpp_session_table_update_priority_def)

lemma presence_handle_frame [simp]:
  "ctx (xmpp_presence_handle E L st s) = ctx s"
  "stream_errors (xmpp_presence_handle E L st s) = stream_errors s"
  by (simp_all add: xmpp_presence_handle_def handle_initial_presence_def Let_def
      split: option.splits)

lemma table_inv_cong: "g_sessions s' = g_sessions s \<Longrightarrow> table_inv s' = table_inv s"
  by (simp add: table_inv_def)

lemma update_priority_table_inv:
  "table_inv s \<Longrightarrow> table_inv (xmpp_session_table_update_priority j p s)"
  by (simp add: xmpp_session_table_update_priority_def st.invar_modify)

lemma presence_handle_table_inv:
  assumes "table_inv s" "length (bound_jid (ctx s)) < JID_BUF_SIZE"
  shows "table_inv (xmpp_presence_handle E L st s)"
proof -
  have b: "table_inv (broadcast_presence E fb ff ty x) = table_inv x" for fb ff ty x
    by (rule table_inv_cong) simp
  have sub: "table_inv (handle_subscription E L st ty fb x) = table_inv x" for ty fb x
    by (rule table_inv_cong) simp
  have dir: "table_inv (handle_directed_presence E to ty x) = table_inv x" for to ty x
    by (rule table_inv_cong) simp
  have un: "table_inv x \<Longrightarrow> table_inv (xmpp_session_table_unregister j x)" for j x
    by (rule st.invar_remove)
  note reg = register_table_inv [OF assms, of E "write_ud (ctx s)"]
  show ?thesis using assms(1) reg
    by (auto simp: xmpp_presence_handle_def handle_initial_presence_def b sub dir un Let_def
        update_priority_table_inv split: option.splits)
qed

lemma presence_disconnect_table_inv:
  "table_inv s \<Longrightarrow> table_inv (xmpp_presence_on_disconnect E j b s)"
  using table_inv_cong [of "broadcast_presence E b j (Some ''unavailable'') s" s]
  by (auto simp: xmpp_presence_on_disconnect_def intro: st.invar_remove)

lemma presence_handle_owners:
  assumes "length (bound_jid (ctx s)) < JID_BUF_SIZE"
  shows "owners (xmpp_presence_handle E L st s) \<subseteq> insert (bound_jid (ctx s), write_ud (ctx s)) (owners s)"
proof -
  have b: "owners (broadcast_presence E fb ff ty x) = owners x" for fb ff ty x
    by (rule owners_cong) simp
  have sub: "owners (handle_subscription E L st ty fb x) = owners x" for ty fb x
    by (rule owners_cong) simp
  have dir: "owners (handle_directed_presence E to ty x) = owners x" for to ty x
    by (rule owners_cong) simp
  have un: "owners (xmpp_session_table_unregister j (broadcast_presence E fb ff ty x)) \<subseteq> owners x" for j fb ff ty x
    using unregister_owners [of j "broadcast_presence E fb ff ty x"] b by simp
  have prio: "owners (xmpp_session_table_update_priority j p x) = owners x" for j p x
    unfolding xmpp_session_table_update_priority_def by (rule update_entry_owners) simp
  have ini: "owners (handle_initial_presence E L st bj s) = owners (xmpp_session_table_register E (write_ud (ctx s)) s)" for bj
    by (simp add: handle_initial_presence_def Let_def b prio split: option.split)
  show ?thesis
    using un [of "bound_jid (ctx s)" "bare (bound_jid (ctx s))" "bound_jid (ctx s)" "Some ''unavailable''" s]
      register_owners [OF assms, of E "write_ud (ctx s)"]
    by (auto simp: xmpp_presence_handle_def Let_def sub dir ini)
qed

lemma presence_disconnect_owners:
  assumes "table_inv s"
  shows "owners (xmpp_presence_on_disconnect E j b s) \<subseteq> owners s" "(j, u) \<notin> owners (xmpp_presence_on_disconnect E j b s)"
proof -
  let ?s = "broadcast_presence E b j (Some ''unavailable'') s"
  have o: "owners ?s = owners s" and t: "table_inv ?s"
    using owners_cong [of ?s s] table_inv_cong [of ?s s] assms by simp_all
  show "owners (xmpp_presence_on_disconnect E j b s) \<subseteq> owners s"
    using unregister_owners [of j ?s] o by (simp add: xmpp_presence_on_disconnect_def)
  have "\<not> xmpp_session_table_is_registered j s \<Longrightarrow> (j, u) \<notin> owners s"
    by (auto simp: is_registered_iff session_lookup_def entry_map_None owners_def)
  then show "(j, u) \<notin> owners (xmpp_presence_on_disconnect E j b s)"
    using unregister_removes [OF t] by (auto simp: xmpp_presence_on_disconnect_def)
qed

lemma parse_priority_range: "- 128 \<le> parse_priority t \<and> parse_priority t \<le> 127"
  by (simp add: parse_priority_def Let_def)

subsection \<open>The subscription state machine\<close>

text \<open>The abstract state: for an owner and a contact, the owner's subscription to it.\<close>

type_synonym subs = "cstr \<Rightarrow> cstr \<Rightarrow> cstr"

definition sub_of :: "database \<Rightarrow> subs" where
  "sub_of d owner contact =
     (case find (roster_key owner contact) (roster d) of None \<Rightarrow> ''none'' | Some r \<Rightarrow> r_subscription r)"

definition set_sub :: "cstr \<Rightarrow> cstr \<Rightarrow> 'v \<Rightarrow> (cstr \<Rightarrow> cstr \<Rightarrow> 'v) \<Rightarrow> cstr \<Rightarrow> cstr \<Rightarrow> 'v" where
  "set_sub owner contact v m = (\<lambda>x y. if x = owner \<and> y = contact then v else m x y)"

text \<open>Whether the owner has a request to the contact pending, the column \<^verbatim>\<open>ask\<close>.\<close>

definition ask_of :: "database \<Rightarrow> cstr \<Rightarrow> cstr \<Rightarrow> int" where
  "ask_of d owner contact =
     (case find (roster_key owner contact) (roster d) of None \<Rightarrow> 0 | Some r \<Rightarrow> r_ask r)"

text \<open>The abstract transition for a stanza from \<open>a\<close> to \<open>b\<close>.\<close>

definition sub_step :: "cstr \<Rightarrow> cstr \<Rightarrow> cstr \<Rightarrow> subs \<Rightarrow> subs" where
  "sub_step ty a b m =
     (if ty = ''subscribed'' then set_sub a b (gain_from (m a b)) (set_sub b a (gain_to (m b a)) m)
      else if ty = ''unsubscribe'' then set_sub b a (lose_from (m b a)) (set_sub a b (lose_to (m a b)) m)
      else if ty = ''unsubscribed'' then set_sub a b (lose_from (m a b)) (set_sub b a (lose_to (m b a)) m)
      else m)"

definition sub_value :: "cstr \<Rightarrow> bool" where
  "sub_value v \<longleftrightarrow> v = ''none'' \<or> v = ''to'' \<or> v = ''from'' \<or> v = ''both''"

definition subs_ok :: "subs \<Rightarrow> bool" where
  "subs_ok m \<longleftrightarrow> (\<forall>a b. sub_value (m a b))"

text \<open>Whenever \<open>a\<close> is subscribed to \<open>b\<close>, \<open>b\<close> has \<open>a\<close> as a subscriber, and conversely.\<close>

definition mirrored :: "subs \<Rightarrow> bool" where
  "mirrored m \<longleftrightarrow> (\<forall>a b. a \<noteq> b \<longrightarrow> (has_to (m a b) \<longleftrightarrow> has_from (m b a)))"

lemma sub_value_cases:
  assumes "sub_value v"
  obtains "v = ''none''" | "v = ''to''" | "v = ''from''" | "v = ''both''"
  using assms by (auto simp: sub_value_def)

lemma sub_value_ops:
  assumes "sub_value v"
  shows "sub_value (gain_to v)" "sub_value (gain_from v)" "sub_value (lose_to v)" "sub_value (lose_from v)"
  using assms
  by (auto simp: sub_value_def gain_to_def gain_from_def lose_to_def lose_from_def)

lemma direction_ops:
  assumes "sub_value v"
  shows "has_to (gain_to v)" "has_from (gain_to v) = has_from v"
    and "has_from (gain_from v)" "has_to (gain_from v) = has_to v"
    and "\<not> has_to (lose_to v)" "has_from (lose_to v) = has_from v"
    and "\<not> has_from (lose_from v)" "has_to (lose_from v) = has_to v"
  using assms
  by (auto simp: sub_value_def has_to_def has_from_def gain_to_def gain_from_def
      lose_to_def lose_from_def)

lemma subs_ok_step: "subs_ok m \<Longrightarrow> subs_ok (sub_step ty a b m)"
  by (simp add: subs_ok_def sub_step_def set_sub_def sub_value_ops)

lemma mirrored_step:
  assumes "subs_ok m" "mirrored m" "a \<noteq> b"
  shows "mirrored (sub_step ty a b m)"
  using assms direction_ops [of "m a b"] direction_ops [of "m b a"]
  by (auto simp: mirrored_def subs_ok_def sub_step_def set_sub_def)

text \<open>Roster rows under an update of one key.\<close>

lemma roster_key_upsert:
  "find (roster_key o1 c1) (upsert_row r rs) =
     (if roster_key o1 c1 r then Some r else find (roster_key o1 c1) rs)"
proof (cases "find_index (roster_key (r_owner r) (r_contact r)) rs")
  case None
  then have "\<forall>x\<in>set rs. \<not> roster_key (r_owner r) (r_contact r) x"
    by (simp add: find_index_None)
  then have "find (roster_key (r_owner r) (r_contact r)) rs = None"
    by (simp add: find_None_iff)
  then show ?thesis using None
    by (auto simp: upsert_row_def roster_key_def find_append split: option.splits)
next
  case (Some i)
  have "find (roster_key o1 c1) (rs[i := r]) =
      (if roster_key o1 c1 r then Some r else find (roster_key o1 c1) rs)"
    using Some
  proof (induction rs arbitrary: i)
    case (Cons x rs)
    show ?case
    proof (cases "roster_key (r_owner r) (r_contact r) x")
      case False
      then obtain k where k: "find_index (roster_key (r_owner r) (r_contact r)) rs = Some k" "i = Suc k"
        using Cons.prems by auto
      have "roster_key o1 c1 r \<Longrightarrow> \<not> roster_key o1 c1 x"
        using False by (auto simp: roster_key_def)
      then show ?thesis using Cons.IH [OF k(1)] k(2) by simp
    qed (use Cons.prems in \<open>auto simp: roster_key_def\<close>)
  qed simp
  then show ?thesis using Some by (simp add: upsert_row_def)
qed

lemma roster_ver_increment_frame [simp]:
  "roster (snd (roster_ver_increment E owner d)) = roster d"
  "roster_groups (snd (roster_ver_increment E owner d)) = roster_groups d"
  "blocklist (snd (roster_ver_increment E owner d)) = blocklist d"
  "offline_messages (snd (roster_ver_increment E owner d)) = offline_messages d"
  "users (snd (roster_ver_increment E owner d)) = users d"
  by (simp_all add: roster_ver_increment_def rebuild_and_store_ver_def Let_def split: option.splits)

lemma fold_insert_group_roster [simp]:
  "roster (fold (insert_group owner contact) gs d) = roster d"
  by (induction gs arbitrary: d) (simp_all add: insert_group_def)

definition roster_sql_ok :: "env \<Rightarrow> bool" where
  "roster_sql_ok E \<longleftrightarrow> sql_runs E SQL_ROSTER_GET \<and> sql_runs E SQL_ROSTER_UPSERT \<and>
     sql_runs E SQL_GROUPS_DELETE"

lemma upsert_roster:
  "roster_sql_ok E \<Longrightarrow>
     roster (snd (storage_roster_upsert E owner item [] d)) =
       upsert_row (row_of_item owner item) (roster d)"
  by (simp add: storage_roster_upsert_def roster_sql_ok_def sql_runs_def Let_def)

lemma sub_value_length: "sub_value v \<Longrightarrow> v \<noteq> [] \<and> length v < 8"
  by (auto simp: sub_value_def)

lemma roster_get_contact:
  assumes "storage_roster_get E owner contact d = Found i" "length contact < ROSTER_JID_MAX"
  shows "contact_jid i = contact"
  using assms
  by (auto simp: storage_roster_get_def item_of_row_def roster_key_def find_Some_iff
      split: if_splits option.splits)

lemma update_subscription_sub:
  assumes "roster_sql_ok E" "length contact < ROSTER_JID_MAX" "sub_value v"
  shows "sub_of (snd (update_subscription E owner contact v k d)) = set_sub owner contact v (sub_of d)"
    and "ask_of (snd (update_subscription E owner contact v k d)) = set_sub owner contact k (ask_of d)"
proof -
  define item where "item = (case storage_roster_get E owner contact d of Found i \<Rightarrow> i
    | _ \<Rightarrow> \<lparr> contact_jid = snprintf ROSTER_JID_MAX contact, name = [], subscription = [], ask = 0 \<rparr>)"
  let ?item = "item\<lparr>subscription := snprintf 8 v, ask := k\<rparr>"
  have c: "contact_jid item = contact"
    using assms(2) roster_get_contact [OF _ assms(2)] by (auto simp: item_def split: fetched.splits)
  have r: "roster (snd (update_subscription E owner contact v k d)) =
      upsert_row (row_of_item owner ?item) (roster d)"
    using assms(1) upsert_roster [OF assms(1)]
    by (simp add: update_subscription_def item_def Let_def roster_sql_ok_def sql_runs_def)
  have k: "roster_key x y (row_of_item owner ?item) \<longleftrightarrow> x = owner \<and> y = contact" for x y
    using c by (auto simp: roster_key_def row_of_item_def)
  have "r_subscription (row_of_item owner ?item) = v" "r_ask (row_of_item owner ?item) = k"
    using sub_value_length [OF assms(3)] by (simp_all add: row_of_item_def)
  then show "sub_of (snd (update_subscription E owner contact v k d)) = set_sub owner contact v (sub_of d)"
    "ask_of (snd (update_subscription E owner contact v k d)) = set_sub owner contact k (ask_of d)"
    using k by (simp_all add: fun_eq_iff sub_of_def ask_of_def r roster_key_upsert set_sub_def)
qed

lemma roster_view_ask:
  "roster_sql_ok E \<Longrightarrow> ask (roster_view E owner contact d) = ask_of d owner contact"
  by (auto simp: roster_view_def storage_roster_get_def ask_of_def roster_sql_ok_def sql_runs_def
      item_of_row_def split: option.splits)

lemma roster_view_sub:
  assumes "roster_sql_ok E" "sub_value (sub_of d owner contact)"
  shows "subscription (roster_view E owner contact d) = sub_of d owner contact"
  using assms sub_value_length [OF assms(2)]
  by (auto simp: roster_view_def storage_roster_get_def sub_of_def roster_sql_ok_def sql_runs_def
      item_of_row_def split: option.splits)

lemma set_sub_same [simp]: "set_sub a b (m a b) m = m"
  by (intro ext) (simp add: set_sub_def)

lemma set_sub_noop [simp]: "b \<noteq> a \<Longrightarrow> set_sub a b (m a b) (set_sub b a v m) = set_sub b a v m"
  by (intro ext) (auto simp: set_sub_def)

text \<open>Each handler moves the stored subscriptions as the abstract machine does.\<close>

lemma handle_subscribe_sub:
  assumes "roster_sql_ok E" "length tb < ROSTER_JID_MAX" "sub_value (sub_of (db s) fb tb)"
    and "subscription a_item = sub_of (db s) fb tb"
  shows "sub_of (db (handle_subscribe E fb tb a_item b_item s)) = sub_of (db s)"
  using assms
  by (simp add: handle_subscribe_def Let_def update_subscription_sub)

lemma handle_subscribed_sub:
  assumes "roster_sql_ok E" "length tb < ROSTER_JID_MAX" "length fb < ROSTER_JID_MAX"
    and "sub_value (sub_of (db s) fb tb)" "sub_value (sub_of (db s) tb fb)"
    and "subscription a_item = sub_of (db s) fb tb" "subscription b_item = sub_of (db s) tb fb"
  shows "sub_of (db (handle_subscribed E fb tb a_item b_item s)) =
    sub_step ''subscribed'' fb tb (sub_of (db s))"
  using assms
  by (simp add: handle_subscribed_def sub_step_def Let_def update_subscription_sub sub_value_ops
      for_each_resource_frame)

lemma handle_unsubscribe_sub:
  assumes "roster_sql_ok E" "length tb < ROSTER_JID_MAX" "length fb < ROSTER_JID_MAX"
    and "sub_value (sub_of (db s) fb tb)" "sub_value (sub_of (db s) tb fb)" "fb \<noteq> tb"
    and "subscription a_item = sub_of (db s) fb tb" "subscription b_item = sub_of (db s) tb fb"
  shows "sub_of (db (handle_unsubscribe E fb tb a_item b_item s)) =
    sub_step ''unsubscribe'' fb tb (sub_of (db s))"
  using assms
  by (simp add: handle_unsubscribe_def sub_step_def Let_def update_subscription_sub sub_value_ops)

lemma handle_unsubscribed_sub:
  assumes "roster_sql_ok E" "length tb < ROSTER_JID_MAX" "length fb < ROSTER_JID_MAX"
    and "sub_value (sub_of (db s) fb tb)" "sub_value (sub_of (db s) tb fb)" "fb \<noteq> tb"
    and "subscription a_item = sub_of (db s) fb tb" "subscription b_item = sub_of (db s) tb fb"
  shows "sub_of (db (handle_unsubscribed E fb tb a_item b_item s)) =
    sub_step ''unsubscribed'' fb tb (sub_of (db s))"
  using assms
  by (simp add: handle_unsubscribed_def sub_step_def Let_def update_subscription_sub sub_value_ops)

lemma handle_subscription_sub:
  assumes "roster_sql_ok E" "subs_ok (sub_of (db s))" "get_attribute L st ''to'' = Some to" "to \<noteq> []"
    and "length (bare to) < ROSTER_JID_MAX" "length fb < ROSTER_JID_MAX" "fb \<noteq> bare to"
  shows "sub_of (db (handle_subscription E L st ty fb s)) = sub_step ty fb (bare to) (sub_of (db s))"
proof -
  have v: "sub_value (sub_of (db s) x y)" for x y
    using assms(2) by (simp add: subs_ok_def)
  note view = roster_view_sub [OF assms(1) v]
  consider "ty = ''subscribe''" | "ty = ''subscribed''" | "ty = ''unsubscribe''"
    | "ty = ''unsubscribed''"
    | "ty \<noteq> ''subscribe''" "ty \<noteq> ''subscribed''" "ty \<noteq> ''unsubscribe''" "ty \<noteq> ''unsubscribed''"
    by blast
  then show ?thesis
  proof cases
    case 1
    then show ?thesis using assms handle_subscribe_sub [OF assms(1,5) v view]
      by (simp add: handle_subscription_def sub_step_def Let_def)
  next
    case 2
    then show ?thesis using assms handle_subscribed_sub [OF assms(1,5,6) v v view view]
      by (simp add: handle_subscription_def Let_def)
  next
    case 3
    then show ?thesis using assms handle_unsubscribe_sub [OF assms(1,5,6) v v assms(7) view view]
      by (simp add: handle_subscription_def Let_def)
  next
    case 4
    then show ?thesis using assms handle_unsubscribed_sub [OF assms(1,5,6) v v assms(7) view view]
      by (simp add: handle_subscription_def Let_def)
  next
    case 5
    then show ?thesis using assms by (simp add: handle_subscription_def sub_step_def Let_def)
  qed
qed

text \<open>The pending requests under each handler. Approving or cancelling also clears the other
  side's column, hence the hypotheses that no request is pending there.\<close>

lemma set_sub_absorb: "m a b = v \<Longrightarrow> set_sub a b v m = m"
  by auto

lemma handle_subscribe_ask:
  assumes "roster_sql_ok E" "length tb < ROSTER_JID_MAX" "sub_value (subscription a_item)"
  shows "ask_of (db (handle_subscribe E fb tb a_item b_item s)) =
    (if has_to (subscription a_item) then ask_of (db s) else set_sub fb tb 1 (ask_of (db s)))"
  using assms by (auto simp: handle_subscribe_def Let_def update_subscription_sub has_to_def)

lemma handle_subscribed_ask:
  assumes "roster_sql_ok E" "length tb < ROSTER_JID_MAX" "length fb < ROSTER_JID_MAX"
    and "sub_value (subscription a_item)" "sub_value (subscription b_item)" "ask b_item \<noteq> 0"
  shows "ask_of (db (handle_subscribed E fb tb a_item b_item s)) =
    set_sub fb tb 0 (set_sub tb fb 0 (ask_of (db s)))"
  using assms
  by (simp add: handle_subscribed_def Let_def update_subscription_sub sub_value_ops for_each_resource_frame)

lemma handle_unsubscribe_ask:
  assumes "roster_sql_ok E" "length tb < ROSTER_JID_MAX" "length fb < ROSTER_JID_MAX"
    and "sub_value (subscription a_item)" "sub_value (subscription b_item)" "fb \<noteq> tb"
    and "ask a_item = ask_of (db s) fb tb" "ask_of (db s) tb fb = 0"
  shows "ask_of (db (handle_unsubscribe E fb tb a_item b_item s)) = set_sub fb tb 0 (ask_of (db s))"
  using assms
  by (auto simp: handle_unsubscribe_def Let_def update_subscription_sub sub_value_ops set_sub_def fun_eq_iff)

lemma handle_unsubscribed_ask:
  assumes "roster_sql_ok E" "length tb < ROSTER_JID_MAX" "length fb < ROSTER_JID_MAX"
    and "sub_value (subscription a_item)" "sub_value (subscription b_item)" "fb \<noteq> tb"
    and "ask b_item = ask_of (db s) tb fb" "ask_of (db s) fb tb = 0"
  shows "ask_of (db (handle_unsubscribed E fb tb a_item b_item s)) = set_sub tb fb 0 (ask_of (db s))"
  using assms
  by (auto simp: handle_unsubscribed_def Let_def update_subscription_sub sub_value_ops set_sub_def fun_eq_iff)

text \<open>The specification: who is subscribed to whom and whose request is pending, as relations, and
  what each stanza from \<open>a\<close> to \<open>b\<close> does to them. The roster of the subscriber and the roster
  of the contact each hold a copy of the first relation; the second is kept by the requester only.\<close>

definition subscription_spec ::
    "cstr \<Rightarrow> cstr \<Rightarrow> cstr \<Rightarrow> (cstr \<times> cstr) set \<times> (cstr \<times> cstr) set \<Rightarrow> (cstr \<times> cstr) set \<times> (cstr \<times> cstr) set" where
  "subscription_spec ty a b = (\<lambda>(R, Q).
     if ty = ''subscribe'' then (R, if (a, b) \<in> R then Q else Q \<union> {(a, b)})
     else if ty = ''subscribed'' then (R \<union> {(b, a)}, Q - {(b, a)})
     else if ty = ''unsubscribe'' then (R - {(a, b)}, Q - {(a, b)})
     else if ty = ''unsubscribed'' then (R - {(b, a)}, Q - {(b, a)})
     else (R, Q))"

text \<open>The cases the specification speaks about: an approval answers a pending request, and the
  two users have no requests that cross.\<close>

definition orderly :: "cstr \<Rightarrow> cstr \<Rightarrow> cstr \<Rightarrow> (cstr \<times> cstr) set \<Rightarrow> bool" where
  "orderly ty a b Q \<longleftrightarrow>
     (ty = ''subscribed'' \<longrightarrow> (b, a) \<in> Q) \<and>
     (ty \<in> {''subscribed'', ''unsubscribed''} \<longrightarrow> (a, b) \<notin> Q) \<and>
     (ty = ''unsubscribe'' \<longrightarrow> (b, a) \<notin> Q)"

definition subscriber_side :: "subs \<Rightarrow> (cstr \<times> cstr) set" where
  "subscriber_side m = {(a, b). has_to (m a b)}"

definition contact_side :: "subs \<Rightarrow> (cstr \<times> cstr) set" where
  "contact_side m = {(a, b). has_from (m b a)}"

definition requests :: "database \<Rightarrow> (cstr \<times> cstr) set" where
  "requests d = {(a, b). ask_of d a b \<noteq> 0}"

lemma sub_step_sides:
  assumes "subs_ok m" "a \<noteq> b"
  shows "subscriber_side (sub_step ty a b m) = fst (subscription_spec ty a b (subscriber_side m, Q))"
    and "contact_side (sub_step ty a b m) = fst (subscription_spec ty a b (contact_side m, Q))"
  using assms direction_ops [of "m a b"] direction_ops [of "m b a"]
  by (auto simp: subs_ok_def sub_step_def subscription_spec_def set_sub_def subscriber_side_def
      contact_side_def split: if_splits)

lemma handle_subscription_requests:
  assumes "roster_sql_ok E" "subs_ok (sub_of (db s))" "get_attribute L st ''to'' = Some to" "to \<noteq> []"
    and "length (bare to) < ROSTER_JID_MAX" "length fb < ROSTER_JID_MAX" "fb \<noteq> bare to"
    and "ty \<in> {''subscribe'', ''subscribed'', ''unsubscribe'', ''unsubscribed''}"
    and "orderly ty fb (bare to) (requests (db s))"
  shows "requests (db (handle_subscription E L st ty fb s)) =
    snd (subscription_spec ty fb (bare to) (subscriber_side (sub_of (db s)), requests (db s)))"
proof -
  let ?tb = "bare to"
  let ?a = "roster_view E fb ?tb (db s)" and ?b = "roster_view E ?tb fb (db s)"
  have v: "sub_value (sub_of (db s) x y)" for x y using assms(2) by (simp add: subs_ok_def)
  have view: "subscription (roster_view E x y (db s)) = sub_of (db s) x y" for x y
    by (rule roster_view_sub [OF assms(1) v])
  then have va: "sub_value (subscription ?a)" and vb: "sub_value (subscription ?b)" using v by simp_all
  note ask = roster_view_ask [OF assms(1)]
  from assms(8) consider "ty = ''subscribe''" | "ty = ''subscribed''" | "ty = ''unsubscribe''" | "ty = ''unsubscribed''"
    by blast
  then show ?thesis
  proof cases
    case 1
    then show ?thesis
      using assms(3,4) handle_subscribe_ask [OF assms(1,5) va, of fb ?b s] view [of fb ?tb]
      by (auto simp: handle_subscription_def Let_def subscription_spec_def requests_def subscriber_side_def set_sub_def)
  next
    case 2
    then have "ask_of (db s) ?tb fb \<noteq> 0" "ask_of (db s) fb ?tb = 0"
      using assms(9) by (simp_all add: orderly_def requests_def)
    then show ?thesis
      using 2 assms(3,4) handle_subscribed_ask [OF assms(1,5,6) va vb, of s] ask [of ?tb fb]
      by (auto simp: handle_subscription_def Let_def subscription_spec_def requests_def set_sub_def)
  next
    case 3
    then have "ask_of (db s) ?tb fb = 0" using assms(9) by (simp add: orderly_def requests_def)
    then show ?thesis
      using 3 assms(3,4) handle_unsubscribe_ask [OF assms(1,5,6) va vb assms(7) ask]
      by (auto simp: handle_subscription_def Let_def subscription_spec_def requests_def set_sub_def)
  next
    case 4
    then have "ask_of (db s) fb ?tb = 0" using assms(9) by (simp add: orderly_def requests_def)
    then show ?thesis
      using 4 assms(3,4) handle_unsubscribed_ask [OF assms(1,5,6) va vb assms(7) ask]
      by (auto simp: handle_subscription_def Let_def subscription_spec_def requests_def set_sub_def)
  qed
qed

lemma presence_is_subscription:
  "get_attribute L st ''type'' = Some ty \<Longrightarrow>
     ty \<in> {''subscribe'', ''subscribed'', ''unsubscribe'', ''unsubscribed''} \<Longrightarrow>
     xmpp_presence_handle E L st s = handle_subscription E L st ty (bare (bound_jid (ctx s))) s"
  by (auto simp: xmpp_presence_handle_def Let_def)

subsection \<open>Properties\<close>

text \<open>C12: subscription stanzas between two users move the stored subscriptions and the stored
  requests as specified, when an approval answers a pending request and the two users have no
  requests that cross: \<open>subscribe\<close> records a request unless the sender is already subscribed;
  \<open>subscribed\<close> turns the recipient's request into a subscription; \<open>unsubscribe\<close> ends the
  subscription and the request of the sender, \<open>unsubscribed\<close> those of the recipient. The roster
  of the subscriber and the roster of the contact change alike, and no other pair of users is
  affected.\<close>

theorem subscription_refines:
  assumes "roster_sql_ok E" "subs_ok (sub_of (db s))"
    and "get_attribute L st ''type'' = Some ty"
    and "ty \<in> {''subscribe'', ''subscribed'', ''unsubscribe'', ''unsubscribed''}"
    and "get_attribute L st ''to'' = Some to" "to \<noteq> []" "length (bare to) < ROSTER_JID_MAX"
    and "length (bare (bound_jid (ctx s))) < ROSTER_JID_MAX" "bare (bound_jid (ctx s)) \<noteq> bare to"
    and "orderly ty (bare (bound_jid (ctx s))) (bare to) (requests (db s))"
    and "d = db (xmpp_presence_handle E L st s)"
  shows "(subscriber_side (sub_of d), requests d) =
      subscription_spec ty (bare (bound_jid (ctx s))) (bare to) (subscriber_side (sub_of (db s)), requests (db s)) \<and>
    contact_side (sub_of d) =
      fst (subscription_spec ty (bare (bound_jid (ctx s))) (bare to) (contact_side (sub_of (db s)), requests (db s)))"
proof -
  have d: "d = db (handle_subscription E L st ty (bare (bound_jid (ctx s))) s)"
    by (simp add: assms(11) presence_is_subscription [OF assms(3,4)])
  show ?thesis
    using handle_subscription_sub [OF assms(1,2,5-9), of ty] sub_step_sides [OF assms(2,9)]
      handle_subscription_requests [OF assms(1,2,5-9) assms(4,10)]
    by (simp add: d prod_eq_iff)
qed

definition sub_stanza :: "cstr \<Rightarrow> xml" where
  "sub_stanza ty = Elem ''presence'' ''jabber:client'' [(''type'', ty), (''to'', ''b@d'')] []"

lemma alice_rosters:
  "sub_of (db alice) = (\<lambda>_ _. ''none'')" "bare ''b@d'' = ''b@d''" "roster_sql_ok env0"
  by (simp_all add: alice_def example_defs sub_of_def fun_eq_iff xmpp_session_bare_jid_def
      before_def Let_def roster_sql_ok_def sql_runs_def)

text \<open>\<open>b@d\<close> has asked for the presence of \<open>a@d\<close>, who approves.\<close>

definition asked_alice :: server where
  "asked_alice = alice\<lparr>db := (db alice)\<lparr>roster := [\<lparr> r_owner = ''b@d'', r_contact = ''a@d'', r_name = [],
     r_subscription = ''none'', r_ask = 1 \<rparr>]\<rparr>\<rparr>"

lemma asked_alice_rosters:
  "sub_of (db asked_alice) = (\<lambda>_ _. ''none'')" "requests (db asked_alice) = {(''b@d'', ''a@d'')}"
  "bare (bound_jid (ctx asked_alice)) = ''a@d''"
  using alice_bare
  by (auto simp: asked_alice_def sub_of_def requests_def ask_of_def roster_key_def fun_eq_iff split: if_splits)

theorem subscription_refines_witness:
  "let d = db (xmpp_presence_handle env0 xml_strophe (sub_stanza ''subscribed'') asked_alice) in
     requests (db asked_alice) = {(''b@d'', ''a@d'')} \<and> subscriber_side (sub_of (db asked_alice)) = {} \<and>
     subscriber_side (sub_of d) = {(''b@d'', ''a@d'')} \<and> requests d = {}"
proof -
  have "subs_ok (sub_of (db asked_alice))" by (simp add: asked_alice_rosters subs_ok_def sub_value_def)
  moreover have "get_attribute xml_strophe (sub_stanza ''subscribed'') ''type'' = Some ''subscribed''"
    "get_attribute xml_strophe (sub_stanza ''subscribed'') ''to'' = Some ''b@d''"
    by (simp_all add: sub_stanza_def)
  ultimately show ?thesis
    using subscription_refines [OF alice_rosters(3), of asked_alice xml_strophe "sub_stanza ''subscribed''"
        "''subscribed''" "''b@d''", OF _ _ _ _ _ _ _ _ _ refl]
    by (simp add: asked_alice_rosters alice_rosters(2) orderly_def subscription_spec_def subscriber_side_def has_to_def)
qed

text \<open>Nothing checks that a request is pending: an approval nobody asked for subscribes the
  recipient, where RFC 6121 (A.2.3 and A.3.3) says that it changes nothing.\<close>

lemma unsolicited_approval_subscribes:
  "requests (db alice) = {} \<and>
   subscriber_side (sub_of (db (xmpp_presence_handle env0 xml_strophe (sub_stanza ''subscribed'') alice))) =
     {(''b@d'', ''a@d'')}"
proof -
  let ?st = "sub_stanza ''subscribed''"
  have r: "requests (db alice) = {}" by (simp add: alice_def example_defs requests_def ask_of_def)
  have ok: "subs_ok (sub_of (db alice))" by (simp add: alice_rosters subs_ok_def sub_value_def)
  have st: "get_attribute xml_strophe ?st ''to'' = Some ''b@d''" "get_attribute xml_strophe ?st ''type'' = Some ''subscribed''"
    by (simp_all add: sub_stanza_def)
  have "sub_of (db (xmpp_presence_handle env0 xml_strophe ?st alice)) = sub_step ''subscribed'' ''a@d'' ''b@d'' (sub_of (db alice))"
    using handle_subscription_sub [OF alice_rosters(3) ok st(1), of "''a@d''" "''subscribed''"]
      presence_is_subscription [OF st(2), of env0 alice] alice_bare alice_rosters(2) by simp
  then show ?thesis
    using r sub_step_sides(1) [OF ok, of "''a@d''" "''b@d''" "''subscribed''" "{}"]
    by (simp add: subscription_spec_def subscriber_side_def alice_rosters has_to_def)
qed

text \<open>C13: the two copies of the subscription relation never drift apart: if every subscription
  value in the database is one of the four of RFC 6121 and the rosters mirror each other, a
  subscription stanza keeps it so.\<close>

theorem rosters_stay_mirrored:
  assumes "roster_sql_ok E" "subs_ok (sub_of (db s))" "mirrored (sub_of (db s))"
    and "get_attribute L st ''type'' = Some ty"
    and "ty \<in> {''subscribe'', ''subscribed'', ''unsubscribe'', ''unsubscribed''}"
    and "get_attribute L st ''to'' = Some to" "to \<noteq> []" "length (bare to) < ROSTER_JID_MAX"
    and "length (bare (bound_jid (ctx s))) < ROSTER_JID_MAX" "bare (bound_jid (ctx s)) \<noteq> bare to"
  shows "subs_ok (sub_of (db (xmpp_presence_handle E L st s))) \<and>
    mirrored (sub_of (db (xmpp_presence_handle E L st s)))"
  using handle_subscription_sub [OF assms(1,2,6-10), of ty] subs_ok_step [OF assms(2)]
    mirrored_step [OF assms(2,3,10)]
  by (simp add: presence_is_subscription [OF assms(4,5)])

theorem rosters_stay_mirrored_witness:
  "mirrored (sub_of (db (xmpp_presence_handle env0 xml_strophe (sub_stanza ''unsubscribe'') alice)))"
proof -
  have "subs_ok (sub_of (db alice))" "mirrored (sub_of (db alice))"
    by (simp_all add: alice_rosters subs_ok_def sub_value_def mirrored_def has_to_def has_from_def)
  moreover have "get_attribute xml_strophe (sub_stanza ''unsubscribe'') ''type'' = Some ''unsubscribe''"
    "get_attribute xml_strophe (sub_stanza ''unsubscribe'') ''to'' = Some ''b@d''"
    by (simp_all add: sub_stanza_def)
  ultimately show ?thesis
    using rosters_stay_mirrored [OF alice_rosters(3), of alice xml_strophe "sub_stanza ''unsubscribe''"
        "''unsubscribe''" "''b@d''"]
    by (simp add: alice_rosters alice_bare)
qed



end
