(* ===== verification/Sasl.thy ===== *)
theory Sasl
  imports Server_State
begin

text \<open>
  SASL PLAIN (\<^verbatim>\<open>xmpp_sasl.c\<close>) with its lenient base64 decoder, and the base64 encoder
  of \<^verbatim>\<open>xmpp_sasl_scram.c\<close>. Bytes are characters; \<^verbatim>\<open>val\<close> holds at most 24 bits, so
  the shifts of the decoder are multiplications and divisions of natural numbers.
\<close>

unbundle bit_operations_syntax

definition sasl_available_mechanisms :: cstr where
  "sasl_available_mechanisms = ''PLAIN SCRAM-SHA-256''"

definition sasl_is_multi_step_mechanism :: "cstr \<Rightarrow> bool" where
  "sasl_is_multi_step_mechanism mechanism \<longleftrightarrow> mechanism = ''SCRAM-SHA-256''"

definition b64_table :: cstr where
  "b64_table = ''ABCDEFGHIJKLMNOPQRSTUVWXYZabcdefghijklmnopqrstuvwxyz0123456789+/''"

definition b64_index :: "char \<Rightarrow> nat option" where
  "b64_index c = find_index (\<lambda>x. x = c) b64_table"

abbreviation byte :: "nat \<Rightarrow> char" where
  "byte n \<equiv> char_of n"

subsection \<open>Base64\<close>

text \<open>The decoding loop: \<open>st\<close> sextets are pending in \<open>val\<close>; bytes outside the
  alphabet are skipped; a trailing group of two or three sextets gives one or two bytes.\<close>

fun b64_loop :: "cstr \<Rightarrow> nat \<Rightarrow> nat \<Rightarrow> cstr" where
  "b64_loop [] st val =
     (let v = val * 64 ^ (4 - st) in
      if st = 0 then []
      else (if st \<ge> 2 then [byte (v div 65536)] else []) @
           (if st = 3 then [byte (v div 256)] else []))"
| "b64_loop (c # cs) st val =
     (case b64_index c of
        None \<Rightarrow> b64_loop cs st val
      | Some i \<Rightarrow>
          (let v = val * 64 + i in
           if Suc st = 4
           then byte (v div 65536) # byte (v div 256) # byte v # b64_loop cs 0 0
           else b64_loop cs (Suc st) v))"

definition b64_decode :: "cstr \<Rightarrow> cstr" where
  "b64_decode inp = b64_loop inp 0 0"

abbreviation sextet :: "nat \<Rightarrow> char" where
  "sextet n \<equiv> b64_table ! n"

fun b64_groups :: "cstr \<Rightarrow> cstr" where
  "b64_groups [] = []"
| "b64_groups [a] =
     (let b0 = of_char a :: nat
      in [sextet (b0 div 4), sextet (b0 mod 4 * 16), CHR ''='', CHR ''=''])"
| "b64_groups [a, b] =
     (let b0 = of_char a :: nat; b1 = of_char b :: nat
      in [sextet (b0 div 4), sextet (b0 mod 4 * 16 + b1 div 16),
          sextet (b1 mod 16 * 4), CHR ''=''])"
| "b64_groups (a # b # c # rest) =
     (let b0 = of_char a :: nat; b1 = of_char b :: nat; b2 = of_char c :: nat
      in sextet (b0 div 4) # sextet (b0 mod 4 * 16 + b1 div 16) #
         sextet (b1 mod 16 * 4 + b2 div 64) # sextet (b2 mod 64) # b64_groups rest)"

text \<open>\<^verbatim>\<open>scram_base64_encode\<close>: \<open>None\<close> is the result \<open>-1\<close>, the text does not fit.\<close>

definition scram_base64_encode :: "cstr \<Rightarrow> nat \<Rightarrow> cstr option" where
  "scram_base64_encode inp out_cap =
     (if (length inp + 2) div 3 * 4 + 1 > out_cap then None else Some (b64_groups inp))"

subsection \<open>Constant-time comparison and JID checks\<close>

abbreviation byte_word :: "char \<Rightarrow> 8 word" where
  "byte_word c \<equiv> of_nat (of_char c)"

definition ct_memeq :: "cstr \<Rightarrow> cstr \<Rightarrow> nat \<Rightarrow> bool" where
  "ct_memeq a b len \<longleftrightarrow>
     fold (\<lambda>i (diff :: 8 word). diff OR (byte_word (a ! i) XOR byte_word (b ! i))) [0..<len] 0 = 0"

definition forbidden_localpart :: cstr where
  "forbidden_localpart = [CHR 0x22, CHR ''&'', CHR 0x27, CHR ''/'', CHR '':'', CHR '';'',
     CHR ''<'', CHR ''>'', CHR ''@'']"

definition jid_localpart_has_forbidden :: "cstr \<Rightarrow> bool" where
  "jid_localpart_has_forbidden s \<longleftrightarrow> list_ex (\<lambda>c. c \<in> set forbidden_localpart) s"

subsection \<open>SASL PLAIN\<close>

datatype sasl_rc = SASL_OK | SASL_FAIL | SASL_TERMINAL

definition SQL_PLAIN :: cstr where
  "SQL_PLAIN = ''SELECT password_plain, disabled FROM users WHERE jid = ?''"

text \<open>\<open>[authzid] NUL authcid NUL passwd\<close>, with a non-empty password field.\<close>

definition split_plain :: "cstr \<Rightarrow> (cstr \<times> cstr \<times> cstr) option" where
  "split_plain data =
     (case strchr data (CHR 0x00) of
        None \<Rightarrow> None
      | Some r1 \<Rightarrow>
          (let p = tl r1 in
           case strchr p (CHR 0x00) of
             None \<Rightarrow> None
           | Some r2 \<Rightarrow>
               if tl r2 = [] then None
               else Some (before (CHR 0x00) data, before (CHR 0x00) p, tl r2)))"

definition find_user :: "cstr \<Rightarrow> database \<Rightarrow> user_row option" where
  "find_user jid d = find (\<lambda>r. u_jid r = jid) (users d)"

definition check_plain :: "env \<Rightarrow> cstr \<Rightarrow> cstr \<Rightarrow> cstr \<Rightarrow> database \<Rightarrow> sasl_rc" where
  "check_plain E authzid bare_jid password d =
     (if \<not> db_open_ok E then SASL_TERMINAL
      else if \<not> prepare_ok E SQL_PLAIN then SASL_TERMINAL
      else case (if step_ok E SQL_PLAIN then find_user bare_jid d else None) of
          None \<Rightarrow> SASL_FAIL
        | Some u \<Rightarrow>
            if u_disabled u then SASL_TERMINAL
            else if length (u_password_plain u) \<noteq> length password \<or>
                    \<not> ct_memeq (u_password_plain u) password (length password) then SASL_FAIL
            else if authzid \<noteq> [] \<and> take 2047 authzid \<noteq> bare_jid then SASL_TERMINAL
            else SASL_OK)"

definition handle_sasl_plain :: "env \<Rightarrow> cstr \<Rightarrow> server \<Rightarrow> sasl_rc \<times> server" where
  "handle_sasl_plain E b64_text s =
     (case split_plain (b64_decode b64_text) of
        None \<Rightarrow> (SASL_TERMINAL, s)
      | Some (authzid, auth, password) \<Rightarrow>
          if auth = [] then (SASL_TERMINAL, s)
          else if jid_localpart_has_forbidden auth then (SASL_TERMINAL, s)
          else
            (let s1 = upd (\<lambda>c. c\<lparr>authcid := take 1023 auth\<rparr>) s;
                 jid = auth @ ''@'' @ domain (ctx s)
             in if length jid \<ge> 2048 then (SASL_TERMINAL, s1)
                else (check_plain E authzid jid password (db s), s1)))"

subsection \<open>Base64: lemmas\<close>

lemma length_b64_table [simp]: "length b64_table = 64"
  by (simp add: b64_table_def)

lemma distinct_b64_table: "distinct b64_table"
  by (simp add: b64_table_def)

lemma find_index_distinct:
  "distinct xs \<Longrightarrow> i < length xs \<Longrightarrow> find_index (\<lambda>x. x = xs ! i) xs = Some i"
proof (induction xs arbitrary: i)
  case (Cons x xs)
  then show ?case by (cases i) auto
qed simp

lemma b64_index_sextet [simp]: "n < 64 \<Longrightarrow> b64_index (sextet n) = Some n"
  by (simp add: b64_index_def find_index_distinct distinct_b64_table)

lemma b64_index_pad [simp]: "b64_index (CHR ''='') = None"
  by (simp add: b64_index_def find_index_None b64_table_def)

lemma b64_index_bound: "b64_index c = Some i \<Longrightarrow> i < 64"
  by (auto simp: b64_index_def dest: find_index_SomeD)

lemma pack3_atoms:
  fixes b0 b1 b2 :: nat
  assumes "b0 = d0 * 4 + r0" "b1 = d1 * 16 + r1" "b2 = d2 * 64 + r2"
  shows "((d0 * 64 + (r0 * 16 + d1)) * 64 + (r1 * 4 + d2)) * 64 + r2 = b0 * 65536 + b1 * 256 + b2"
  unfolding assms by (simp add: algebra_simps)

lemma pack3:
  fixes b0 b1 b2 :: nat
  shows "((b0 div 4 * 64 + (b0 mod 4 * 16 + b1 div 16)) * 64 + (b1 mod 16 * 4 + b2 div 64)) * 64
    + b2 mod 64 = b0 * 65536 + b1 * 256 + b2"
  by (rule pack3_atoms) (simp_all only: div_mult_mod_eq)

lemma pack2:
  fixes b0 b1 :: nat
  shows "(b0 div 4 * 64 + (b0 mod 4 * 16 + b1 div 16)) * 64 + b1 mod 16 * 4 = (b0 * 256 + b1) * 4"
  using pack3 [of b0 b1 0] by simp

lemma pack1:
  fixes b0 :: nat
  shows "b0 div 4 * 64 + b0 mod 4 * 16 = b0 * 16"
  using pack2 [of b0 0] by simp

lemma unpack3:
  fixes b0 b1 b2 :: nat
  assumes "b1 < 256" "b2 < 256"
  shows "(b0 * 65536 + b1 * 256 + b2) div 65536 = b0"
    and "(b0 * 65536 + b1 * 256 + b2) div 256 = b0 * 256 + b1"
proof -
  have "b1 * 256 + b2 < 65536" using assms by linarith
  then have "(b1 * 256 + b2 + b0 * 65536) div 65536 = b0" by simp
  then show "(b0 * 65536 + b1 * 256 + b2) div 65536 = b0" by (simp add: ac_simps)
  have "(b2 + (b0 * 256 + b1) * 256) div 256 = b0 * 256 + b1"
    using assms(2) by (simp only: div_mult_self1 div_less)
  moreover have "b0 * 65536 + b1 * 256 + b2 = b2 + (b0 * 256 + b1) * 256" by simp
  ultimately show "(b0 * 65536 + b1 * 256 + b2) div 256 = b0 * 256 + b1" by (simp only:)
qed

lemma byte_mod: "byte (x * 256 + (of_char c :: nat)) = c"
proof -
  have "byte (x * 256 + (of_char c :: nat)) = byte ((x * 256 + (of_char c :: nat)) mod 256)"
    by (simp only: char_of_mod_256)
  also have "(x * 256 + (of_char c :: nat)) mod 256 = (of_char c :: nat)" by simp
  finally show ?thesis by simp
qed

lemma byte_group3:
  "byte ((of_char a * 65536 + of_char b * 256 + of_char c :: nat) div 65536) = a"
  "byte ((of_char a * 65536 + of_char b * 256 + of_char c :: nat) div 256) = b"
  "byte (of_char a * 65536 + of_char b * 256 + of_char c :: nat) = c"
proof -
  show "byte ((of_char a * 65536 + of_char b * 256 + of_char c :: nat) div 65536) = a"
    by (simp only: unpack3 nat_of_char_less_256 char_of_char)
  show "byte ((of_char a * 65536 + of_char b * 256 + of_char c :: nat) div 256) = b"
    by (simp only: unpack3 nat_of_char_less_256 byte_mod)
  have "(of_char a * 65536 + of_char b * 256 + of_char c :: nat) =
      (of_char a * 256 + of_char b) * 256 + of_char c" by simp
  then show "byte (of_char a * 65536 + of_char b * 256 + of_char c :: nat) = c"
    by (simp only: byte_mod)
qed

lemma sextet_bounds:
  fixes b0 b1 b2 :: nat
  assumes "b0 < 256" "b1 < 256" "b2 < 256"
  shows "b0 div 4 < 64" "b0 mod 4 * 16 + b1 div 16 < 64" "b1 mod 16 * 4 + b2 div 64 < 64"
    "b2 mod 64 < 64" "b0 mod 4 * 16 < 64" "b1 mod 16 * 4 < 64"
proof -
  have d: "b0 div 4 < 64" "b1 div 16 < 16" "b2 div 64 < 4"
    using assms by (auto intro: less_mult_imp_div_less)
  have m: "b0 mod 4 < 4" "b1 mod 16 < 16" "b2 mod 64 < 64" by simp_all
  show "b0 div 4 < 64" "b2 mod 64 < 64" using d m by blast+
  show "b0 mod 4 * 16 + b1 div 16 < 64" "b1 mod 16 * 4 + b2 div 64 < 64"
    "b0 mod 4 * 16 < 64" "b1 mod 16 * 4 < 64"
    using d m by linarith+
qed

lemmas char_sextets [simp] =
  sextet_bounds [OF nat_of_char_less_256 nat_of_char_less_256 nat_of_char_less_256]

lemma b64_loop_four:
  assumes "i < 64" "j < 64" "k < 64" "l < 64"
  shows "b64_loop (sextet i # sextet j # sextet k # sextet l # cs) 0 0 =
    (let v = ((i * 64 + j) * 64 + k) * 64 + l in
     byte (v div 65536) # byte (v div 256) # byte v # b64_loop cs 0 0)"
  using assms by (simp add: Let_def)

lemma b64_loop_group3:
  "b64_loop (b64_groups (a # b # c # rest)) 0 0 = a # b # c # b64_loop (b64_groups rest) 0 0"
proof -
  let ?a = "of_char a :: nat" and ?b = "of_char b :: nat" and ?c = "of_char c :: nat"
  have "b64_loop (b64_groups (a # b # c # rest)) 0 0 =
    (let v = ((?a div 4 * 64 + (?a mod 4 * 16 + ?b div 16)) * 64 + (?b mod 16 * 4 + ?c div 64)) * 64
        + ?c mod 64
     in byte (v div 65536) # byte (v div 256) # byte v # b64_loop (b64_groups rest) 0 0)"
    unfolding b64_groups.simps Let_def by (subst b64_loop_four) (simp_all only: char_sextets Let_def)
  then show ?thesis by (simp only: pack3 Let_def byte_group3)
qed

lemma b64_loop_sextet:
  "i < 64 \<Longrightarrow> st \<noteq> 3 \<Longrightarrow> b64_loop (sextet i # cs) st v = b64_loop cs (Suc st) (v * 64 + i)"
  by (simp add: Let_def)

lemma b64_loop_pad: "b64_loop (CHR ''='' # cs) st v = b64_loop cs st v"
  by simp

lemma b64_loop_end:
  "b64_loop [] (Suc (Suc 0)) v = [byte (v * 4096 div 65536)]"
  "b64_loop [] (Suc (Suc (Suc 0))) v = [byte (v * 64 div 65536), byte (v * 64 div 256)]"
  by (simp_all add: Let_def numeral_2_eq_2 numeral_3_eq_3 del: char_of_quasi_inj)

lemma b64_loop_group2: "b64_loop (b64_groups [a, b]) 0 0 = [a, b]"
proof -
  let ?a = "of_char a :: nat" and ?b = "of_char b :: nat"
  let ?v = "((0 * 64 + ?a div 4) * 64 + (?a mod 4 * 16 + ?b div 16)) * 64 + ?b mod 16 * 4"
  have "b64_loop (b64_groups [a, b]) 0 0 = [byte (?v * 64 div 65536), byte (?v * 64 div 256)]"
    unfolding b64_groups.simps Let_def
    by (subst b64_loop_sextet, simp, simp)+ (simp only: b64_loop_pad b64_loop_end)
  also have "?v * 64 = ?a * 65536 + ?b * 256 + of_char (CHR 0x00)"
    using pack2 [of ?a ?b] by simp
  finally show ?thesis by (simp only: byte_group3)
qed

lemma b64_loop_group1: "b64_loop (b64_groups [a]) 0 0 = [a]"
proof -
  let ?a = "of_char a :: nat"
  let ?v = "(0 * 64 + ?a div 4) * 64 + ?a mod 4 * 16"
  have "b64_loop (b64_groups [a]) 0 0 = [byte (?v * 4096 div 65536)]"
    unfolding b64_groups.simps Let_def
    by (subst b64_loop_sextet, simp, simp)+ (simp only: b64_loop_pad b64_loop_end)
  also have "?v * 4096 = ?a * 65536 + of_char (CHR 0x00) * 256 + of_char (CHR 0x00)"
    using pack1 [of ?a] by simp
  finally show ?thesis by (simp only: byte_group3)
qed

lemma b64_loop_groups: "b64_loop (b64_groups xs) 0 0 = xs"
proof (induction xs rule: b64_groups.induct)
  case (4 a b c rest)
  then show ?case by (simp only: b64_loop_group3)
qed (simp_all only: b64_loop_group1 b64_loop_group2, simp)

lemma b64_loop_length: "st < 4 \<Longrightarrow> 4 * length (b64_loop inp st val) \<le> 3 * (length inp + st)"
proof (induction inp st val rule: b64_loop.induct)
  case (2 c cs st val)
  show ?case
  proof (cases "b64_index c")
    case None
    with 2(1,4) show ?thesis by simp
  next
    case (Some i)
    show ?thesis
    proof (cases "st = 3")
      case True
      with 2(2) [OF Some refl] Some show ?thesis by (simp add: Let_def)
    next
      case False
      with 2(3) [OF Some refl] 2(4) Some show ?thesis by (simp add: Let_def)
    qed
  qed
qed (auto simp: Let_def)

subsection \<open>Comparison: lemmas\<close>

lemma ct_memeq_fold:
  "fold (\<lambda>i (diff :: 8 word). diff OR f i) is d = 0 \<longleftrightarrow> d = 0 \<and> (\<forall>i\<in>set is. f i = 0)"
  by (induction "is" arbitrary: d) (auto simp: or_eq_0_iff)

lemma byte_word_inj: "byte_word a = byte_word b \<longleftrightarrow> a = b"
proof
  assume "byte_word a = byte_word b"
  then have "unat (byte_word a) = unat (byte_word b)" by simp
  then have "(of_char a :: nat) = of_char b" by (simp add: unat_of_nat)
  then show "a = b" by (metis char_of_char)
qed simp

lemma byte_word_xor: "byte_word a XOR byte_word b = 0 \<longleftrightarrow> a = b"
proof -
  have "x XOR y = 0 \<longleftrightarrow> x = y" for x y :: "8 word"
    by (auto simp: bit_eq_iff bit_xor_iff)
  then show ?thesis by (simp add: byte_word_inj)
qed

lemma ct_memeq_iff:
  "length a = length b \<Longrightarrow> ct_memeq a b (length b) \<longleftrightarrow> a = b"
  unfolding ct_memeq_def ct_memeq_fold byte_word_xor
  by (auto intro: nth_equalityI)

subsection \<open>PLAIN: lemmas\<close>

abbreviation NUL :: char where "NUL \<equiv> CHR 0x00"

lemma split_plain_iff:
  "split_plain d = Some (z, a, p) \<longleftrightarrow>
     d = z @ NUL # a @ NUL # p \<and> NUL \<notin> set z \<and> NUL \<notin> set a \<and> p \<noteq> []"
proof
  assume "split_plain d = Some (z, a, p)"
  then obtain r1 r2 where r: "strchr d NUL = Some r1" "strchr (tl r1) NUL = Some r2" "tl r2 \<noteq> []"
    "z = before NUL d" "a = before NUL (tl r1)" "p = tl r2"
    by (auto simp: split_plain_def Let_def split: option.splits if_splits)
  from strchr_SomeD [OF r(1)] strchr_SomeD [OF r(2)] r(3-6)
  show "d = z @ NUL # a @ NUL # p \<and> NUL \<notin> set z \<and> NUL \<notin> set a \<and> p \<noteq> []"
    using before_notin by (metis list.sel(3))
next
  assume "d = z @ NUL # a @ NUL # p \<and> NUL \<notin> set z \<and> NUL \<notin> set a \<and> p \<noteq> []"
  then show "split_plain d = Some (z, a, p)"
    by (simp add: split_plain_def strchr_append)
qed

definition plain_credentials :: "env \<Rightarrow> cstr \<Rightarrow> cstr \<Rightarrow> cstr \<Rightarrow> cstr \<Rightarrow> database \<Rightarrow> bool" where
  "plain_credentials E dm z a p d \<longleftrightarrow>
     NUL \<notin> set z \<and> NUL \<notin> set a \<and> a \<noteq> [] \<and> p \<noteq> [] \<and> \<not> jid_localpart_has_forbidden a \<and>
     length (a @ ''@'' @ dm) < 2048 \<and> db_open_ok E \<and> prepare_ok E SQL_PLAIN \<and> step_ok E SQL_PLAIN \<and>
     (\<exists>u. find_user (a @ ''@'' @ dm) d = Some u \<and> \<not> u_disabled u \<and> u_password_plain u = p) \<and>
     (z = [] \<or> take 2047 z = a @ ''@'' @ dm)"

lemma check_plain_OK:
  "check_plain E z jid p d = SASL_OK \<longleftrightarrow>
     db_open_ok E \<and> prepare_ok E SQL_PLAIN \<and> step_ok E SQL_PLAIN \<and>
     (\<exists>u. find_user jid d = Some u \<and> \<not> u_disabled u \<and> u_password_plain u = p) \<and>
     (z = [] \<or> take 2047 z = jid)"
proof -
  have pw: "(length q \<noteq> length p \<or> \<not> ct_memeq q p (length p)) \<longleftrightarrow> q \<noteq> p" for q
    using ct_memeq_iff [of q p] by auto
  show ?thesis
    unfolding check_plain_def pw by (auto split: option.splits)
qed

lemma handle_sasl_plain_ok:
  "fst (handle_sasl_plain E t s) = SASL_OK \<longleftrightarrow>
     (\<exists>z a p. b64_decode t = z @ NUL # a @ NUL # p \<and> plain_credentials E (domain (ctx s)) z a p (db s))"
proof (cases "split_plain (b64_decode t)")
  case None
  then show ?thesis
    using split_plain_iff [of "b64_decode t"]
    by (auto simp: handle_sasl_plain_def plain_credentials_def)
next
  case (Some x)
  obtain z a p where x: "x = (z, a, p)" by (cases x) auto
  note sp = Some [unfolded x]
  then have d: "b64_decode t = z @ NUL # a @ NUL # p" and n: "NUL \<notin> set z" "NUL \<notin> set a" "p \<noteq> []"
    by (simp_all add: split_plain_iff)
  have uniq: "z' = z \<and> a' = a \<and> p' = p"
    if "b64_decode t = z' @ NUL # a' @ NUL # p'" "plain_credentials E (domain (ctx s)) z' a' p' (db s)"
    for z' a' p'
  proof -
    have "split_plain (b64_decode t) = Some (z', a', p')"
      using that by (simp add: split_plain_iff plain_credentials_def)
    with sp show ?thesis by simp
  qed
  have "fst (handle_sasl_plain E t s) = SASL_OK \<longleftrightarrow> plain_credentials E (domain (ctx s)) z a p (db s)"
    using n by (auto simp: handle_sasl_plain_def sp Let_def check_plain_OK plain_credentials_def)
  then show ?thesis using uniq d by blast
qed

lemma handle_sasl_plain_authcid:
  assumes "b64_decode t = z @ NUL # a @ NUL # p" and "plain_credentials E (domain (ctx s)) z a p (db s)"
  shows "authcid (ctx (snd (handle_sasl_plain E t s))) = take 1023 a"
proof -
  have "split_plain (b64_decode t) = Some (z, a, p)"
    using assms by (simp add: split_plain_iff plain_credentials_def)
  then show ?thesis
    using assms(2) by (simp add: handle_sasl_plain_def Let_def plain_credentials_def)
qed

lemma handle_sasl_plain_frame:
  "\<exists>a. snd (handle_sasl_plain E t s) = upd (\<lambda>c. c\<lparr>authcid := a\<rparr>) s"
proof -
  have "s = upd (\<lambda>c. c\<lparr>authcid := authcid (ctx s)\<rparr>) s" by (simp add: upd_def)
  then have "\<exists>a. s = upd (\<lambda>c. c\<lparr>authcid := a\<rparr>) s" by blast
  then show ?thesis
    by (auto simp: handle_sasl_plain_def Let_def split: option.splits)
qed

lemma handle_sasl_plain_simps [simp]:
  "state (ctx (snd (handle_sasl_plain E t s))) = state (ctx s)"
  "domain (ctx (snd (handle_sasl_plain E t s))) = domain (ctx s)"
  "write_ud (ctx (snd (handle_sasl_plain E t s))) = write_ud (ctx s)"
  "out_buf (ctx (snd (handle_sasl_plain E t s))) = out_buf (ctx s)"
  "failed_auth_count (ctx (snd (handle_sasl_plain E t s))) = failed_auth_count (ctx s)"
  "bound_jid (ctx (snd (handle_sasl_plain E t s))) = bound_jid (ctx s)"
  "g_sessions (snd (handle_sasl_plain E t s)) = g_sessions s"
  "db (snd (handle_sasl_plain E t s)) = db s"
  "sent (snd (handle_sasl_plain E t s)) = sent s"
  using handle_sasl_plain_frame [of E t s] by auto

subsection \<open>Properties\<close>

text \<open>C27: the base64 decoder of the PLAIN mechanism inverts the base64 encoder of the
  server on every byte string the encoder accepts.\<close>

theorem base64_round_trip:
  assumes "scram_base64_encode bytes cap = Some text"
  shows "b64_decode text = bytes"
  using assms b64_loop_groups [of bytes]
  by (simp add: scram_base64_encode_def b64_decode_def split: if_splits)

theorem base64_round_trip_witness: "b64_decode ''AGEAcA=='' = [NUL, CHR ''a'', NUL, CHR ''p'']"
  by (rule base64_round_trip [of _ 100]) code_simp

text \<open>The decoder writes at most three bytes for every four characters of its input,
  less than the buffer of one byte per character that is allocated for it.\<close>

theorem base64_decode_bound: "4 * length (b64_decode text) \<le> 3 * length text"
  using b64_loop_length [of 0 "text" 0] by (simp add: b64_decode_def)

text \<open>C28: PLAIN authentication succeeds exactly when the decoded message is an authorization
  identity, a user name and a password separated by NUL bytes, the user name is a legal local
  part, an enabled account of that name at the stream's domain has exactly that password, and
  the authorization identity is empty or the account itself.\<close>

theorem plain_succeeds_iff:
  "fst (handle_sasl_plain E text s) = SASL_OK \<longleftrightarrow>
     (\<exists>authzid user password.
        b64_decode text = authzid @ NUL # user @ NUL # password \<and>
        plain_credentials E (domain (ctx s)) authzid user password (db s))"
  by (rule handle_sasl_plain_ok)

text \<open>The constant-time comparison of two buffers of equal length, which accumulates the
  differences of all bytes, is equality.\<close>

theorem ct_memeq_is_equality:
  assumes "length a = length b"
  shows "ct_memeq a b (length b) \<longleftrightarrow> a = b"
  using assms by (rule ct_memeq_iff)

theorem ct_memeq_is_equality_witness: "\<not> ct_memeq ''abc'' ''abd'' 3"
  using ct_memeq_is_equality [of "''abc''" "''abd''"] by (simp add: numeral_3_eq_3)

end
