(* ===== verification/Scram.thy ===== *)
theory Scram
  imports Sasl "HOL-Library.Code_Target_Nat"
begin

text \<open>
  SCRAM-SHA-256 (\<^verbatim>\<open>xmpp_sasl_scram.c\<close>) and the user accounts
  (\<^verbatim>\<open>storage/db_users.c\<close>). SHA-256 and HMAC are PSA crypto calls: when one fails the
  output buffer keeps what it held. Random bytes are those of the environment, whichever of
  \<^verbatim>\<open>/dev/urandom\<close> and \<^verbatim>\<open>rand\<close> gave them.
\<close>

unbundle bit_operations_syntax

subsection \<open>Base64 decoding\<close>

text \<open>The table as it stands in the source, 16 entries to a row; \<^verbatim>\<open>-1\<close> is \<^term>\<open>None\<close>.\<close>

definition nones :: "nat \<Rightarrow> nat option list" where
  "nones n = replicate n None"

definition B64_DECODE :: "nat option list" where
  "B64_DECODE =
     nones 48 @
     [None, Some 62] @ nones 14 @
     map Some [48..<58] @ nones 6 @
     [None] @ map Some [0..<26] @ nones 5 @
     [None, None, None, Some 63] @ nones 12 @
     [None] @ map Some [26..<52] @ nones 5 @
     nones 96"

text \<open>The accumulator is a 32-bit \<^verbatim>\<open>int\<close> whose shift the C standard leaves undefined once a set bit
  reaches the sign; here it wraps around, which is what compilers do with it. Only its low 13
  bits are ever written out (\<open>scram_b64_low_bits\<close>). \<open>None\<close> is the result \<open>-1\<close> (output full).\<close>

fun scram_b64_loop :: "cstr \<Rightarrow> nat \<Rightarrow> nat \<Rightarrow> nat \<Rightarrow> cstr \<Rightarrow> cstr option" where
  "scram_b64_loop [] val bits cap out = Some out"
| "scram_b64_loop (c # cs) val bits cap out =
     (if c = CHR ''='' \<or> c = CHR 0x00 then Some out
      else case B64_DECODE ! of_char c of
          None \<Rightarrow> scram_b64_loop cs val bits cap out
        | Some v \<Rightarrow>
            (let val' = (val * 64 + v) mod 2 ^ 32; bits' = bits + 6 in
             if bits' \<ge> 8 then
               (if length out \<ge> cap then None
                else scram_b64_loop cs val' (bits' - 8) cap
                       (out @ [char_of (val' div 2 ^ (bits' - 8) mod 256)]))
             else scram_b64_loop cs val' bits' cap out))"

definition scram_base64_decode :: "cstr \<Rightarrow> nat \<Rightarrow> cstr option" where
  "scram_base64_decode inp out_cap = scram_b64_loop inp 0 0 out_cap []"

subsection \<open>Cryptography\<close>

definition scram_hash :: "env \<Rightarrow> cstr \<Rightarrow> cstr \<Rightarrow> cstr" where
  "scram_hash E data output = (case sha256 E data of None \<Rightarrow> output | Some h \<Rightarrow> h)"

definition scram_hmac :: "env \<Rightarrow> cstr \<Rightarrow> cstr \<Rightarrow> cstr \<Rightarrow> cstr" where
  "scram_hmac E key data output = (case hmac_sha256 E key data of None \<Rightarrow> output | Some h \<Rightarrow> h)"

definition xor_bytes :: "cstr \<Rightarrow> cstr \<Rightarrow> cstr" where
  "xor_bytes a b = map2 (\<lambda>x y. char_of (unat (byte_word x XOR byte_word y))) a b"

fun hi_loop :: "env \<Rightarrow> cstr \<Rightarrow> nat \<Rightarrow> cstr \<Rightarrow> cstr \<Rightarrow> cstr" where
  "hi_loop E password 0 ui result = result"
| "hi_loop E password (Suc n) ui result =
     (let ui' = scram_hmac E password ui ui in hi_loop E password n ui' (xor_bytes result ui'))"

definition scram_hi :: "env \<Rightarrow> cstr \<Rightarrow> cstr \<Rightarrow> int \<Rightarrow> cstr option" where
  "scram_hi E password salt iterations =
     (if iterations < 1 then None
      else if length salt + 4 > 128 then None
      else
        (let u1 = scram_hmac E password (salt @ [CHR 0x00, CHR 0x00, CHR 0x00, CHR 0x01])
                    (replicate 32 (CHR 0x00))
         in Some (hi_loop E password (nat (iterations - 1)) u1 u1)))"

definition NONCE_CHARS :: cstr where
  "NONCE_CHARS = ''ABCDEFGHIJKLMNOPQRSTUVWXYZabcdefghijklmnopqrstuvwxyz0123456789''"

text \<open>The bytes read for the nonce start at \<open>off\<close> in the random stream.\<close>

definition scram_generate_nonce :: "env \<Rightarrow> nat \<Rightarrow> nat \<Rightarrow> nat \<Rightarrow> cstr" where
  "scram_generate_nonce E off buflen len =
     (let len' = (if buflen < len * 2 + 1 then (if buflen > 1 then (buflen - 1) div 2 else 0) else len)
      in map (\<lambda>i. NONCE_CHARS ! (of_char (urandom E (off + i)) mod 62)) [0..<len' * 2])"

definition scram_validate_username :: "cstr \<Rightarrow> bool" where
  "scram_validate_username u \<longleftrightarrow> list_all (\<lambda>c. c \<notin> set forbidden_localpart) u"

text \<open>\<^verbatim>\<open>scram_saslprep\<close>: the bytes are checked for well-formed UTF-8 sequences.\<close>

definition utf8_expect :: "nat \<Rightarrow> nat option" where
  "utf8_expect c =
     (if c div 32 = 6 then Some 1 else if c div 16 = 14 then Some 2
      else if c div 8 = 30 then Some 3 else None)"

function utf8_ok :: "nat list \<Rightarrow> bool" where
  "utf8_ok [] = True"
| "utf8_ok (c # cs) =
     (if c = 0 then True
      else if c < 128 then utf8_ok cs
      else if c < 192 then False
      else case utf8_expect c of
          None \<Rightarrow> False
        | Some n \<Rightarrow> n \<le> length cs \<and> list_all (\<lambda>b. b div 64 = 2) (take n cs) \<and> utf8_ok (drop n cs))"
  by pat_completeness auto
termination by (relation "measure length") auto

definition scram_saslprep :: "cstr \<Rightarrow> cstr option" where
  "scram_saslprep password = (if utf8_ok (map of_char password) then Some password else None)"

subsection \<open>Messages\<close>

definition skip_attr :: "cstr \<Rightarrow> cstr" where
  "skip_attr msg = tl (dropWhile (\<lambda>c. c \<noteq> CHR '','') msg)"

lemma skip_attr_length: "length (skip_attr (c # cs)) < Suc (length cs)"
  using length_dropWhile_le [of "\<lambda>c. c \<noteq> CHR '',''" cs] by (auto simp: skip_attr_def)

function scram_get_attr :: "cstr \<Rightarrow> char \<Rightarrow> nat \<Rightarrow> cstr option" where
  "scram_get_attr [] a out_cap = None"
| "scram_get_attr (c # cs) a out_cap =
     (if c \<noteq> a then scram_get_attr (skip_attr (c # cs)) a out_cap
      else if cs = [] \<or> hd cs \<noteq> CHR ''='' then scram_get_attr (skip_attr (c # cs)) a out_cap
      else Some (take (out_cap - 1) (before (CHR '','') (tl cs))))"
  by pat_completeness auto
termination by (relation "measure (\<lambda>(m, _, _). length m)") (auto simp: skip_attr_length)

definition scram_put_attr :: "char \<Rightarrow> cstr \<Rightarrow> nat \<Rightarrow> cstr option" where
  "scram_put_attr a v cap = (let t = [a] @ ''='' @ v in if length t \<ge> cap then None else Some t)"

definition scram_derive_stored_key :: "env \<Rightarrow> cstr \<Rightarrow> cstr" where
  "scram_derive_stored_key E salted = scram_hash E salted (uninit32 E)"

definition scram_derive_server_key :: "env \<Rightarrow> cstr \<Rightarrow> cstr" where
  "scram_derive_server_key E salted = scram_hmac E salted ''Server Key'' (uninit32 E)"

definition scram_client_signature :: "env \<Rightarrow> cstr \<Rightarrow> cstr \<Rightarrow> cstr" where
  "scram_client_signature E stored_key auth = scram_hmac E stored_key auth (uninit32 E)"

definition scram_server_signature :: "env \<Rightarrow> cstr \<Rightarrow> cstr \<Rightarrow> cstr" where
  "scram_server_signature E server_key auth = scram_hmac E server_key auth (uninit32 E)"

definition scram_build_auth_message :: "cstr \<Rightarrow> cstr \<Rightarrow> cstr \<Rightarrow> nat \<Rightarrow> cstr option" where
  "scram_build_auth_message client_first_bare server_first cf cap =
     (let t = client_first_bare @ '','' @ server_first @ '','' @ cf in
      if length t \<ge> cap then None else Some t)"

definition scram_ct_memeq :: "cstr \<Rightarrow> cstr \<Rightarrow> nat \<Rightarrow> bool" where
  "scram_ct_memeq a b len \<longleftrightarrow>
     fold (\<lambda>i (diff :: 8 word). diff OR (byte_word (a ! i) XOR byte_word (b ! i))) [0..<len] 0 = 0"

subsection \<open>User accounts\<close>

definition SQL_USER_GET :: cstr where
  "SQL_USER_GET = ''SELECT jid, password_plain FROM users WHERE jid = ? AND disabled = 0''"
definition SQL_USER_CREATE :: cstr where
  "SQL_USER_CREATE = ''INSERT INTO users (jid, password_plain, created_at, disabled) VALUES (?, ?, ?, 0)''"
definition SQL_USER_DISABLE :: cstr where
  "SQL_USER_DISABLE = ''UPDATE users SET disabled = 1 WHERE jid = ?''"
definition SQL_USER_DELETE :: cstr where
  "SQL_USER_DELETE = ''DELETE FROM users WHERE jid = ?''"
definition SQL_SCRAM_GET :: cstr where
  "SQL_SCRAM_GET = ''SELECT scram_salt_base64, scram_stored_key_base64, scram_server_key_base64, scram_iteration_count FROM users WHERE jid = ? AND scram_stored_key_base64 IS NOT NULL''"
definition SQL_SCRAM_HAS :: cstr where
  "SQL_SCRAM_HAS = ''SELECT 1 FROM users WHERE jid = ? AND scram_stored_key_base64 IS NOT NULL LIMIT 1''"
definition SQL_SCRAM_SET :: cstr where
  "SQL_SCRAM_SET = ''UPDATE users SET scram_salt_base64 = ?,scram_stored_key_base64 = ?,scram_server_key_base64 = ?,scram_iteration_count = ? WHERE jid = ?''"

definition sql_ready :: "env \<Rightarrow> cstr \<Rightarrow> bool" where
  "sql_ready E sql \<longleftrightarrow> db_open_ok E \<and> prepare_ok E sql"

definition storage_users_get_by_jid :: "env \<Rightarrow> cstr \<Rightarrow> database \<Rightarrow> (cstr \<times> cstr) fetched" where
  "storage_users_get_by_jid E jid d =
     (if \<not> sql_ready E SQL_USER_GET then Fetch_error
      else if \<not> step_ok E SQL_USER_GET then Not_found
      else case find (\<lambda>u. u_jid u = jid \<and> \<not> u_disabled u) (users d) of
          None \<Rightarrow> Not_found
        | Some u \<Rightarrow> Found (take 511 (u_jid u), take 511 (u_password_plain u)))"

definition storage_users_check_password :: "env \<Rightarrow> cstr \<Rightarrow> cstr \<Rightarrow> database \<Rightarrow> bool" where
  "storage_users_check_password E jid password d =
     (case storage_users_get_by_jid E jid d of Found (_, p) \<Rightarrow> p = password | _ \<Rightarrow> False)"

definition new_user :: "env \<Rightarrow> cstr \<Rightarrow> cstr \<Rightarrow> user_row" where
  "new_user E jid password =
     \<lparr> u_jid = jid, u_password_plain = password, u_created_at = now_seconds E, u_disabled = False,
       u_scram_salt = None, u_scram_stored_key = None, u_scram_server_key = None,
       u_scram_iterations = 4096 \<rparr>"

definition storage_users_create :: "env \<Rightarrow> cstr \<Rightarrow> cstr \<Rightarrow> database \<Rightarrow> int \<times> database" where
  "storage_users_create E jid password d =
     (if \<not> sql_ready E SQL_USER_CREATE \<or> \<not> step_ok E SQL_USER_CREATE then (- 1, d)
      else if find_user jid d \<noteq> None then (- 1, d)
      else (0, d\<lparr>users := users d @ [new_user E jid password]\<rparr>))"

text \<open>The number of changed rows is asked for after the connection was closed: what that
  call returns is the argument \<open>changes\<close>.\<close>

definition storage_users_disable :: "env \<Rightarrow> int \<Rightarrow> cstr \<Rightarrow> database \<Rightarrow> int \<times> database" where
  "storage_users_disable E changes jid d =
     (if \<not> sql_ready E SQL_USER_DISABLE \<or> \<not> step_ok E SQL_USER_DISABLE then (- 1, d)
      else
        (let d1 = d\<lparr>users := map (\<lambda>u. if u_jid u = jid then u\<lparr>u_disabled := True\<rparr> else u) (users d)\<rparr>
         in if changes = 0 then (- 1, d1) else (0, d1)))"

definition storage_users_delete :: "env \<Rightarrow> cstr \<Rightarrow> database \<Rightarrow> int \<times> database" where
  "storage_users_delete E jid d =
     (if \<not> sql_ready E SQL_USER_DELETE \<or> \<not> step_ok E SQL_USER_DELETE then (- 1, d)
      else (0, d\<lparr>users := filter (\<lambda>u. u_jid u \<noteq> jid) (users d)\<rparr>))"

record scram_credentials =
  cr_stored_key :: cstr
  cr_server_key :: cstr
  cr_salt :: cstr
  cr_iterations :: int

definition decode_credentials :: "cstr \<Rightarrow> cstr \<Rightarrow> cstr \<Rightarrow> int \<Rightarrow> scram_credentials fetched" where
  "decode_credentials salt_b64 stored_b64 server_b64 iters =
     (case (scram_base64_decode salt_b64 64, scram_base64_decode stored_b64 32,
            scram_base64_decode server_b64 32) of
        (Some salt, Some stored, Some srv) \<Rightarrow>
          if length stored \<noteq> 32 \<or> length srv \<noteq> 32 then Fetch_error
          else Found \<lparr> cr_stored_key = stored, cr_server_key = srv, cr_salt = salt,
                       cr_iterations = iters \<rparr>
      | _ \<Rightarrow> Fetch_error)"

definition storage_scram_get_by_jid :: "env \<Rightarrow> cstr \<Rightarrow> database \<Rightarrow> scram_credentials fetched" where
  "storage_scram_get_by_jid E jid d =
     (if \<not> sql_ready E SQL_SCRAM_GET then Fetch_error
      else if \<not> step_ok E SQL_SCRAM_GET then Not_found
      else case find (\<lambda>u. u_jid u = jid \<and> u_scram_stored_key u \<noteq> None) (users d) of
          None \<Rightarrow> Not_found
        | Some u \<Rightarrow>
            (case (u_scram_salt u, u_scram_stored_key u, u_scram_server_key u) of
               (Some salt, Some stored, Some srv) \<Rightarrow>
                 decode_credentials salt stored srv (u_scram_iterations u)
             | _ \<Rightarrow> Not_found))"

definition storage_scram_has_scram_credentials :: "env \<Rightarrow> cstr \<Rightarrow> database \<Rightarrow> int" where
  "storage_scram_has_scram_credentials E jid d =
     (if \<not> sql_ready E SQL_SCRAM_HAS then - 1
      else if step_ok E SQL_SCRAM_HAS \<and>
              list_ex (\<lambda>u. u_jid u = jid \<and> u_scram_stored_key u \<noteq> None) (users d) then 1 else 0)"

definition set_scram :: "cstr \<Rightarrow> cstr \<Rightarrow> cstr \<Rightarrow> int \<Rightarrow> user_row \<Rightarrow> user_row" where
  "set_scram salt stored srv iters u =
     u\<lparr>u_scram_salt := Some salt, u_scram_stored_key := Some stored,
       u_scram_server_key := Some srv, u_scram_iterations := iters\<rparr>"

definition storage_scram_set_password ::
    "env \<Rightarrow> cstr \<Rightarrow> cstr \<Rightarrow> cstr \<Rightarrow> int \<Rightarrow> database \<Rightarrow> int \<times> database" where
  "storage_scram_set_password E jid password salt iterations d =
     (if salt = [] \<or> iterations < 1 then (- 1, d)
      else case scram_saslprep password of
          None \<Rightarrow> (- 1, d)
        | Some normalized \<Rightarrow>
            (case scram_hi E normalized salt iterations of
               None \<Rightarrow> (- 1, d)
             | Some salted \<Rightarrow>
                 (case (scram_base64_encode salt 128,
                        scram_base64_encode (scram_derive_stored_key E salted) 128,
                        scram_base64_encode (scram_derive_server_key E salted) 128) of
                    (Some salt64, Some stored64, Some server64) \<Rightarrow>
                      if \<not> sql_ready E SQL_SCRAM_SET \<or> \<not> step_ok E SQL_SCRAM_SET then (- 1, d)
                      else (0, d\<lparr>users := map (\<lambda>u. if u_jid u = jid
                              then set_scram salt64 stored64 server64 iterations u else u) (users d)\<rparr>)
                  | _ \<Rightarrow> (- 1, d))))"

subsection \<open>The handler\<close>

definition NS_SASL :: cstr where
  "NS_SASL = ''urn:ietf:params:xml:ns:xmpp-sasl''"

definition cut0 :: "cstr \<Rightarrow> cstr" where
  "cut0 = before (CHR 0x00)"

definition scram_failure_xml :: "cstr \<Rightarrow> cstr" where
  "scram_failure_xml condition =
     ''<failure'' @ attr ''xmlns'' NS_SASL @ ''><'' @ condition @ ''/></failure>''"

text \<open>Write to the client through the adapter, whose result is ignored.\<close>

definition scram_write :: "env \<Rightarrow> cstr \<Rightarrow> server \<Rightarrow> server" where
  "scram_write E data s = snd (write_fn E (write_ud (ctx s)) data s)"

definition scram_fail :: "env \<Rightarrow> cstr \<Rightarrow> server \<Rightarrow> int \<times> server" where
  "scram_fail E condition s = (- 2, scram_write E (scram_failure_xml condition) s)"

definition upd_scram :: "(scram_state \<Rightarrow> scram_state) \<Rightarrow> server \<Rightarrow> server" where
  "upd_scram f = upd (\<lambda>c. c\<lparr>scram := f (scram c)\<rparr>)"

text \<open>The challenge element around an encoded server-first message, in a 4096-byte buffer;
  a message that does not fit is left out.\<close>

definition challenge_xml :: "cstr option \<Rightarrow> cstr" where
  "challenge_xml b64 =
     (let head = ''<challenge'' @ attr ''xmlns'' NS_SASL @ ''>'';
          body = (case b64 of
                    None \<Rightarrow> []
                  | Some b \<Rightarrow> if length head + length b + 20 < 4096 then b else [])
      in head @ body @ ''</challenge>'')"

text \<open>Step 1, the account is unknown: a challenge with a random salt.\<close>

definition scram_unknown_user :: "env \<Rightarrow> server \<Rightarrow> int \<times> server" where
  "scram_unknown_user E s =
     (let cn = sc_client_nonce (scram (ctx s));
          dummy_salt = map (urandom E) [0..<16];
          nonce = scram_generate_nonce E 16 128 32;
          salt_b64 = (case scram_base64_encode dummy_salt 64 of None \<Rightarrow> [] | Some b \<Rightarrow> b);
          msg = ''r='' @ cn @ nonce @ '',s='' @ salt_b64 @ '',i='' @ show_nat 4096;
          s1 = upd_scram (\<lambda>c. c\<lparr>sc_server_nonce := take 255 (snprintf 256 (cn @ nonce)),
                 sc_salt_base64 := take 127 salt_b64, sc_iteration_count := 4096,
                 sc_salt := dummy_salt\<rparr>) s
      in if length msg \<ge> 4096
         then scram_fail E ''temporary-auth-failure'' (upd_scram (\<lambda>c. c\<lparr>sc_has_server_first := False\<rparr>) s1)
         else
           (let s2 = upd_scram (\<lambda>c. c\<lparr>sc_server_first := take 511 msg, sc_has_server_first := True,
                       sc_has_client_final := False\<rparr>) s1
            in (1, scram_write E (challenge_xml (scram_base64_encode (take 511 msg) 4096)) s2)))"

definition show_decimal :: "int \<Rightarrow> cstr" where
  "show_decimal i = (if i < 0 then ''-'' @ show_nat (nat (- i)) else show_nat (nat i))"

text \<open>Step 1, the account has SCRAM credentials.\<close>

definition scram_known_user :: "env \<Rightarrow> scram_credentials \<Rightarrow> server \<Rightarrow> int \<times> server" where
  "scram_known_user E cr s =
     (let cn = sc_client_nonce (scram (ctx s));
          server_part = scram_generate_nonce E 0 64 32;
          server_nonce = snprintf 256 (cn @ server_part);
          salt_b64 = (case scram_base64_encode (cr_salt cr) 128 of
                        None \<Rightarrow> sc_salt_base64 (scram (ctx s)) | Some b \<Rightarrow> b);
          msg = ''r='' @ server_nonce @ '',s='' @ salt_b64 @ '',i='' @ show_decimal (cr_iterations cr);
          s1 = upd_scram (\<lambda>c. c\<lparr>sc_stored_key := cr_stored_key cr, sc_server_key := cr_server_key cr,
                 sc_salt := cr_salt cr, sc_iteration_count := cr_iterations cr,
                 sc_server_nonce := server_nonce, sc_salt_base64 := salt_b64,
                 sc_server_first := take 511 (snprintf 4096 msg), sc_has_server_first := True,
                 sc_has_client_final := False\<rparr>) s
      in (1, scram_write E (challenge_xml (scram_base64_encode (snprintf 4096 msg) 2048)) s1))"

text \<open>Step 1, after the username was accepted: the nonce and the account.\<close>

definition scram_lookup :: "env \<Rightarrow> cstr \<Rightarrow> cstr \<Rightarrow> server \<Rightarrow> int \<times> server" where
  "scram_lookup E decoded rest s =
     (case scram_get_attr rest (CHR ''r'') 256 of
        None \<Rightarrow> scram_fail E ''incorrect-encoding'' s
      | Some r \<Rightarrow>
          (let bare_len = length decoded - length rest - 1;
               s1 = upd_scram (\<lambda>c. c\<lparr>sc_client_nonce := cut0 (take 127 r),
                      sc_client_first_bare := cut0 (take 511 (take bare_len decoded))\<rparr>) s;
               jid = sc_username (scram (ctx s)) @ ''@'' @ domain (ctx s)
           in if length jid \<ge> 2048 then (- 2, s1)
              else case storage_scram_get_by_jid E jid (db s1) of
                  Found cr \<Rightarrow> scram_known_user E cr s1
                | _ \<Rightarrow> scram_unknown_user E s1))"

definition scram_client_first :: "env \<Rightarrow> cstr \<Rightarrow> server \<Rightarrow> int \<times> server" where
  "scram_client_first E inp s =
     (case scram_base64_decode inp 1025 of
        None \<Rightarrow> scram_fail E ''invalid-encoding'' s
      | Some decoded \<Rightarrow>
          if length decoded < 3 \<or> hd decoded \<notin> {CHR ''n'', CHR ''y'', CHR ''p''}
          then scram_fail E ''incorrect-encoding'' s
          else case strchr decoded (CHR '','') of
              None \<Rightarrow> (- 2, s)
            | Some c1 \<Rightarrow>
                (case strchr (tl c1) (CHR '','') of
                   None \<Rightarrow> (- 2, s)
                 | Some c2 \<Rightarrow>
                     (let user_attr = before (CHR '','') (tl c1) in
                      if length user_attr < 3 \<or> take 2 user_attr \<noteq> ''n='' then (- 2, s)
                      else
                        (let user = cut0 (take 1023 (drop 2 user_attr));
                             s1 = upd_scram (\<lambda>c. c\<lparr>sc_username := user\<rparr>) s
                         in if \<not> scram_validate_username user
                            then scram_fail E ''invalid-username-encoding'' s1
                            else scram_lookup E decoded (tl c2) s1))))"

text \<open>Step 2, with the nonce and the proof of the client: the verification.\<close>

definition scram_auth_message :: "cstr \<Rightarrow> cstr \<Rightarrow> scram_state \<Rightarrow> cstr option" where
  "scram_auth_message c r sc =
     (let cf = ''c='' @ c @ '',r='' @ r in
      if length cf \<ge> 1024 then None
      else scram_build_auth_message (sc_client_first_bare sc) (sc_server_first sc) cf 2048)"

definition scram_proof_ok :: "env \<Rightarrow> scram_state \<Rightarrow> cstr \<Rightarrow> cstr \<Rightarrow> bool" where
  "scram_proof_ok E sc auth proof \<longleftrightarrow>
     (let client_key = xor_bytes proof (scram_client_signature E (sc_stored_key sc) auth)
      in scram_ct_memeq (scram_hash E client_key (uninit32 E)) (sc_stored_key sc) 32)"

definition scram_success_xml :: "cstr \<Rightarrow> cstr" where
  "scram_success_xml v = ''<success'' @ attr ''xmlns'' NS_SASL @ ''>v='' @ v @ ''</success>''"

definition scram_verify :: "env \<Rightarrow> cstr \<Rightarrow> cstr \<Rightarrow> cstr \<Rightarrow> server \<Rightarrow> int \<times> server" where
  "scram_verify E c r proof s =
     (let sc = scram (ctx s) in
      case scram_auth_message c r sc of
        None \<Rightarrow> (- 2, s)
      | Some auth \<Rightarrow>
          if \<not> scram_proof_ok E sc auth proof
          then (- 1, scram_write E (scram_failure_xml ''invalid-proof'') s)
          else
            (let v = (case scram_base64_encode (scram_server_signature E (sc_server_key sc) auth) 128 of
                        None \<Rightarrow> [] | Some b \<Rightarrow> b);
                 s1 = scram_write E (snprintf 4096 (scram_success_xml v)) s
             in (0, upd (\<lambda>x. x\<lparr>authcid := take 1023 (sc_username sc)\<rparr>) s1)))"

definition scram_client_final :: "env \<Rightarrow> cstr \<Rightarrow> server \<Rightarrow> int \<times> server" where
  "scram_client_final E inp s =
     (case scram_base64_decode inp 1024 of
        None \<Rightarrow> scram_fail E ''invalid-encoding'' s
      | Some decoded \<Rightarrow>
          (case scram_get_attr decoded (CHR ''c'') 512 of
             None \<Rightarrow> scram_fail E ''incorrect-encoding'' s
           | Some c \<Rightarrow>
               (case scram_get_attr decoded (CHR ''r'') 256 of
                  None \<Rightarrow> scram_fail E ''incorrect-encoding'' s
                | Some r \<Rightarrow>
                    if cut0 r \<noteq> sc_server_nonce (scram (ctx s))
                    then scram_fail E ''mismatched-proof'' s
                    else case scram_get_attr decoded (CHR ''p'') 512 of
                        None \<Rightarrow> scram_fail E ''incorrect-encoding'' s
                      | Some p \<Rightarrow>
                          (case scram_base64_decode (cut0 p) 64 of
                             None \<Rightarrow> scram_fail E ''invalid-proof'' s
                           | Some proof \<Rightarrow>
                               if length proof \<noteq> 32 then scram_fail E ''invalid-proof'' s
                               else scram_verify E (cut0 c) (cut0 r) proof s))))"

definition handle_scram_sha256 :: "env \<Rightarrow> int \<Rightarrow> cstr \<Rightarrow> server \<Rightarrow> int \<times> server" where
  "handle_scram_sha256 E step inp s =
     (if step = 1 then scram_client_first E inp s
      else if step = 2 then scram_client_final E inp s
      else (- 2, s))"

subsection \<open>Lemmas\<close>

lemma scram_ct_memeq_eq: "scram_ct_memeq = ct_memeq"
  by (intro ext) (simp add: scram_ct_memeq_def ct_memeq_def)

lemma scram_write_simps [simp]:
  "ctx (scram_write E d s) = ctx s"
  "g_sessions (scram_write E d s) = g_sessions s"
  "db (scram_write E d s) = db s"
  "stream_errors (scram_write E d s) = stream_errors s"
  by (simp_all add: scram_write_def)

lemma scram_fail_simps [simp]:
  "fst (scram_fail E c s) = - 2"
  "ctx (snd (scram_fail E c s)) = ctx s"
  "g_sessions (snd (scram_fail E c s)) = g_sessions s"
  "db (snd (scram_fail E c s)) = db s"
  "stream_errors (snd (scram_fail E c s)) = stream_errors s"
  by (simp_all add: scram_fail_def)

text \<open>What the SCRAM handler may change of the session: the SCRAM state and, on success,
  the authenticated identity.\<close>

definition scram_keeps :: "server \<Rightarrow> server \<Rightarrow> bool" where
  "scram_keeps s s' \<longleftrightarrow> g_sessions s' = g_sessions s \<and> db s' = db s \<and>
     stream_errors s' = stream_errors s \<and>
     (\<exists>a sc. ctx s' = (ctx s)\<lparr>authcid := a, scram := sc\<rparr>)"

lemma scram_keeps_I:
  "g_sessions s' = g_sessions s \<Longrightarrow> db s' = db s \<Longrightarrow> stream_errors s' = stream_errors s \<Longrightarrow>
     ctx s' = (ctx s)\<lparr>authcid := authcid (ctx s'), scram := scram (ctx s')\<rparr> \<Longrightarrow> scram_keeps s s'"
  unfolding scram_keeps_def by blast

lemma upd_scram_simps [simp]:
  "ctx (upd_scram f s) = (ctx s)\<lparr>scram := f (scram (ctx s))\<rparr>"
  "g_sessions (upd_scram f s) = g_sessions s"
  "db (upd_scram f s) = db s"
  "stream_errors (upd_scram f s) = stream_errors s"
  by (simp_all add: upd_scram_def)

lemma scram_known_keeps: "scram_keeps s (snd (scram_known_user E cr s))"
  by (rule scram_keeps_I) (simp_all add: scram_known_user_def Let_def)

lemma scram_unknown_keeps: "scram_keeps s (snd (scram_unknown_user E s))"
  by (rule scram_keeps_I) (simp_all add: scram_unknown_user_def Let_def)

lemma scram_keeps_refl [simp]: "scram_keeps s s"
  by (rule scram_keeps_I) simp_all

lemma scram_keeps_fail [simp]: "scram_keeps s (snd (scram_fail E c s))"
  by (rule scram_keeps_I) simp_all

lemma scram_keeps_upd: "scram_keeps (upd_scram f s) s' \<Longrightarrow> scram_keeps s s'"
  unfolding scram_keeps_def by (auto simp: upd_scram_def)

lemma scram_keeps_upd_refl: "scram_keeps s (upd_scram f s)"
  by (rule scram_keeps_upd [of f]) simp

lemma scram_lookup_keeps: "scram_keeps s (snd (scram_lookup E dec rest s))"
  unfolding scram_lookup_def Let_def
  by (auto split: option.splits fetched.splits
      intro: scram_keeps_upd_refl scram_keeps_upd [OF scram_known_keeps]
        scram_keeps_upd [OF scram_unknown_keeps])

lemma scram_first_keeps: "scram_keeps s (snd (scram_client_first E inp s))"
  unfolding scram_client_first_def Let_def
  by (auto split: option.splits intro: scram_keeps_upd [OF scram_lookup_keeps]
      scram_keeps_upd [OF scram_keeps_fail])

lemma scram_verify_keeps: "scram_keeps s (snd (scram_verify E c r p s))"
  unfolding scram_verify_def Let_def
  by (auto split: option.splits intro!: scram_keeps_I)

lemma scram_final_keeps: "scram_keeps s (snd (scram_client_final E inp s))"
  unfolding scram_client_final_def
  by (auto split: option.splits intro: scram_verify_keeps)

lemma handle_scram_keeps: "scram_keeps s (snd (handle_scram_sha256 E step inp s))"
  by (simp add: handle_scram_sha256_def scram_first_keeps scram_final_keeps)

subsection \<open>Properties\<close>

definition b64_digits :: "cstr \<Rightarrow> cstr" where
  "b64_digits inp = filter (\<lambda>c. B64_DECODE ! of_char c \<noteq> None)
     (takeWhile (\<lambda>c. c \<noteq> CHR ''='' \<and> c \<noteq> CHR 0x00) inp)"

text \<open>What the accumulator holds above its low 13 bits is never looked at.\<close>

lemma low_bits_step:
  fixes v w :: nat
  assumes "v mod 2 ^ 7 = w mod 2 ^ 7"
  shows "(v * 64 + x) mod 2 ^ 32 mod 2 ^ 13 = (w * 64 + x) mod 2 ^ 32 mod 2 ^ 13"
proof -
  have "(v * 64) mod (2 ^ 7 * 64) = (w * 64) mod (2 ^ 7 * 64)"
    using assms by (simp only: mult_mod_left [symmetric])
  then have "(v * 64 + x) mod 2 ^ 13 = (w * 64 + x) mod 2 ^ 13"
    using mod_add_cong [of "v * 64" "2 ^ 13" "w * 64" x x] by simp
  then show ?thesis by (simp add: mod_mod_cancel)
qed

lemma low_bits_byte:
  fixes v w :: nat
  assumes "v mod 2 ^ 13 = w mod 2 ^ 13" "k < 6"
  shows "v div 2 ^ k mod 256 = w div 2 ^ k mod 256"
proof -
  have "v div 2 ^ k mod 256 = v mod 2 ^ (k + 8) div 2 ^ k" for v :: nat
    using take_bit_drop_bit [of 8 k v] by (simp add: take_bit_eq_mod drop_bit_eq_div add.commute)
  moreover have "v mod 2 ^ (k + 8) = w mod 2 ^ (k + 8)"
  proof -
    have d: "(2 :: nat) ^ (k + 8) dvd 2 ^ 13" using assms(2) by (intro le_imp_power_dvd) simp
    have "v mod 2 ^ (k + 8) = v mod 2 ^ 13 mod 2 ^ (k + 8)" using d by (simp add: mod_mod_cancel)
    also have "\<dots> = w mod 2 ^ (k + 8)" using d assms(1) by (simp add: mod_mod_cancel)
    finally show ?thesis .
  qed
  ultimately show ?thesis by simp
qed

lemma scram_b64_low_bits:
  "bits < 8 \<Longrightarrow> v mod 2 ^ 7 = w mod 2 ^ 7 \<Longrightarrow>
     scram_b64_loop inp v bits cap out = scram_b64_loop inp w bits cap out"
proof (induction inp arbitrary: v w bits out)
  case (Cons c cs)
  show ?case
  proof (cases "c = CHR ''='' \<or> c = CHR 0x00 \<or> B64_DECODE ! of_char c = None")
    case True
    then show ?thesis using Cons.IH [OF Cons.prems] by auto
  next
    case False
    then obtain x where x: "B64_DECODE ! of_char c = Some x" by auto
    let ?v = "(v * 64 + x) mod 2 ^ 32" and ?w = "(w * 64 + x) mod 2 ^ 32"
    have low: "?v mod 2 ^ 13 = ?w mod 2 ^ 13" by (rule low_bits_step [OF Cons.prems(2)])
    then have "?v mod 2 ^ 13 mod 2 ^ 7 = ?w mod 2 ^ 13 mod 2 ^ 7" by simp
    then have low7: "?v mod 2 ^ 7 = ?w mod 2 ^ 7" by (simp add: mod_mod_cancel)
    have byte: "?v div 2 ^ (bits + 6 - 8) mod 256 = ?w div 2 ^ (bits + 6 - 8) mod 256"
      using Cons.prems(1) by (intro low_bits_byte [OF low]) simp
    have IH: "scram_b64_loop cs ?v b cap o1 = scram_b64_loop cs ?w b cap o1" if "b < 8" for b o1
      by (rule Cons.IH [OF that low7])
    show ?thesis
    proof (cases "bits + 6 \<ge> 8")
      case True
      have "bits + 6 - 8 < 8" using Cons.prems(1) by simp
      then show ?thesis using False x True byte IH unfolding scram_b64_loop.simps Let_def by simp
    next
      case small: False
      then show ?thesis using False x IH [of "bits + 6"] unfolding scram_b64_loop.simps Let_def by simp
    qed
  qed
qed simp

lemma scram_b64_loop_length:
  "bits < 8 \<Longrightarrow> length out \<le> cap \<Longrightarrow>
     map_option length (scram_b64_loop inp val bits cap out) =
       (let n = length out + (6 * length (b64_digits inp) + bits) div 8 in
        if n \<le> cap then Some n else None)"
proof (induction inp val bits cap out rule: scram_b64_loop.induct)
  case (2 c cs val bits cap out)
  show ?case
  proof (cases "c = CHR ''='' \<or> c = CHR 0x00 \<or> B64_DECODE ! of_char c = None")
    case True
    then show ?thesis using 2 by (auto simp: b64_digits_def split: option.splits)
  next
    case False
    then obtain v where v: "B64_DECODE ! of_char c = Some v" by auto
    have digits: "b64_digits (c # cs) = c # b64_digits cs"
      using False by (simp add: b64_digits_def)
    show ?thesis
    proof (cases "bits + 6 \<ge> 8")
      case wide: True
      have split: "(6 * length (b64_digits (c # cs)) + bits) div 8 =
          Suc ((6 * length (b64_digits cs) + (bits + 6 - 8)) div 8)"
        using wide by (simp add: digits)
      show ?thesis
      proof (cases "length out < cap")
        case True
        have "bits + 6 - 8 < 8" using 2(4) by simp
        moreover have "length (out @ [char_of ((val * 64 + v) mod 2 ^ 32 div 2 ^ (bits + 6 - 8) mod 256)]) \<le> cap"
          using True by simp
        ultimately show ?thesis
          using 2(2) [OF _ v refl refl wide] True False wide v
          unfolding split by (simp add: Let_def)
      qed (use v wide False split in \<open>simp add: Let_def\<close>)
    next
      case small: False
      then show ?thesis
        using 2(3) [OF _ v refl refl] False v 2(5) by (simp add: Let_def digits algebra_simps)
    qed
  qed
qed (simp add: b64_digits_def)

lemma scram_decode_exact_length:
  "map_option length (scram_base64_decode inp cap) =
     (let n = 6 * length (b64_digits inp) div 8 in if n \<le> cap then Some n else None)"
  using scram_b64_loop_length [of 0 "[]" cap inp 0] by (simp add: scram_base64_decode_def)

lemma b64_digits_length: "length (b64_digits inp) \<le> length inp"
  unfolding b64_digits_def by (rule le_trans [OF length_filter_le length_takeWhile_le])


lemma b64_groups_length: "length (b64_groups bs) = (length bs + 2) div 3 * 4"
proof (induction bs rule: b64_groups.induct)
  case (4 a b c rest)
  have "length (a # b # c # rest) + 2 = length rest + 2 + 3" by simp
  then have "(length (a # b # c # rest) + 2) div 3 = Suc ((length rest + 2) div 3)" by linarith
  with 4 [OF refl refl refl] show ?case by (simp only: b64_groups.simps Let_def list.size) simp
qed (simp_all add: Let_def)

lemma b64_groups_pad: "length bs mod 3 \<noteq> 0 \<Longrightarrow> CHR ''='' \<in> set (b64_groups bs)"
  by (induction bs rule: b64_groups.induct) (auto simp: Let_def mod_Suc split: if_splits)

lemma b64_digits_subset: "length (b64_digits t) \<le> length (filter (\<lambda>c. B64_DECODE ! of_char c \<noteq> None) t)"
proof -
  have "length (filter P (takeWhile Q t)) \<le> length (filter P t)" for P Q
    by (induction t) auto
  then show ?thesis by (simp add: b64_digits_def)
qed

lemma filter_drop_two:
  assumes "x \<in> set xs" "y \<in> set xs" "x \<noteq> y" "\<not> P x" "\<not> P y"
  shows "length (filter P xs) + 2 \<le> length xs"
proof -
  have "card {x, y} \<le> card (set (filter (\<lambda>z. \<not> P z) xs))"
    using assms by (intro card_mono) auto
  also have "\<dots> \<le> length (filter (\<lambda>z. \<not> P z) xs)" by (rule card_length)
  finally show ?thesis
    using assms(3) sum_length_filter_compl [of P xs] by simp
qed

text \<open>The decoder's table is not that of the encoder, and the SCRAM keys the server
  stores cannot be read back: if the encoding of a stored key has a single character outside
  the decoder's table, looking up the credentials fails.\<close>

theorem enrolled_key_unreadable:
  assumes "length key = 32" "scram_base64_encode key 128 = Some t"
    and "c \<in> set t" "c \<noteq> CHR ''=''" "B64_DECODE ! of_char c = None"
  shows "decode_credentials salt t srv iters = Fetch_error"
proof -
  have t: "t = b64_groups key"
    using assms(2) by (simp add: scram_base64_encode_def split: if_splits)
  have "B64_DECODE ! of_char (CHR ''='') = None"
    by (simp add: B64_DECODE_def nones_def nth_append)
  then have "length (filter (\<lambda>c. B64_DECODE ! of_char c \<noteq> None) t) + 2 \<le> length t"
    using assms b64_groups_pad [of key] by (intro filter_drop_two [of c _ "CHR ''=''"]) (auto simp: t)
  then have "length (b64_digits t) \<le> 42"
    using b64_digits_subset [of t] b64_groups_length [of key] assms(1) by (simp add: t)
  then have "6 * length (b64_digits t) div 8 < 32" by simp
  then have "scram_base64_decode t 32 = Some out \<Longrightarrow> length out \<noteq> 32" for out
    using scram_b64_loop_length [of 0 "[]" 32 t 0] by (auto simp: scram_base64_decode_def Let_def)
  then show ?thesis
    by (auto simp: decode_credentials_def split: option.splits)
qed

theorem enrolled_key_unreadable_witness:
  "\<exists>t. scram_base64_encode (replicate 32 (CHR 0xFF)) 128 = Some t \<and>
     decode_credentials ''Qw=='' t ''Qw=='' 4096 = Fetch_error"
proof (intro exI conjI)
  show enc: "scram_base64_encode (replicate 32 (CHR 0xFF)) 128 = Some (replicate 42 (CHR ''/'') @ ''8='')"
    by code_simp
  have "B64_DECODE ! of_char (CHR ''/'') = None"
    by (simp add: B64_DECODE_def nones_def nth_append)
  then show "decode_credentials ''Qw=='' (replicate 42 (CHR ''/'') @ ''8='') ''Qw=='' 4096 = Fetch_error"
    by (intro enrolled_key_unreadable [OF _ enc, of "CHR ''/''"]) auto
qed

lemma scram_known_keys:
  "sc_stored_key (scram (ctx (snd (scram_known_user E cr s)))) = cr_stored_key cr"
  "sc_server_key (scram (ctx (snd (scram_known_user E cr s)))) = cr_server_key cr"
  "sc_username (scram (ctx (snd (scram_known_user E cr s)))) = sc_username (scram (ctx s))"
  by (simp_all add: scram_known_user_def Let_def)

lemma scram_unknown_keys:
  "sc_stored_key (scram (ctx (snd (scram_unknown_user E s)))) = sc_stored_key (scram (ctx s))"
  "sc_server_key (scram (ctx (snd (scram_unknown_user E s)))) = sc_server_key (scram (ctx s))"
  "sc_username (scram (ctx (snd (scram_unknown_user E s)))) = sc_username (scram (ctx s))"
  by (simp_all add: scram_unknown_user_def Let_def)

lemma scram_unknown_answers:
  assumes "length (sc_client_nonce (scram (ctx s))) \<le> 127"
  shows "fst (scram_unknown_user E s) = 1"
proof -
  have "length (scram_generate_nonce E 16 128 32) = 64"
    by (simp add: scram_generate_nonce_def)
  moreover have "scram_base64_encode (map (urandom E) [0..<16]) 64 =
      Some (b64_groups (map (urandom E) [0..<16]))"
    by (simp add: scram_base64_encode_def)
  moreover have "length (b64_groups (map (urandom E) [0..<16])) = 24"
    by (simp add: b64_groups_length)
  moreover have "length (show_nat 4096) = 4" by code_simp
  ultimately show ?thesis using assms
    by (simp add: scram_unknown_user_def Let_def)
qed

definition keys_after :: "scram_credentials fetched \<Rightarrow> scram_state \<Rightarrow> scram_state \<Rightarrow> bool" where
  "keys_after f old new = (case f of
       Found cr \<Rightarrow> sc_stored_key new = cr_stored_key cr \<and> sc_server_key new = cr_server_key cr
     | _ \<Rightarrow> sc_stored_key new = sc_stored_key old \<and> sc_server_key new = sc_server_key old)"

lemma scram_lookup_keys:
  assumes "scram_lookup E dec rest s = (1, s')"
  shows "sc_username (scram (ctx s')) = sc_username (scram (ctx s)) \<and>
    keys_after (storage_scram_get_by_jid E (sc_username (scram (ctx s)) @ ''@'' @ domain (ctx s)) (db s))
      (scram (ctx s)) (scram (ctx s'))"
proof -
  have s': "s' = snd (scram_lookup E dec rest s)" and one: "fst (scram_lookup E dec rest s) = 1"
    using assms by simp_all
  show ?thesis
    using one unfolding s'
    by (auto simp: scram_lookup_def keys_after_def scram_known_keys scram_unknown_keys Let_def
        split: option.splits if_splits fetched.splits)
qed

text \<open>Once a client-first message is answered with a challenge, the keys the proof will be
  checked against are those of the named account, if it has SCRAM credentials. If it has none,
  they are whatever keys the session held: those of the account named in an earlier attempt.\<close>

theorem scram_challenge_keys:
  assumes "scram_client_first E inp s = (1, s')"
  shows "keys_after
    (storage_scram_get_by_jid E (sc_username (scram (ctx s')) @ ''@'' @ domain (ctx s)) (db s))
    (scram (ctx s)) (scram (ctx s'))"
proof -
  obtain decoded rest user where
    "scram_lookup E decoded rest (upd_scram (\<lambda>c. c\<lparr>sc_username := user\<rparr>) s) = (1, s')"
    using assms
    by (auto simp: scram_client_first_def scram_fail_def Let_def split: option.splits if_splits)
  from scram_lookup_keys [OF this] show ?thesis
    by (auto simp: keys_after_def split: fetched.splits)
qed

definition hello_b64 :: cstr where
  "hello_b64 = [CHR 0x82, CHR 0x89, CHR 0x41, CHR 0x95, CHR 0x60, CHR 0x67, CHR 0x55, CHR 0x93,
     CHR 0x83, CHR 0x8a, CHR 0x45, CHR 0x89]"

lemma hello_b64_decoded: "scram_base64_decode hello_b64 1025 = Some ''n,n=a,r=b''"
  by code_simp

definition stale :: server where
  "stale = server0\<lparr>ctx := session0\<lparr>domain := ''d'', scram := scram0\<lparr>sc_stored_key := replicate 32 (CHR ''k'')\<rparr>\<rparr>\<rparr>"

theorem scram_challenge_keys_witness:
  "\<exists>s'. scram_client_first env0 hello_b64 stale = (1, s') \<and>
     sc_username (scram (ctx s')) = ''a'' \<and> sc_stored_key (scram (ctx s')) = replicate 32 (CHR ''k'')"
proof -
  let ?s' = "snd (scram_client_first env0 hello_b64 stale)"
  let ?s1 = "upd_scram (\<lambda>c. c\<lparr>sc_username := ''a''\<rparr>) stale"
  have start: "scram_client_first env0 hello_b64 stale = scram_lookup env0 ''n,n=a,r=b'' ''r=b'' ?s1"
    unfolding scram_client_first_def hello_b64_decoded
    by (simp add: strchr_def before_def cut0_def scram_validate_username_def forbidden_localpart_def)
  have no_account: "storage_scram_get_by_jid env0 ''a@d'' (db stale) = Not_found"
    by (simp add: storage_scram_get_by_jid_def sql_ready_def stale_def example_defs)
  have attr: "scram_get_attr ''r=b'' (CHR ''r'') 256 = Some ''b''" by (simp add: before_def)
  have dom: "domain (ctx stale) = ''d''" by (simp add: stale_def)
  have unknown: "scram_client_first env0 hello_b64 stale = scram_unknown_user env0 (upd_scram
      (\<lambda>c. c\<lparr>sc_client_nonce := ''b'', sc_client_first_bare := ''n,n=a''\<rparr>) ?s1)"
    unfolding start scram_lookup_def attr
    by (simp add: no_account dom cut0_def before_def)
  have "fst (scram_client_first env0 hello_b64 stale) = 1"
    unfolding unknown by (rule scram_unknown_answers) simp
  then have first: "scram_client_first env0 hello_b64 stale = (1, ?s')"
    by (simp add: prod_eq_iff)
  have user: "sc_username (scram (ctx ?s')) = ''a''"
    unfolding unknown by (simp add: scram_unknown_keys)
  with scram_challenge_keys [OF first] have "sc_stored_key (scram (ctx ?s')) = sc_stored_key (scram (ctx stale))"
    by (simp add: keys_after_def user dom no_account)
  moreover have "sc_stored_key (scram (ctx stale)) = replicate 32 (CHR ''k'')"
    by (simp add: stale_def)
  ultimately show ?thesis using first user by (intro exI [of _ ?s']) simp
qed

end
