(* ===== verification/IQ_Handlers.thy ===== *)
theory IQ_Handlers
  imports Presence Scram
begin

text \<open>
  The IQ handlers of the server: the roster (\<^verbatim>\<open>xmpp_iq.c\<close>), service discovery
  (\<^verbatim>\<open>xep-0030-service-discovery.c\<close>), vCards (\<^verbatim>\<open>xep-0054-vcard.c\<close>,
  \<^verbatim>\<open>storage/db_vcard.c\<close>), and the registry as \<^verbatim>\<open>server_init\<close> fills it.
  A child or sibling without a name (a text node) is taken to be skipped by the name tests;
  the source passes its NULL name to \<^verbatim>\<open>strcmp\<close>.
\<close>

subsection \<open>The roster\<close>

definition NS_ROSTER :: cstr where
  "NS_ROSTER = ''jabber:iq:roster''"

definition send_iq_error :: "env \<Rightarrow> cstr option \<Rightarrow> cstr \<Rightarrow> cstr \<Rightarrow> server \<Rightarrow> server" where
  "send_iq_error = send_error_iq"

definition item_parts :: "roster_item \<Rightarrow> cstr list \<Rightarrow> cstr list" where
  "item_parts item groups =
     [''<item'' @ attr ''jid'' (contact_jid item) @
        (if name item \<noteq> [] then attr ''name'' (name item) else []) @
        attr ''subscription'' (subscription item)] @
     (if ask item \<noteq> 0 then [attr ''ask'' ''subscribe''] else []) @
     (if groups = [] then [''/>'']
      else [''>''] @ map (\<lambda>g. ''<group>'' @ g @ ''</group>'') groups @ [''</item>''])"

definition append_item_xml :: "nat \<Rightarrow> roster_item \<Rightarrow> cstr list \<Rightarrow> cstr \<Rightarrow> bool \<times> cstr" where
  "append_item_xml cap item groups buf = append_all cap (item_parts item groups) buf"

text \<open>\<^verbatim>\<open>roster_list_cb\<close> over the rows, stopping at the first that does not fit.\<close>

fun append_items :: "nat \<Rightarrow> (roster_item \<times> cstr list) list \<Rightarrow> cstr \<Rightarrow> bool \<times> cstr" where
  "append_items cap [] buf = (False, buf)"
| "append_items cap ((i, gs) # igs) buf =
     (let r = append_item_xml cap i gs buf in
      if fst r then r else append_items cap igs (snd r))"

definition owner_jid :: "session \<Rightarrow> cstr" where
  "owner_jid c = snprintf 2048 (authcid c @ ''@'' @ domain c)"

definition roster_unchanged_xml :: "cstr option \<Rightarrow> cstr \<Rightarrow> cstr" where
  "roster_unchanged_xml iq_id ver =
     ''<iq'' @ attr ''type'' ''result'' @ id_attr iq_id @ ''><query'' @ attr ''xmlns'' NS_ROSTER @
     attr ''ver'' ver @ ''/></iq>''"

text \<open>The head of the full roster: the version is cleared before it is used, and the
  closing tag of the IQ already follows the opening tag of the query.\<close>

definition roster_head :: "cstr option \<Rightarrow> cstr" where
  "roster_head iq_id =
     ''<iq'' @ attr ''type'' ''result'' @ id_attr iq_id @ ''><query'' @ attr ''xmlns'' NS_ROSTER @
     ''></iq>''"

definition roster_full :: "env \<Rightarrow> cstr option \<Rightarrow> server \<Rightarrow> int \<times> server" where
  "roster_full E iq_id s =
     (let h = iq_append IQ_BUF_SIZE [] (roster_head iq_id) in
      if fst h \<noteq> 0 then (IQ_ERROR, s)
      else
        (let l = storage_roster_list E (owner_jid (ctx s)) (db s);
             items = append_items IQ_BUF_SIZE (snd l) (snd h)
         in if fst l \<noteq> 0 \<or> fst items then
              (IQ_ERROR, snd (iq_flush E (snd (iq_append IQ_BUF_SIZE []
                 (iq_error_xml iq_id ''cancel'' ''internal-server-error''))) s))
            else
              (let e = iq_append IQ_BUF_SIZE (snd items) ''</query></iq>'' in
               if fst e \<noteq> 0 then (IQ_ERROR, s)
               else (IQ_HANDLED, snd (iq_flush E (snd e) s)))))"

definition xmpp_iq_handle_roster_get :: "env \<Rightarrow> 's strophe \<Rightarrow> 's \<Rightarrow> cstr option \<Rightarrow> server \<Rightarrow> int \<times> server" where
  "xmpp_iq_handle_roster_get E L child iq_id s =
     (case get_attribute L child ''ver'' of
        None \<Rightarrow> roster_full E iq_id s
      | Some req_ver \<Rightarrow>
          if req_ver = [] then roster_full E iq_id s
          else case roster_ver_get E (owner_jid (ctx s)) (db s) of
              Found stored_ver \<Rightarrow>
                if req_ver = stored_ver then
                  (IQ_HANDLED, snd (iq_flush E
                     (snd (iq_append 512 [] (roster_unchanged_xml iq_id stored_ver))) s))
                else roster_full E iq_id s
            | _ \<Rightarrow> roster_full E iq_id s)"

definition send_roster_push :: "env \<Rightarrow> roster_item \<Rightarrow> cstr list \<Rightarrow> cstr \<Rightarrow> cstr \<Rightarrow> server \<Rightarrow> server" where
  "send_roster_push E item groups push_id owner s =
     (let ver = (case roster_ver_peek E owner (db s) of Found v \<Rightarrow> v | _ \<Rightarrow> []);
          h = iq_append 4096 [] (''<iq'' @ attr ''type'' ''set'' @ attr ''id'' push_id @ ''><query'' @
                attr ''xmlns'' NS_ROSTER @ (if ver \<noteq> [] then attr ''ver'' ver else []) @ ''>'')
      in if fst h \<noteq> 0 then s
         else
           (let e = iq_append 4096 (snd (append_item_xml 4096 item groups (snd h))) ''</query></iq>'' in
            if fst e \<noteq> 0 then s else snd (iq_flush E (snd e) s)))"

definition push_id :: "cstr option \<Rightarrow> cstr" where
  "push_id iq_id = snprintf 32 (''push-'' @ (case iq_id of None \<Rightarrow> ''r'' | Some i \<Rightarrow> i))"

definition roster_set_remove :: "env \<Rightarrow> cstr \<Rightarrow> cstr option \<Rightarrow> server \<Rightarrow> int \<times> server" where
  "roster_set_remove E contact iq_id s =
     (let owner = owner_jid (ctx s);
          r = storage_roster_remove E owner contact (db s);
          s1 = s\<lparr>db := snd r\<rparr>
      in if fst r \<noteq> 0 then (IQ_ERROR, send_iq_error E iq_id ''cancel'' ''internal-server-error'' s1)
         else
           (let s2 = snd (send_iq_result E 256 iq_id s1);
                item = \<lparr> contact_jid = snprintf ROSTER_JID_MAX contact, name = [],
                         subscription = ''remove'', ask = 0 \<rparr>
            in (IQ_HANDLED, send_roster_push E item [] (push_id iq_id) owner s2)))"

text \<open>The loops that compare the names of siblings and children with \<^verbatim>\<open>strcmp\<close>. A text node has no
  name, and comparing the null pointer crashes: the result \<^term>\<open>None\<close>.\<close>

fun second_item :: "'s strophe \<Rightarrow> 's list \<Rightarrow> bool option" where
  "second_item L [] = Some False"
| "second_item L (n # ns) =
     (case get_name L n of
        None \<Rightarrow> None
      | Some x \<Rightarrow> if x = ''item'' then Some True else second_item L ns)"

fun group_loop :: "'s strophe \<Rightarrow> 's list \<Rightarrow> cstr list \<Rightarrow> cstr list option" where
  "group_loop L [] groups = Some groups"
| "group_loop L (c # cs) groups =
     (if \<not> length groups < 32 then Some groups
      else case get_name L c of
          None \<Rightarrow> None
        | Some x \<Rightarrow>
            if x = ''group'' then
              (case get_text L c of
                 Some t \<Rightarrow> group_loop L cs (if t \<noteq> [] then groups @ [t] else groups)
               | None \<Rightarrow> group_loop L cs groups)
            else group_loop L cs groups)"

definition item_groups :: "'s strophe \<Rightarrow> 's \<Rightarrow> cstr list option" where
  "item_groups L item_el = group_loop L (get_children L item_el) []"

definition roster_set_upsert :: "env \<Rightarrow> 's strophe \<Rightarrow> 's \<Rightarrow> cstr \<Rightarrow> cstr option \<Rightarrow> server \<Rightarrow> int \<times> server" where
  "roster_set_upsert E L item_el contact iq_id s =
     (case item_groups L item_el of
        None \<Rightarrow> (IQ_ERROR, crash s)
      | Some groups \<Rightarrow>
          (let owner = owner_jid (ctx s);
               item = \<lparr> contact_jid = snprintf ROSTER_JID_MAX contact,
                        name = (case get_attribute L item_el ''name'' of
                                  None \<Rightarrow> [] | Some n \<Rightarrow> snprintf ROSTER_NAME_MAX n),
                        subscription = ''none'', ask = 0 \<rparr>;
               r = storage_roster_upsert E owner item groups (db s);
               s1 = s\<lparr>db := snd r\<rparr>
           in if fst r \<noteq> 0 then (IQ_ERROR, send_iq_error E iq_id ''cancel'' ''internal-server-error'' s1)
              else
                (let s2 = snd (send_iq_result E 256 iq_id s1)
                 in (IQ_HANDLED, send_roster_push E item groups (push_id iq_id) owner s2))))"

definition xmpp_iq_handle_roster_set :: "env \<Rightarrow> 's strophe \<Rightarrow> 's \<Rightarrow> cstr option \<Rightarrow> server \<Rightarrow> int \<times> server" where
  "xmpp_iq_handle_roster_set E L child iq_id s =
     (let bad = (IQ_ERROR, send_iq_error E iq_id ''modify'' ''bad-request'' s) in
      case get_child_by_name L child ''item'' of
        None \<Rightarrow> bad
      | Some item_el \<Rightarrow>
          (case second_item L (get_siblings L item_el) of
             None \<Rightarrow> (IQ_ERROR, crash s)
           | Some True \<Rightarrow> bad
           | Some False \<Rightarrow>
               (case get_attribute L item_el ''jid'' of
                  None \<Rightarrow> bad
                | Some contact \<Rightarrow>
                    if contact = [] then bad
                    else if get_attribute L item_el ''subscription'' = Some ''remove''
                    then roster_set_remove E contact iq_id s
                    else roster_set_upsert E L item_el contact iq_id s)))"

subsection \<open>vCards\<close>

definition VCARD_NS :: cstr where
  "VCARD_NS = ''vcard-temp''"
definition SQL_VCARD_GET :: cstr where
  "SQL_VCARD_GET = ''SELECT vcard_xml FROM vcards WHERE jid = ?''"
definition SQL_VCARD_SET :: cstr where
  "SQL_VCARD_SET = ''INSERT INTO vcards (jid, vcard_xml) VALUES (?, ?) ON CONFLICT(jid) DO UPDATE SET vcard_xml = excluded.vcard_xml''"
definition SQL_VCARD_DELETE :: cstr where
  "SQL_VCARD_DELETE = ''DELETE FROM vcards WHERE jid = ?''"

definition storage_vcard_get :: "env \<Rightarrow> cstr \<Rightarrow> database \<Rightarrow> cstr fetched" where
  "storage_vcard_get E jid d =
     (if \<not> sql_ready E SQL_VCARD_GET then Fetch_error
      else if \<not> step_ok E SQL_VCARD_GET then Fetch_error
      else case vcards d jid of Some x \<Rightarrow> Found x | None \<Rightarrow> Not_found)"

definition storage_vcard_set :: "env \<Rightarrow> cstr \<Rightarrow> cstr \<Rightarrow> database \<Rightarrow> int \<times> database" where
  "storage_vcard_set E jid x d =
     (if \<not> sql_ready E SQL_VCARD_SET \<or> \<not> step_ok E SQL_VCARD_SET then (- 1, d)
      else (0, d\<lparr>vcards := (vcards d)(jid \<mapsto> x)\<rparr>))"

definition storage_vcard_delete :: "env \<Rightarrow> cstr \<Rightarrow> database \<Rightarrow> int \<times> database" where
  "storage_vcard_delete E jid d =
     (if \<not> sql_ready E SQL_VCARD_DELETE \<or> \<not> step_ok E SQL_VCARD_DELETE then (- 1, d)
      else (0, d\<lparr>vcards := (vcards d)(jid := None)\<rparr>))"

definition bare_jid_from_full :: "cstr \<Rightarrow> cstr" where
  "bare_jid_from_full full = before (CHR ''/'') full"

definition vcard_error_xml :: "cstr option \<Rightarrow> cstr \<Rightarrow> cstr \<Rightarrow> cstr" where
  "vcard_error_xml iq_id err_type condition =
     ''<iq'' @ attr ''type'' ''error'' @ id_attr iq_id @ ''><vCard'' @ attr ''xmlns'' VCARD_NS @
     ''/><error'' @ attr ''type'' err_type @ ''><'' @ condition @ attr ''xmlns'' NS_STANZAS @
     ''/></error></iq>''"

definition vcard_send_error :: "env \<Rightarrow> cstr option \<Rightarrow> cstr \<Rightarrow> cstr \<Rightarrow> server \<Rightarrow> server" where
  "vcard_send_error E iq_id err_type condition s =
     (let r = iq_append IQ_BUF_SIZE [] (vcard_error_xml iq_id err_type condition) in
      if fst r = 0 then snd (iq_flush E (snd r) s) else s)"

datatype vcard_target = Vcard_ok | Vcard_missing | Vcard_foreign

definition resolve_target :: "env \<Rightarrow> cstr option \<Rightarrow> server \<Rightarrow> vcard_target" where
  "resolve_target E to s =
     (case to of
        None \<Rightarrow> Vcard_ok
      | Some t \<Rightarrow>
          if t = [] then Vcard_ok
          else if map_option tl (strchr t (CHR ''@'')) = Some (domain (ctx s)) then
            (case storage_users_get_by_jid E t (db s) of Found _ \<Rightarrow> Vcard_ok | _ \<Rightarrow> Vcard_missing)
          else Vcard_foreign)"

definition own_bare_jid :: "session \<Rightarrow> cstr" where
  "own_bare_jid c = authcid c @ ''@'' @ domain c"

definition opt_str :: "cstr option \<Rightarrow> cstr" where
  "opt_str v = (case v of None \<Rightarrow> [] | Some x \<Rightarrow> x)"

definition vcard_found :: "env \<Rightarrow> cstr option \<Rightarrow> cstr \<Rightarrow> cstr \<Rightarrow> server \<Rightarrow> int \<times> server" where
  "vcard_found E iq_id lookup xml s =
     (let h = iq_append IQ_BUF_SIZE [] (''<iq'' @ attr ''type'' ''result'' @
                attr ''id'' (opt_str iq_id) @ attr ''from'' (snprintf 1024 lookup) @ ''><vCard'' @
                attr ''xmlns'' VCARD_NS @ ''>'')
      in if fst h \<noteq> 0 then (IQ_ERROR, s)
         else
           (let b = (if length (snd h) + length xml < IQ_BUF_SIZE then snd h @ xml else snd h);
                e = iq_append IQ_BUF_SIZE b ''</vCard></iq>''
            in if fst e \<noteq> 0 then (IQ_ERROR, s) else (IQ_HANDLED, snd (iq_flush E (snd e) s))))"

definition vcard_empty :: "env \<Rightarrow> cstr option \<Rightarrow> cstr option \<Rightarrow> server \<Rightarrow> int \<times> server" where
  "vcard_empty E iq_id to s =
     (let r = iq_append IQ_BUF_SIZE [] (''<iq'' @ attr ''type'' ''result'' @
                attr ''id'' (opt_str iq_id) @ attr ''from'' (opt_str to) @ ''><vCard'' @
                attr ''xmlns'' VCARD_NS @ ''/></iq>'')
      in if fst r \<noteq> 0 then (IQ_ERROR, s) else (IQ_HANDLED, snd (iq_flush E (snd r) s)))"

definition handle_vcard_get :: "env \<Rightarrow> 's strophe \<Rightarrow> 's \<Rightarrow> cstr option \<Rightarrow> server \<Rightarrow> int \<times> server" where
  "handle_vcard_get E L st iq_id s =
     (let to = get_attribute L st ''to'' in
      case resolve_target E to s of
        Vcard_missing \<Rightarrow> (IQ_ERROR, vcard_send_error E iq_id ''cancel'' ''service-unavailable'' s)
      | Vcard_foreign \<Rightarrow> (IQ_ERROR, vcard_send_error E iq_id ''cancel'' ''item-not-found'' s)
      | Vcard_ok \<Rightarrow>
          (let lookup = (if to \<noteq> None \<and> to \<noteq> Some [] then bare_jid_from_full (the to)
                         else own_bare_jid (ctx s))
           in case storage_vcard_get E lookup (db s) of
                Found xml \<Rightarrow> vcard_found E iq_id lookup xml s
              | _ \<Rightarrow> vcard_empty E iq_id to s))"

definition handle_vcard_set :: "env \<Rightarrow> 's strophe \<Rightarrow> 's \<Rightarrow> 's \<Rightarrow> cstr option \<Rightarrow> server \<Rightarrow> int \<times> server" where
  "handle_vcard_set E L st child iq_id s =
     (let to = get_attribute L st ''to'' in
      if to \<noteq> None \<and> to \<noteq> Some [] \<and> to \<noteq> Some (own_bare_jid (ctx s))
      then (IQ_ERROR, vcard_send_error E iq_id ''auth'' ''forbidden'' s)
      else case stanza_to_text L child of
          None \<Rightarrow> (IQ_ERROR, vcard_send_error E iq_id ''modify'' ''bad-request'' s)
        | Some xml \<Rightarrow>
            (let r = storage_vcard_set E (own_bare_jid (ctx s)) xml (db s);
                 s1 = s\<lparr>db := snd r\<rparr>
             in if fst r \<noteq> 0
                then (IQ_ERROR, vcard_send_error E iq_id ''wait'' ''internal-server-error'' s1)
                else
                  (let a = iq_append 256 [] (''<iq'' @ attr ''type'' ''result'' @
                             attr ''id'' (opt_str iq_id) @ ''/>'')
                   in if fst a = 0 then (IQ_HANDLED, snd (iq_flush E (snd a) s1))
                      else (IQ_ERROR, s1))))"

subsection \<open>Service discovery\<close>

definition NS_DISCO_INFO :: cstr where
  "NS_DISCO_INFO = ''http://jabber.org/protocol/disco#info''"
definition NS_DISCO_ITEMS :: cstr where
  "NS_DISCO_ITEMS = ''http://jabber.org/protocol/disco#items''"

definition server_features :: "cstr list" where
  "server_features =
     [''urn:xmpp:ping'', ''urn:xmpp:carbons:2'', ''urn:xmpp:forward:0'', ''urn:xmpp:receipts'',
      ''urn:xmpp:chat-markers:0'', ''urn:xmpp:features:rosterver'',
      ''http://jabber.org/protocol/disco#info'', ''http://jabber.org/protocol/disco#items'',
      ''jabber:iq:roster'', ''vcard-temp'', ''urn:xmpp:me-command:0'']"

datatype disco_target = TARGET_SERVER | TARGET_LOCAL_USER | TARGET_LOCAL_MISSING | TARGET_UNKNOWN

definition disco_error_xml :: "cstr \<Rightarrow> cstr option \<Rightarrow> cstr \<Rightarrow> cstr" where
  "disco_error_xml ns iq_id condition =
     ''<iq'' @ attr ''type'' ''error'' @ id_attr iq_id @ ''><query'' @ attr ''xmlns'' ns @
     ''/><error'' @ attr ''type'' ''cancel'' @ ''><'' @ condition @ attr ''xmlns'' NS_STANZAS @
     ''/></error></iq>''"

definition send_disco_error :: "env \<Rightarrow> cstr \<Rightarrow> cstr option \<Rightarrow> cstr \<Rightarrow> server \<Rightarrow> server" where
  "send_disco_error E ns iq_id condition s =
     (let r = iq_append IQ_BUF_SIZE [] (disco_error_xml ns iq_id condition) in
      if fst r = 0 then snd (iq_flush E (snd r) s) else s)"

definition send_info_error :: "env \<Rightarrow> cstr option \<Rightarrow> cstr \<Rightarrow> server \<Rightarrow> server" where
  "send_info_error E = send_disco_error E NS_DISCO_INFO"

definition send_items_error :: "env \<Rightarrow> cstr option \<Rightarrow> cstr \<Rightarrow> server \<Rightarrow> server" where
  "send_items_error E = send_disco_error E NS_DISCO_ITEMS"

definition disco_resolve_target :: "env \<Rightarrow> cstr option \<Rightarrow> server \<Rightarrow> disco_target" where
  "disco_resolve_target E to s =
     (case to of
        None \<Rightarrow> TARGET_SERVER
      | Some t \<Rightarrow>
          if t = domain (ctx s) then TARGET_SERVER
          else if map_option tl (strchr t (CHR ''@'')) = Some (domain (ctx s)) then
            (if \<not> db_open_ok E then TARGET_UNKNOWN
             else case storage_users_get_by_jid E t (db s) of
                 Found _ \<Rightarrow> TARGET_LOCAL_USER
               | _ \<Rightarrow> TARGET_LOCAL_MISSING)
          else TARGET_UNKNOWN)"

definition disco_from :: "cstr option \<Rightarrow> server \<Rightarrow> cstr" where
  "disco_from to s = (case to of None \<Rightarrow> domain (ctx s) | Some t \<Rightarrow> if t = [] then domain (ctx s) else t)"

definition disco_info_parts :: "cstr option \<Rightarrow> cstr \<Rightarrow> disco_target \<Rightarrow> cstr list" where
  "disco_info_parts iq_id from_jid target =
     [''<iq'' @ attr ''type'' ''result'' @ id_attr iq_id @ attr ''from'' from_jid @ ''><query'' @
        attr ''xmlns'' NS_DISCO_INFO @ ''>'',
      (if target = TARGET_LOCAL_USER
       then ''<identity'' @ attr ''category'' ''account'' @ attr ''type'' ''registered'' @ ''/>''
       else ''<identity'' @ attr ''category'' ''server'' @ attr ''name'' ''PPMXMPP'' @
            attr ''type'' ''im'' @ ''/>'')] @
     map (\<lambda>f. ''<feature'' @ attr ''var'' f @ ''/>'') server_features @ [''</query></iq>'']"

definition xep0030_handle_disco_info_iq ::
    "env \<Rightarrow> 's strophe \<Rightarrow> 's \<Rightarrow> 's \<Rightarrow> cstr option \<Rightarrow> server \<Rightarrow> int \<times> server" where
  "xep0030_handle_disco_info_iq E L st child iq_id s =
     (let to = get_attribute L st ''to''; node = get_attribute L child ''node'';
          target = disco_resolve_target E to s
      in if target = TARGET_LOCAL_MISSING then
           (IQ_ERROR, send_info_error E iq_id ''service-unavailable'' s)
         else if target = TARGET_UNKNOWN then
           (IQ_ERROR, send_info_error E iq_id ''item-not-found'' s)
         else if node \<noteq> None \<and> node \<noteq> Some [] then
           (IQ_ERROR, send_info_error E iq_id ''item-not-found'' s)
         else
           (let r = append_all IQ_BUF_SIZE (disco_info_parts iq_id (disco_from to s) target) [] in
            if fst r then (IQ_ERROR, s) else (IQ_HANDLED, snd (iq_flush E (snd r) s))))"

definition xep0030_handle_disco_items_iq ::
    "env \<Rightarrow> 's strophe \<Rightarrow> 's \<Rightarrow> 's \<Rightarrow> cstr option \<Rightarrow> server \<Rightarrow> int \<times> server" where
  "xep0030_handle_disco_items_iq E L st child iq_id s =
     (let to = get_attribute L st ''to''; node = get_attribute L child ''node'';
          target = disco_resolve_target E to s
      in if target = TARGET_LOCAL_MISSING then
           (IQ_ERROR, send_items_error E iq_id ''service-unavailable'' s)
         else if target = TARGET_UNKNOWN then
           (IQ_ERROR, send_items_error E iq_id ''item-not-found'' s)
         else if node \<noteq> None \<and> node \<noteq> Some [] then
           (IQ_ERROR, send_items_error E iq_id ''item-not-found'' s)
         else
           (let r = iq_append 256 [] (''<iq'' @ attr ''type'' ''result'' @ id_attr iq_id @
                      attr ''from'' (disco_from to s) @ ''><query'' @ attr ''xmlns'' NS_DISCO_ITEMS @
                      ''/></iq>'')
            in if fst r \<noteq> 0 then (IQ_ERROR, s) else (IQ_HANDLED, snd (iq_flush E (snd r) s))))"

subsection \<open>The registry of the server\<close>

datatype iq_fn = F_roster_get | F_roster_set | F_disco_info | F_disco_items | F_ping | F_carbons
  | F_vcard_get | F_vcard_set | F_blocklist_get | F_block | F_unblock

fun run_iq_fn :: "env \<Rightarrow> 's strophe \<Rightarrow> (iq_fn, 's) iq_call" where
  "run_iq_fn E L F_roster_get st child i s = xmpp_iq_handle_roster_get E L child i s"
| "run_iq_fn E L F_roster_set st child i s = xmpp_iq_handle_roster_set E L child i s"
| "run_iq_fn E L F_disco_info st child i s = xep0030_handle_disco_info_iq E L st child i s"
| "run_iq_fn E L F_disco_items st child i s = xep0030_handle_disco_items_iq E L st child i s"
| "run_iq_fn E L F_ping st child i s = xep0199_handle_ping_iq E i s"
| "run_iq_fn E L F_carbons st child i s = xep0280_handle_carbons_iq E L st i s"
| "run_iq_fn E L F_vcard_get st child i s = handle_vcard_get E L st i s"
| "run_iq_fn E L F_vcard_set st child i s = handle_vcard_set E L st child i s"
| "run_iq_fn E L F_blocklist_get st child i s = xep0186_handle_blocklist_get E i s"
| "run_iq_fn E L F_block st child i s = xep0186_handle_block E L child i s"
| "run_iq_fn E L F_unblock st child i s = xep0186_handle_unblock E L child i s"

abbreviation (input) IQ_PRIORITY_NORMAL :: int where "IQ_PRIORITY_NORMAL \<equiv> 100"

definition IQ_HANDLER :: "cstr \<Rightarrow> cstr \<Rightarrow> 'h \<Rightarrow> 'h iq_handler_entry" where
  "IQ_HANDLER ns ty f =
     \<lparr> h_ns = Some ns, h_type = Some ty, h_handler = Some f, h_priority = IQ_PRIORITY_NORMAL \<rparr>"

definition roster_handlers :: "iq_fn iq_handler_entry list" where
  "roster_handlers = [IQ_HANDLER NS_ROSTER ''get'' F_roster_get, IQ_HANDLER NS_ROSTER ''set'' F_roster_set]"

definition disco_handlers :: "iq_fn iq_handler_entry list" where
  "disco_handlers = [IQ_HANDLER NS_DISCO_INFO ''get'' F_disco_info,
     IQ_HANDLER NS_DISCO_ITEMS ''get'' F_disco_items]"

definition ping_handlers :: "iq_fn iq_handler_entry list" where
  "ping_handlers = [IQ_HANDLER ''urn:xmpp:ping'' ''get'' F_ping]"

definition carbons_handlers :: "iq_fn iq_handler_entry list" where
  "carbons_handlers = [IQ_HANDLER NS_CARBONS ''set'' F_carbons]"

definition vcard_handlers :: "iq_fn iq_handler_entry list" where
  "vcard_handlers = [IQ_HANDLER VCARD_NS ''get'' F_vcard_get, IQ_HANDLER VCARD_NS ''set'' F_vcard_set]"

definition blocking_handlers :: "iq_fn iq_handler_entry list" where
  "blocking_handlers = [IQ_HANDLER NS_PRIVACY ''get'' F_blocklist_get,
     IQ_HANDLER NS_PRIVACY ''set'' F_block, IQ_HANDLER NS_PRIVACY ''set'' F_unblock]"

text \<open>The initialisation of the modules. Receipts have no handler of their own.\<close>

type_synonym module_init = "iq_fn iq_registry \<Rightarrow> int \<times> iq_fn iq_registry"

definition xmpp_iq_register_handlers :: module_init where
  "xmpp_iq_register_handlers r = iq_handler_register_all roster_handlers r"

definition xep0030_init :: module_init where
  "xep0030_init r = iq_handler_register_all disco_handlers r"

definition xep0199_init :: module_init where
  "xep0199_init r = iq_handler_register_all ping_handlers r"

definition xep0280_init :: module_init where
  "xep0280_init r = iq_handler_register_all carbons_handlers r"

definition xep0184_init :: module_init where
  "xep0184_init r = (0, r)"

definition xep0054_init :: module_init where
  "xep0054_init r = iq_handler_register_all vcard_handlers r"

definition xep0186_init :: module_init where
  "xep0186_init r = iq_handler_register_all blocking_handlers r"

text \<open>The part of \<^verbatim>\<open>server_init\<close> that initialises module after module; the first failure shuts the
  dispatcher down.\<close>

fun run_inits :: "module_init list \<Rightarrow> module_init" where
  "run_inits [] r = (0, r)"
| "run_inits (f # fs) r =
     (let a = f r in if fst a \<noteq> 0 then (- 1, iq_dispatch_shutdown (snd a)) else run_inits fs (snd a))"

definition server_inits :: "module_init list" where
  "server_inits = [xmpp_iq_register_handlers, xep0030_init, xep0199_init, xep0280_init, xep0184_init, xep0054_init, xep0186_init]"

subsection \<open>Frames\<close>

text \<open>What an IQ handler may change of the session it runs for: the carbons switch.\<close>

definition iq_keeps :: "server \<Rightarrow> server \<Rightarrow> bool" where
  "iq_keeps s0 s \<longleftrightarrow> (\<exists>b. ctx s = (ctx s0)\<lparr>carbons_enabled := b\<rparr>) \<and>
     (table_inv s0 \<longrightarrow> table_inv s) \<and> owners s = owners s0 \<and> users (db s) = users (db s0) \<and>
     offline_messages (db s) = offline_messages (db s0)"

lemma iq_keeps_refl [simp]: "iq_keeps s s"
  by (auto simp: iq_keeps_def intro: exI [where x = "carbons_enabled (ctx s)"])

lemma iq_keeps_trans: "iq_keeps a b \<Longrightarrow> iq_keeps b c \<Longrightarrow> iq_keeps a c"
  by (auto simp: iq_keeps_def)

lemma iq_keeps_I:
  "ctx s = ctx s0 \<Longrightarrow> g_sessions s = g_sessions s0 \<Longrightarrow> users (db s) = users (db s0) \<Longrightarrow>
     offline_messages (db s) = offline_messages (db s0) \<Longrightarrow> iq_keeps s0 s"
  by (auto simp: iq_keeps_def table_inv_def owners_def intro: exI [where x = "carbons_enabled (ctx s0)"])

lemma flush_keeps: "iq_keeps s0 s \<Longrightarrow> iq_keeps s0 (snd (iq_flush E buf s))"
  by (erule iq_keeps_trans) (simp add: iq_keeps_I)

lemma send_roster_push_frame [simp]:
  "ctx (send_roster_push E i gs p ow s) = ctx s"
  "g_sessions (send_roster_push E i gs p ow s) = g_sessions s"
  "db (send_roster_push E i gs p ow s) = db s"
  by (simp_all add: send_roster_push_def Let_def)

lemma fold_insert_group_frame [simp]:
  "users (fold (insert_group owner contact) gs d) = users d"
  "offline_messages (fold (insert_group owner contact) gs d) = offline_messages d"
  by (induction gs arbitrary: d) (simp_all add: insert_group_def)

lemma roster_write_frame [simp]:
  "users (snd (storage_roster_upsert E ow i gs d)) = users d"
  "offline_messages (snd (storage_roster_upsert E ow i gs d)) = offline_messages d"
  "users (snd (storage_roster_remove E ow c d)) = users d"
  "offline_messages (snd (storage_roster_remove E ow c d)) = offline_messages d"
  by (simp_all add: storage_roster_upsert_def storage_roster_remove_def Let_def)

lemma roster_full_frame [simp]:
  "ctx (snd (roster_full E i s)) = ctx s"
  "g_sessions (snd (roster_full E i s)) = g_sessions s"
  "db (snd (roster_full E i s)) = db s"
  by (simp_all add: roster_full_def Let_def)

lemma roster_get_keeps: "iq_keeps s (snd (xmpp_iq_handle_roster_get E L child i s))"
  by (rule iq_keeps_I) (simp_all add: xmpp_iq_handle_roster_get_def split: option.splits fetched.splits)

lemma roster_set_keeps: "iq_keeps s (snd (xmpp_iq_handle_roster_set E L child i s))"
proof -
  have e: "iq_keeps s (send_iq_error E i ty c s)" for ty c
    by (rule iq_keeps_I) (simp_all add: send_iq_error_def)
  have c: "iq_keeps s (crash s)" by (rule iq_keeps_I) simp_all
  have u: "iq_keeps s (snd (roster_set_upsert E L item contact i s))" for item contact
    by (rule iq_keeps_I)
      (simp_all add: roster_set_upsert_def send_iq_error_def Let_def split: option.split)
  have d: "iq_keeps s (snd (roster_set_remove E contact i s))" for contact
    by (rule iq_keeps_I) (simp_all add: roster_set_remove_def send_iq_error_def Let_def)
  show ?thesis using e c u d by (simp add: xmpp_iq_handle_roster_set_def Let_def split: option.split bool.split)
qed

lemma vcard_send_error_frame [simp]:
  "ctx (vcard_send_error E i t c s) = ctx s"
  "g_sessions (vcard_send_error E i t c s) = g_sessions s"
  "db (vcard_send_error E i t c s) = db s"
  by (simp_all add: vcard_send_error_def Let_def)

lemma vcard_reply_frame [simp]:
  "ctx (snd (vcard_found E i l x s)) = ctx s"
  "g_sessions (snd (vcard_found E i l x s)) = g_sessions s"
  "db (snd (vcard_found E i l x s)) = db s"
  "ctx (snd (vcard_empty E i to s)) = ctx s"
  "g_sessions (snd (vcard_empty E i to s)) = g_sessions s"
  "db (snd (vcard_empty E i to s)) = db s"
  unfolding vcard_found_def vcard_empty_def by (simp_all add: Let_def)

lemma vcard_get_keeps: "iq_keeps s (snd (handle_vcard_get E L st i s))"
proof -
  have "iq_keeps s (snd (vcard_found E i l x s))" "iq_keeps s (snd (vcard_empty E i to s))"
    "iq_keeps s (vcard_send_error E i ty c s)" for l x to ty c
    by (rule iq_keeps_I; simp)+
  then show ?thesis
    by (auto simp: handle_vcard_get_def Let_def split: vcard_target.split fetched.split)
qed

lemma vcard_set_keeps: "iq_keeps s (snd (handle_vcard_set E L st child i s))"
  by (rule iq_keeps_I) (simp_all add: handle_vcard_set_def storage_vcard_set_def Let_def split: option.splits)

lemma send_disco_error_frame [simp]:
  "ctx (send_disco_error E ns i c s) = ctx s"
  "g_sessions (send_disco_error E ns i c s) = g_sessions s"
  "db (send_disco_error E ns i c s) = db s"
  by (simp_all add: send_disco_error_def Let_def)

lemma disco_keeps:
  "iq_keeps s (snd (xep0030_handle_disco_info_iq E L st child i s))"
  "iq_keeps s (snd (xep0030_handle_disco_items_iq E L st child i s))"
  by (rule iq_keeps_I; simp add: xep0030_handle_disco_info_iq_def xep0030_handle_disco_items_iq_def
      send_info_error_def send_items_error_def Let_def)+

lemma blocklist_ops_frame [simp]:
  "users (snd (storage_blocklist_add E ow j d)) = users d"
  "offline_messages (snd (storage_blocklist_add E ow j d)) = offline_messages d"
  "users (snd (storage_blocklist_remove E ow j d)) = users d"
  "offline_messages (snd (storage_blocklist_remove E ow j d)) = offline_messages d"
  by (simp_all add: storage_blocklist_add_def storage_blocklist_remove_def)

lemma block_items_frame:
  assumes "\<And>j d. f (snd (op j d)) = f d"
  shows "f (snd (block_items L op cs n d)) = f d"
  by (induction cs arbitrary: n d) (simp_all add: assms Let_def split: option.splits)

lemma blocking_keeps:
  "iq_keeps s (snd (xep0186_handle_blocklist_get E i s))"
  "iq_keeps s (snd (xep0186_handle_block E L child i s))"
  "iq_keeps s (snd (xep0186_handle_unblock E L child i s))"
  by (rule iq_keeps_I; simp add: xep0186_handle_blocklist_get_def xep0186_handle_block_def
      xep0186_handle_unblock_def Let_def block_items_frame split: option.splits)+

lemma ping_keeps: "iq_keeps s (snd (xep0199_handle_ping_iq E i s))"
  by (rule iq_keeps_I) (simp_all add: xep0199_handle_ping_iq_def Let_def)

lemma update_carbons_table_inv:
  "table_inv s \<Longrightarrow> table_inv (xmpp_session_table_update_carbons j b s)"
  by (simp add: xmpp_session_table_update_carbons_def st.invar_modify)

lemma carbons_switch_keeps:
  "iq_keeps s (xmpp_session_table_update_carbons j b (upd (\<lambda>x. x\<lparr>carbons_enabled := b\<rparr>) s))"
proof -
  have "table_inv (upd (\<lambda>x. x\<lparr>carbons_enabled := b\<rparr>) s) = table_inv s"
    by (rule table_inv_cong) simp
  then have "table_inv s \<Longrightarrow> table_inv (xmpp_session_table_update_carbons j b
      (upd (\<lambda>x. x\<lparr>carbons_enabled := b\<rparr>) s))"
    by (simp add: update_carbons_table_inv)
  moreover have "ctx (xmpp_session_table_update_carbons j b (upd (\<lambda>x. x\<lparr>carbons_enabled := b\<rparr>) s)) =
      (ctx s)\<lparr>carbons_enabled := b\<rparr>"
    and "db (xmpp_session_table_update_carbons j b (upd (\<lambda>x. x\<lparr>carbons_enabled := b\<rparr>) s)) = db s"
    by (simp_all add: xmpp_session_table_update_carbons_def)
  moreover have "owners (xmpp_session_table_update_carbons j b (upd (\<lambda>x. x\<lparr>carbons_enabled := b\<rparr>) s)) = owners s"
    unfolding xmpp_session_table_update_carbons_def
    by (subst update_entry_owners) (simp_all add: owners_def)
  ultimately show ?thesis unfolding iq_keeps_def by (intro conjI exI [where x = b]) simp_all
qed

lemma carbons_keeps: "iq_keeps s (snd (xep0280_handle_carbons_iq E L st i s))"
proof -
  have r: "iq_keeps a (snd (send_iq_result E n j a))" for a n j
    by (rule iq_keeps_I) simp_all
  show ?thesis
    by (auto simp: xep0280_handle_carbons_iq_def Let_def split: option.splits
        intro: r carbons_switch_keeps iq_keeps_trans [OF carbons_switch_keeps r])
qed

lemmas handler_keeps = roster_get_keeps roster_set_keeps vcard_get_keeps vcard_set_keeps
  disco_keeps blocking_keeps ping_keeps carbons_keeps

lemma run_iq_fn_keeps: "iq_keeps s (snd (run_iq_fn E L f st child i s))"
  by (cases f) (simp_all add: handler_keeps)

text \<open>The dispatcher with the server's own handlers.\<close>

interpretation iq: handlers_keep "run_iq_fn E L" E "iq_keeps s0" for E L s0
  by unfold_locales (blast intro: iq_keeps_trans run_iq_fn_keeps flush_keeps)+

lemma server_dispatch_keeps: "iq_keeps s (snd (iq_dispatch E L (run_iq_fn E L) st r s))"
  by (rule iq.dispatch_keeps) simp

subsection \<open>Properties\<close>

text \<open>C26: no IQ a client sends, whatever handlers are registered in whatever order, changes who
  the client is or how far its stream negotiation got, touches the accounts or the offline
  queues, or breaks the session table.\<close>

theorem iq_keeps_identity:
  assumes "table_inv s"
  shows "let s' = snd (iq_dispatch E L (run_iq_fn E L) st r s) in
    state (ctx s') = state (ctx s) \<and> authcid (ctx s') = authcid (ctx s) \<and>
    domain (ctx s') = domain (ctx s) \<and> bound_jid (ctx s') = bound_jid (ctx s) \<and>
    failed_auth_count (ctx s') = failed_auth_count (ctx s) \<and> users (db s') = users (db s) \<and>
    offline_messages (db s') = offline_messages (db s) \<and> table_inv s'"
  using server_dispatch_keeps [of s E L st r] assms by (auto simp: iq_keeps_def Let_def)

theorem iq_keeps_identity_witness:
  "authcid (ctx (snd (iq_dispatch env0 xml_strophe (run_iq_fn env0 xml_strophe) (Text []) iq_registry0
     example_server))) = authcid (ctx example_server)"
  using iq_keeps_identity [OF example_server_inv, of env0 xml_strophe "Text []" iq_registry0]
  by (simp only: Let_def)

lemma vcard_set_stores:
  assumes "sql_ready E SQL_VCARD_SET" "step_ok E SQL_VCARD_SET"
    and "get_attribute L st ''to'' = None" "stanza_to_text L child = Some xml"
  shows "db (snd (handle_vcard_set E L st child i s)) =
    (db s)\<lparr>vcards := (vcards (db s))(own_bare_jid (ctx s) \<mapsto> xml)\<rparr>"
  using assms by (simp add: handle_vcard_set_def storage_vcard_set_def Let_def)

definition vcard_result_xml :: "cstr option \<Rightarrow> cstr \<Rightarrow> cstr \<Rightarrow> cstr" where
  "vcard_result_xml i j xml = (''<iq'' @ attr ''type'' ''result'' @ attr ''id'' (opt_str i) @
     attr ''from'' j @ ''><vCard'' @ attr ''xmlns'' VCARD_NS @ ''>'') @ xml @ ''</vCard></iq>''"

lemma vcard_found_fits:
  assumes "length (vcard_result_xml i j xml) < IQ_BUF_SIZE" "length j < 1024"
  shows "vcard_found E i j xml s = (IQ_HANDLED, snd (iq_flush E (vcard_result_xml i j xml) s))"
  using assms unfolding vcard_found_def vcard_result_xml_def Let_def by (simp add: iq_append_def)

text \<open>A vCard a client stores is what it reads back: after a set, a get by the same client
  answers with exactly the stored text.\<close>

theorem vcard_round_trip:
  assumes "sql_ready E SQL_VCARD_SET" "step_ok E SQL_VCARD_SET"
    and "sql_ready E SQL_VCARD_GET" "step_ok E SQL_VCARD_GET"
    and "get_attribute L st ''to'' = None" "stanza_to_text L child = Some xml"
    and "get_attribute L st' ''to'' = None"
    and "s1 = snd (handle_vcard_set E L st child i s)"
    and "length (own_bare_jid (ctx s)) < 1024"
    and "length (vcard_result_xml i' (own_bare_jid (ctx s)) xml) < IQ_BUF_SIZE"
  shows "handle_vcard_get E L st' i' s1 =
    (IQ_HANDLED, snd (iq_flush E (vcard_result_xml i' (own_bare_jid (ctx s)) xml) s1))"
proof -
  have "ctx s1 = ctx s"
    using assms(8) by (simp add: handle_vcard_set_def Let_def split: option.splits)
  moreover have "storage_vcard_get E (own_bare_jid (ctx s)) (db s1) = Found xml"
    using assms(3,4) vcard_set_stores [OF assms(1,2,5,6), of i s]
    by (simp add: assms(8) storage_vcard_get_def)
  ultimately show ?thesis
    using assms(7) vcard_found_fits [OF assms(10,9), of E s1]
    by (simp add: handle_vcard_get_def resolve_target_def)
qed

theorem vcard_round_trip_witness:
  "fst (handle_vcard_get env0 xml_strophe (Elem ''iq'' [] [] []) None
     (snd (handle_vcard_set env0 xml_strophe (Elem ''iq'' [] [] []) (Text []) None alice))) = IQ_HANDLED"
proof -
  let ?iq = "Elem ''iq'' [] [] []"
  have "sql_ready env0 SQL_VCARD_SET" "step_ok env0 SQL_VCARD_SET"
    "sql_ready env0 SQL_VCARD_GET" "step_ok env0 SQL_VCARD_GET"
    by (simp_all add: sql_ready_def env0_def)
  moreover have "get_attribute xml_strophe ?iq ''to'' = None"
    "stanza_to_text xml_strophe (Text []) = Some ''<vCard/>''"
    by (simp_all add: xml_strophe_def)
  moreover have "own_bare_jid (ctx alice) = ''@d''"
    by (simp add: alice_def own_bare_jid_def session0_def)
  moreover have "length (vcard_result_xml None ''@d'' ''<vCard/>'') < IQ_BUF_SIZE"
    by (simp add: vcard_result_xml_def attr_def opt_str_def VCARD_NS_def)
  ultimately show ?thesis
    using vcard_round_trip [of env0 xml_strophe ?iq "Text []" "''<vCard/>''" ?iq _ None alice None]
    by simp
qed

text \<open>A roster set does not keep the subscription of the item it edits: renaming a contact
  resets the stored subscription to \<open>none\<close> (and touches no other pair), so the two rosters no
  longer mirror each other.\<close>

theorem roster_set_resets_subscription:
  assumes "roster_sql_ok E" "sql_runs E SQL_GROUPS_INSERT"
    and "get_child_by_name L child ''item'' = Some el"
    and "second_item L (get_siblings L el) = Some False" "item_groups L el = Some groups"
    and "get_attribute L el ''jid'' = Some contact" "contact \<noteq> []" "length contact < ROSTER_JID_MAX"
    and "get_attribute L el ''subscription'' \<noteq> Some ''remove''"
  shows "fst (xmpp_iq_handle_roster_set E L child i s) = IQ_HANDLED \<and>
    sub_of (db (snd (xmpp_iq_handle_roster_set E L child i s))) =
      set_sub (owner_jid (ctx s)) contact ''none'' (sub_of (db s))"
proof -
  let ?item = "\<lparr> contact_jid = contact, name = (case get_attribute L el ''name'' of
      None \<Rightarrow> [] | Some n \<Rightarrow> snprintf ROSTER_NAME_MAX n), subscription = ''none'', ask = 0 \<rparr>"
  let ?row = "row_of_item (owner_jid (ctx s)) ?item"
  have "fst (storage_roster_upsert E (owner_jid (ctx s)) ?item gs d) = 0 \<and>
      roster (snd (storage_roster_upsert E (owner_jid (ctx s)) ?item gs d)) = upsert_row ?row (roster d)"
    for gs d
    using assms(1,2) by (simp add: storage_roster_upsert_def roster_sql_ok_def sql_runs_def Let_def)
  then have up: "fst (xmpp_iq_handle_roster_set E L child i s) = IQ_HANDLED"
    "roster (db (snd (xmpp_iq_handle_roster_set E L child i s))) = upsert_row ?row (roster (db s))"
    using assms(3-9) by (simp_all add: xmpp_iq_handle_roster_set_def roster_set_upsert_def Let_def)
  have "roster_key x y ?row \<longleftrightarrow> x = owner_jid (ctx s) \<and> y = contact" for x y
    by (auto simp: roster_key_def row_of_item_def)
  moreover have "r_subscription ?row = ''none''" by (simp add: row_of_item_def)
  ultimately show ?thesis
    using up(1) by (auto simp: fun_eq_iff sub_of_def up(2) roster_key_upsert set_sub_def)
qed

definition rename_request :: xml where
  "rename_request = Elem ''query'' NS_ROSTER [] [Elem ''item'' NS_ROSTER [(''jid'', ''b@d''), (''name'', ''Bob'')] []]"

definition friends :: server where
  "friends = alice\<lparr>ctx := (ctx alice)\<lparr>authcid := ''a''\<rparr>, db := database0\<lparr>roster :=
     [\<lparr> r_owner = ''a@d'', r_contact = ''b@d'', r_name = [], r_subscription = ''both'', r_ask = 0 \<rparr>,
      \<lparr> r_owner = ''b@d'', r_contact = ''a@d'', r_name = [], r_subscription = ''both'', r_ask = 0 \<rparr>]\<rparr>\<rparr>"

theorem roster_set_resets_subscription_witness:
  "sub_of (db friends) ''a@d'' ''b@d'' = ''both'' \<and>
   \<not> mirrored (sub_of (db (snd (xmpp_iq_handle_roster_set env0 xml_strophe rename_request None friends))))"
proof -
  have before: "sub_of (db friends) ''a@d'' ''b@d'' = ''both''" "sub_of (db friends) ''b@d'' ''a@d'' = ''both''"
    by (simp_all add: friends_def sub_of_def roster_key_def)
  have own: "owner_jid (ctx friends) = ''a@d''"
    by (simp add: friends_def owner_jid_def alice_def)
  have runs: "roster_sql_ok env0" "sql_runs env0 SQL_GROUPS_INSERT"
    by (simp_all add: roster_sql_ok_def sql_runs_def env0_def)
  have "sub_of (db (snd (xmpp_iq_handle_roster_set env0 xml_strophe rename_request None friends))) =
      set_sub ''a@d'' ''b@d'' ''none'' (sub_of (db friends))"
    using roster_set_resets_subscription [OF runs, of xml_strophe rename_request _ "[]" "''b@d''" None friends]
    by (simp add: rename_request_def own item_groups_def) (simp add: xml_strophe_def)
  moreover have "\<not> mirrored (set_sub ''a@d'' ''b@d'' ''none'' (sub_of (db friends)))"
  proof
    assume "mirrored (set_sub ''a@d'' ''b@d'' ''none'' (sub_of (db friends)))"
    then have "has_to (sub_of (db friends) ''b@d'' ''a@d'') \<longleftrightarrow> has_from ''none''"
      unfolding mirrored_def set_sub_def by (elim allE [of _ "''b@d''"] allE [of _ "''a@d''"]) simp
    then show False by (simp add: before has_to_def has_from_def)
  qed
  ultimately show ?thesis using before(1) by simp
qed

text \<open>Nodes that all have a name do not crash the loops; a text node does, such as the white space of
  an indented item.\<close>

lemma named_no_crash:
  "\<forall>n\<in>set ns. get_name L n \<noteq> None \<Longrightarrow> second_item L ns \<noteq> None"
  "\<forall>n\<in>set ns. get_name L n \<noteq> None \<Longrightarrow> group_loop L ns gs \<noteq> None"
  by (induction ns arbitrary: gs) (auto split: option.split)

lemma indented_item_crashes:
  "crashed (snd (xmpp_iq_handle_roster_set env0 xml_strophe
     (Elem ''query'' NS_ROSTER [] [Elem ''item'' NS_ROSTER [(''jid'', ''b@d'')] [Text '' '', Elem ''group'' NS_ROSTER [] [Text ''g'']]])
     None alice))"
  by (simp add: xmpp_iq_handle_roster_set_def roster_set_upsert_def item_groups_def xml_strophe_def)

end
