(* ===== verification/Stream_Out.thy ===== *)
theory Stream_Out
  imports Server_State
begin

text \<open>
  The outgoing buffer of a session and the stream-level replies of \<^verbatim>\<open>xmpp.c\<close>:
  \<^verbatim>\<open>write_append\<close>, \<^verbatim>\<open>write_flush\<close>, \<^verbatim>\<open>send_stream_close\<close> and
  \<^verbatim>\<open>send_stream_error\<close>. \<^verbatim>\<open>sm_write_append\<close>/\<^verbatim>\<open>sm_write_flush\<close> and
  \<^verbatim>\<open>csi_write_append\<close> are copies of the first two; every session the server handles has a
  write callback.
\<close>

definition write_append :: "cstr \<Rightarrow> server \<Rightarrow> int \<times> server" where
  "write_append txt s =
     (case iq_append XMPP_BUF_SIZE (out_buf (ctx s)) txt of (rc, buf) \<Rightarrow>
        (rc, upd (\<lambda>c. c\<lparr>out_buf := buf\<rparr>) s))"

definition write_flush :: "env \<Rightarrow> server \<Rightarrow> int \<times> server" where
  "write_flush E s =
     (if out_buf (ctx s) = [] then (0, s)
      else case write_fn E (write_ud (ctx s)) (out_buf (ctx s)) s of (rc, s1) \<Rightarrow>
        (rc, upd (\<lambda>c. c\<lparr>out_buf := []\<rparr>) s1))"

abbreviation emit :: "cstr \<Rightarrow> server \<Rightarrow> server" where
  "emit txt s \<equiv> snd (write_append txt s)"

abbreviation flushed :: "env \<Rightarrow> server \<Rightarrow> server" where
  "flushed E s \<equiv> snd (write_flush E s)"

definition STREAM_CLOSE :: cstr where
  "STREAM_CLOSE = ''</stream:stream>''"

definition send_stream_close :: "env \<Rightarrow> server \<Rightarrow> int \<times> server" where
  "send_stream_close E s =
     (if state (ctx s) = CLOSING \<or> state (ctx s) = CLOSED then (0, s)
      else
        (let s1 = emit STREAM_CLOSE s; s2 = flushed E s1 in
         if fst (write_append STREAM_CLOSE s) \<noteq> 0 then (- 1, s1)
         else if fst (write_flush E s1) \<noteq> 0 then (- 1, s2)
         else (0, set_state CLOSING s2)))"

fun error_qname :: "stream_error \<Rightarrow> cstr" where
  "error_qname NOT_WELL_FORMED = ''not-well-formed''"
| "error_qname BAD_NAMESPACE = ''invalid-namespace''"
| "error_qname POLICY_VIOLATION = ''policy-violation''"
| "error_qname NOT_AUTHORIZED = ''not-authorized''"

definition stream_error_xml :: "stream_error \<Rightarrow> cstr" where
  "stream_error_xml e =
     ''<stream:error><'' @ error_qname e @
     attr ''xmlns'' ''urn:ietf:params:xml:ns:xmpp-streams'' @ ''/></stream:error>''"

definition send_stream_error :: "env \<Rightarrow> stream_error \<Rightarrow> server \<Rightarrow> server" where
  "send_stream_error E e s =
     (let s1 = emit (stream_error_xml e) s;
          s2 = flushed E s1;
          s3 = snd (send_stream_close E s2);
          s4 = (if has_stream_error_fn (ctx s3)
                then s3\<lparr>stream_errors := stream_errors s3 @ [e]\<rparr> else s3)
      in set_pending_error s4)"

subsection \<open>Lemmas\<close>

text \<open>Buffering only touches the buffer; flushing moves it to the log.\<close>

lemma emit_frame [simp]:
  "g_sessions (emit t s) = g_sessions s"
  "db (emit t s) = db s"
  "sent (emit t s) = sent s"
  "stream_errors (emit t s) = stream_errors s"
  by (simp_all add: write_append_def split: prod.splits)

lemma emit_ctx: "ctx (emit t s) = (ctx s)\<lparr>out_buf := out_buf (ctx (emit t s))\<rparr>"
  by (simp add: write_append_def split: prod.splits)

lemma flush_frame [simp]:
  "g_sessions (flushed E s) = g_sessions s"
  "db (flushed E s) = db s"
  "stream_errors (flushed E s) = stream_errors s"
  "ctx (flushed E s) = (ctx s)\<lparr>out_buf := []\<rparr>"
  by (simp_all add: write_flush_def write_fn_def)

lemma emit_fields [simp]:
  "state (ctx (emit t s)) = state (ctx s)"
  "domain (ctx (emit t s)) = domain (ctx s)"
  "authcid (ctx (emit t s)) = authcid (ctx s)"
  "resource (ctx (emit t s)) = resource (ctx s)"
  "bound_jid (ctx (emit t s)) = bound_jid (ctx s)"
  "failed_auth_count (ctx (emit t s)) = failed_auth_count (ctx s)"
  "pending_error (ctx (emit t s)) = pending_error (ctx s)"
  "write_ud (ctx (emit t s)) = write_ud (ctx s)"
  "needs_starttls_proceed (ctx (emit t s)) = needs_starttls_proceed (ctx s)"
  "needs_parser_reset (ctx (emit t s)) = needs_parser_reset (ctx s)"
  "sm_enabled (ctx (emit t s)) = sm_enabled (ctx s)"
  "sm_resumable (ctx (emit t s)) = sm_resumable (ctx s)"
  "sm_outbound (ctx (emit t s)) = sm_outbound (ctx s)"
  "sm_handled (ctx (emit t s)) = sm_handled (ctx s)"
  "sm_id (ctx (emit t s)) = sm_id (ctx s)"
  "has_stream_error_fn (ctx (emit t s)) = has_stream_error_fn (ctx s)"
  by (simp_all add: write_append_def split: prod.splits)

lemma flush_sent:
  "sent (flushed E s) =
     sent s @ (if out_buf (ctx s) = [] then [] else [(write_ud (ctx s), out_buf (ctx s))])"
  by (simp add: write_flush_def write_fn_def)

lemma append_out_buf:
  "length (out_buf (ctx s)) + length t < XMPP_BUF_SIZE \<Longrightarrow>
     out_buf (ctx (emit t s)) = out_buf (ctx s) @ t"
  by (auto simp: write_append_def iq_append_def)

lemma append_rc:
  "fst (write_append t s) = 0 \<longleftrightarrow> length t < XMPP_BUF_SIZE - length (out_buf (ctx s))"
  by (simp add: write_append_def iq_append_def)

text \<open>The buffer never reaches its capacity, so the terminating NUL always fits.\<close>

definition out_ok :: "server \<Rightarrow> bool" where
  "out_ok s \<longleftrightarrow> length (out_buf (ctx s)) < XMPP_BUF_SIZE"

lemma emit_out_ok [simp]: "out_ok s \<Longrightarrow> out_ok (emit t s)"
  using iq_append_bound [of "out_buf (ctx s)" XMPP_BUF_SIZE t]
  by (auto simp: out_ok_def write_append_def split: prod.splits)

lemma flush_out_ok [simp]: "out_ok (flushed E s)"
  by (simp add: out_ok_def)

lemma stream_close_frame [simp]:
  "g_sessions (snd (send_stream_close E s)) = g_sessions s"
  "db (snd (send_stream_close E s)) = db s"
  "stream_errors (snd (send_stream_close E s)) = stream_errors s"
  "authcid (ctx (snd (send_stream_close E s))) = authcid (ctx s)"
  "domain (ctx (snd (send_stream_close E s))) = domain (ctx s)"
  "bound_jid (ctx (snd (send_stream_close E s))) = bound_jid (ctx s)"
  "failed_auth_count (ctx (snd (send_stream_close E s))) = failed_auth_count (ctx s)"
  "write_ud (ctx (snd (send_stream_close E s))) = write_ud (ctx s)"
  "needs_starttls_proceed (ctx (snd (send_stream_close E s))) = needs_starttls_proceed (ctx s)"
  "pending_error (ctx (snd (send_stream_close E s))) = pending_error (ctx s)"
  by (simp_all add: send_stream_close_def Let_def)

lemma stream_close_state:
  "state (ctx (snd (send_stream_close E s))) = CLOSING \<or>
   state (ctx (snd (send_stream_close E s))) = state (ctx s)"
  by (simp add: send_stream_close_def Let_def)

lemma out_ok_upd [simp]:
  "out_ok (set_state q s) = out_ok s"
  "out_ok (set_pending_error s) = out_ok s"
  by (simp_all add: out_ok_def)

lemma stream_close_out_ok: "out_ok s \<Longrightarrow> out_ok (snd (send_stream_close E s))"
  by (simp add: send_stream_close_def Let_def)

text \<open>A stream error leaves a session that will be closed: the error is pending, the
  state is unchanged or closing, and nothing but the buffer and these fields is touched.\<close>

lemma stream_error_frame [simp]:
  "g_sessions (send_stream_error E e s) = g_sessions s"
  "db (send_stream_error E e s) = db s"
  "authcid (ctx (send_stream_error E e s)) = authcid (ctx s)"
  "domain (ctx (send_stream_error E e s)) = domain (ctx s)"
  "bound_jid (ctx (send_stream_error E e s)) = bound_jid (ctx s)"
  "failed_auth_count (ctx (send_stream_error E e s)) = failed_auth_count (ctx s)"
  "write_ud (ctx (send_stream_error E e s)) = write_ud (ctx s)"
  "needs_starttls_proceed (ctx (send_stream_error E e s)) = needs_starttls_proceed (ctx s)"
  "pending_error (ctx (send_stream_error E e s)) = True"
  by (simp_all add: send_stream_error_def Let_def)

lemma stream_error_state:
  "state (ctx (send_stream_error E e s)) = CLOSING \<or>
   state (ctx (send_stream_error E e s)) = state (ctx s)"
  using stream_close_state [of E "flushed E (emit (stream_error_xml e) s)"]
  by (simp add: send_stream_error_def Let_def)

lemma stream_error_out_ok: "out_ok (send_stream_error E e s)"
proof -
  have "out_ok (snd (send_stream_close E (flushed E (emit (stream_error_xml e) s))))"
    by (rule stream_close_out_ok) simp
  then show ?thesis by (simp add: send_stream_error_def Let_def out_ok_def)
qed

end
