(* ===== verification/Stream_Mgmt.thy ===== *)
theory Stream_Mgmt
  imports Stream_Out
begin

text \<open>
  Stream management (\<^verbatim>\<open>xep-0198-stream-mgmt.c\<close>) and client state indication
  (\<^verbatim>\<open>xep-0352-csi.c\<close>): the elements a client may send outside of stanzas. The
  counters are 32-bit words. Loading the HMAC key and computing the HMAC may fail; both
  outcomes come from the environment, and \<open>smid_key_stable\<close> shows what the first of them can be.
\<close>

definition XEP0198_NS :: cstr where
  "XEP0198_NS = ''urn:xmpp:sm:3''"

subsection \<open>Attribute parsing\<close>

definition parse_bool_attr :: "cstr option \<Rightarrow> bool" where
  "parse_bool_attr val = (case val of None \<Rightarrow> False | Some v \<Rightarrow> v = ''true'' \<or> v = ''1'')"

fun uint32_loop :: "cstr \<Rightarrow> nat \<Rightarrow> nat option" where
  "uint32_loop [] acc = Some acc"
| "uint32_loop (c # cs) acc =
     (let d = of_char c :: nat in
      if d < 48 \<or> d > 57 then None
      else
        (let acc' = acc * 10 + (d - 48) in
         if acc' > 4294967295 then None else uint32_loop cs acc'))"

definition parse_uint32_attr :: "cstr option \<Rightarrow> 32 word option" where
  "parse_uint32_attr val =
     (case val of None \<Rightarrow> None | Some v \<Rightarrow> map_option of_nat (uint32_loop v 0))"

definition counter_check_peer_h :: "32 word \<Rightarrow> 32 word \<Rightarrow> bool" where
  "counter_check_peer_h peer_h our_outbound \<longleftrightarrow> \<not> peer_h > our_outbound"

subsection \<open>Resumption identifiers\<close>

definition smid_generate_hmac_hex :: "env \<Rightarrow> cstr \<Rightarrow> cstr \<Rightarrow> cstr option" where
  "smid_generate_hmac_hex E key inp =
     map_option (\<lambda>mac. concat (map show_hex2 mac)) (hmac_sha256 E key inp)"

text \<open>The server's key, read from \<^verbatim>\<open>/dev/urandom\<close> when it is first needed. \<open>rnd\<close> is \<^term>\<open>None\<close> when the
  file cannot be opened, and otherwise the bytes that were read.\<close>

record smid =
  g_smid_key :: cstr
  g_smid_key_ready :: bool

definition smid_load_key :: "cstr option \<Rightarrow> smid \<Rightarrow> int \<times> smid" where
  "smid_load_key rnd g =
     (if g_smid_key_ready g then (0, g)
      else (case rnd of
              None \<Rightarrow> (- 1, g)
            | Some bs \<Rightarrow>
                (let g1 = g\<lparr>g_smid_key := bs @ drop (length bs) (g_smid_key g)\<rparr> in
                 if length bs \<noteq> 32 then (- 1, g1) else (0, g1\<lparr>g_smid_key_ready := True\<rparr>))))"

text \<open>The key that each of a sequence of requests uses.\<close>

fun smid_keys :: "cstr option list \<Rightarrow> smid \<Rightarrow> cstr option list" where
  "smid_keys [] g = []"
| "smid_keys (rnd # rnds) g =
     (let a = smid_load_key rnd g in (if fst a = 0 then Some (g_smid_key (snd a)) else None) # smid_keys rnds (snd a))"

subsection \<open>Element handlers\<close>

definition UNEXPECTED_REQUEST :: cstr where
  "UNEXPECTED_REQUEST = ''<stream:error><unexpected-request'' @
     attr ''xmlns'' ''urn:ietf:params:xml:ns:xmpp-streams'' @ ''/></stream:error>''"

definition enabled_xml :: "session \<Rightarrow> cstr" where
  "enabled_xml c =
     (if sm_resumable c
      then ''<enabled'' @ attr ''xmlns'' XEP0198_NS @ attr ''id'' (sm_id c) @
           attr ''resume'' ''true'' @ attr ''max'' ''300'' @ ''/>''
      else ''<enabled'' @ attr ''xmlns'' XEP0198_NS @ ''/>'')"

definition sm_start :: "session \<Rightarrow> session" where
  "sm_start c = c\<lparr>sm_enabled := True, sm_outbound := 0, sm_handled := 0, sm_resumable := False\<rparr>"

definition sm_issue_id :: "env \<Rightarrow> session \<Rightarrow> session" where
  "sm_issue_id E c =
     (case sm_key E of
        None \<Rightarrow> c
      | Some key \<Rightarrow>
          (case smid_generate_hmac_hex E key (authcid c @ '':'' @ stream_id c) of
             None \<Rightarrow> c
           | Some hex \<Rightarrow> c\<lparr>sm_id := snprintf 65 (take 48 hex), sm_resumable := True\<rparr>))"

definition sm_handle_enable :: "env \<Rightarrow> 's strophe \<Rightarrow> 's \<Rightarrow> server \<Rightarrow> server" where
  "sm_handle_enable E L st s =
     (if sm_enabled (ctx s)
      then set_pending_error (flushed E (emit STREAM_CLOSE (emit UNEXPECTED_REQUEST s)))
      else
        (let s1 = upd sm_start s;
             s2 = (if parse_bool_attr (get_attribute L st ''resume'') then upd (sm_issue_id E) s1 else s1)
         in flushed E (emit (enabled_xml (ctx s2)) s2)))"

definition ack_xml :: "32 word \<Rightarrow> cstr" where
  "ack_xml h = ''<a'' @ attr ''xmlns'' XEP0198_NS @ attr ''h'' (show_nat (unat h)) @ ''/>''"

definition sm_handle_ack_req :: "env \<Rightarrow> server \<Rightarrow> server" where
  "sm_handle_ack_req E s = flushed E (emit (ack_xml (sm_handled (ctx s))) s)"

definition too_high_xml :: "32 word \<Rightarrow> 32 word \<Rightarrow> cstr" where
  "too_high_xml h out =
     ''<stream:error><undefined-condition'' @
     attr ''xmlns'' ''urn:ietf:params:xml:ns:xmpp-streams'' @ ''><handled-count-too-high'' @
     attr ''xmlns'' XEP0198_NS @ attr ''h'' (show_nat (unat h)) @
     attr ''send-count'' (show_nat (unat out)) @ ''/></undefined-condition><text'' @
     attr ''xml:lang'' ''en'' @ attr ''xmlns'' ''urn:ietf:params:xml:ns:xmpp-streams'' @
     ''>You acknowledged '' @ show_nat (unat h) @ '' stanzas, but I only sent you '' @
     show_nat (unat out) @ '' so far.</text></stream:error>''"

definition sm_handle_ack :: "env \<Rightarrow> 's strophe \<Rightarrow> 's \<Rightarrow> server \<Rightarrow> server" where
  "sm_handle_ack E L st s =
     (case parse_uint32_attr (get_attribute L st ''h'') of
        None \<Rightarrow> s
      | Some peer_h \<Rightarrow>
          if \<not> counter_check_peer_h peer_h (sm_outbound (ctx s))
          then set_pending_error (flushed E
                 (emit STREAM_CLOSE (emit (too_high_xml peer_h (sm_outbound (ctx s))) s)))
          else upd (\<lambda>c. c\<lparr>sm_outbound := peer_h\<rparr>) s)"

definition sm_failed_xml :: cstr where
  "sm_failed_xml = ''<failed'' @ attr ''xmlns'' XEP0198_NS @ ''><item-not-found'' @
     attr ''xmlns'' ''urn:ietf:params:xml:ns:xmpp-stanzas'' @ ''/></failed>''"

definition resumed_xml :: "session \<Rightarrow> cstr" where
  "resumed_xml c = ''<resumed'' @ attr ''xmlns'' XEP0198_NS @
     attr ''h'' (show_nat (unat (sm_handled c))) @ attr ''previd'' (sm_id c) @ ''/>''"

definition sm_handle_resume :: "env \<Rightarrow> 's strophe \<Rightarrow> 's \<Rightarrow> server \<Rightarrow> server" where
  "sm_handle_resume E L st s =
     (let failed = flushed E (emit sm_failed_xml s) in
      case parse_uint32_attr (get_attribute L st ''h'') of
        None \<Rightarrow> failed
      | Some resume_h \<Rightarrow>
          if \<not> sm_resumable (ctx s) \<or> sm_id (ctx s) = [] then failed
          else if get_attribute L st ''previd'' \<noteq> Some (sm_id (ctx s)) then failed
          else upd (\<lambda>c. c\<lparr>sm_enabled := True\<rparr>) (flushed E (emit (resumed_xml (ctx s)) s)))"

definition sm_handle_failed :: "server \<Rightarrow> server" where
  "sm_handle_failed = upd (\<lambda>c. c\<lparr>sm_enabled := False, sm_resumable := False, sm_id := []\<rparr>)"

definition xep0198_handle_element :: "env \<Rightarrow> 's strophe \<Rightarrow> 's \<Rightarrow> server \<Rightarrow> server" where
  "xep0198_handle_element E L st s =
     (if get_ns L st \<noteq> Some XEP0198_NS then s
      else if has_name L st ''enable'' then
        (if state (ctx s) \<noteq> BOUND then s else sm_handle_enable E L st s)
      else if has_name L st ''r'' then
        (if state (ctx s) \<noteq> ONLINE \<or> \<not> sm_enabled (ctx s) then s else sm_handle_ack_req E s)
      else if has_name L st ''a'' then
        (if state (ctx s) \<noteq> ONLINE \<or> \<not> sm_enabled (ctx s) then s else sm_handle_ack E L st s)
      else if has_name L st ''resume'' then sm_handle_resume E L st s
      else if has_name L st ''resumed'' then s
      else if has_name L st ''failed'' then sm_handle_failed s
      else s)"

definition xep0198_append_stream_feature :: "server \<Rightarrow> int \<times> server" where
  "xep0198_append_stream_feature s = write_append (''<sm'' @ attr ''xmlns'' XEP0198_NS @ ''/>'') s"

subsection \<open>Client state indication\<close>

definition CSI_NS :: cstr where
  "CSI_NS = ''urn:xmpp:csi:0''"

text \<open>Result \<open>0\<close>: handled; \<open>-1\<close>: malformed; \<open>1\<close>: not a CSI element.\<close>

definition xep0352_handle_stanza :: "'s strophe \<Rightarrow> 's \<Rightarrow> server \<Rightarrow> int \<times> server" where
  "xep0352_handle_stanza L st s =
     (let has_children = list_ex (\<lambda>c. get_name L c \<noteq> None) (get_children L st);
          csi_ns = (get_ns L st = Some CSI_NS)
      in if has_name L st ''active'' \<and> csi_ns then
           (if has_children then (- 1, s) else (0, upd (\<lambda>c. c\<lparr>csi_state := CSI_ACTIVE\<rparr>) s))
         else if has_name L st ''inactive'' \<and> csi_ns then
           (if has_children then (- 1, s) else (0, upd (\<lambda>c. c\<lparr>csi_state := CSI_INACTIVE\<rparr>) s))
         else (1, s))"

definition xep0352_append_stream_feature :: "server \<Rightarrow> int \<times> server" where
  "xep0352_append_stream_feature s = write_append (''<csi'' @ attr ''xmlns'' CSI_NS @ ''/>'') s"

subsection \<open>The key of the identifiers\<close>

lemma smid_keys_ready: "g_smid_key_ready g \<Longrightarrow> smid_keys rnds g = replicate (length rnds) (Some (g_smid_key g))"
  by (induction rnds) (simp_all add: smid_load_key_def)

text \<open>The key is missing for a while and then the same 32 bytes for ever, as long as a read gives at
  most the 32 bytes it is asked for: all identifiers are computed with one key.\<close>

lemma smid_key_stable:
  assumes "\<not> g_smid_key_ready g" "length (g_smid_key g) = 32" "\<forall>bs. Some bs \<in> set rnds \<longrightarrow> length bs \<le> 32"
  shows "\<exists>n key. n \<le> length rnds \<and> length key = 32 \<and>
    smid_keys rnds g = replicate n None @ replicate (length rnds - n) (Some key)"
  using assms
proof (induction rnds arbitrary: g)
  case (Cons rnd rnds)
  let ?a = "smid_load_key rnd g"
  show ?case
  proof (cases "fst ?a = 0")
    case True
    then have "g_smid_key_ready (snd ?a)" "length (g_smid_key (snd ?a)) = 32"
      using Cons.prems by (auto simp: smid_load_key_def Let_def split: option.splits if_splits)
    then show ?thesis using True smid_keys_ready [of "snd ?a" rnds]
      by (intro exI [of _ 0] exI [of _ "g_smid_key (snd ?a)"]) (simp add: Let_def)
  next
    case False
    then have "\<not> g_smid_key_ready (snd ?a)" "length (g_smid_key (snd ?a)) = 32"
      using Cons.prems by (auto simp: smid_load_key_def Let_def split: option.splits if_splits)
    then obtain n key where "n \<le> length rnds" "length key = 32"
        "smid_keys rnds (snd ?a) = replicate n None @ replicate (length rnds - n) (Some key)"
      using Cons.IH [of "snd ?a"] Cons.prems(3) by auto
    then show ?thesis using False by (intro exI [of _ "Suc n"] exI [of _ key]) (simp add: Let_def)
  qed
qed (auto intro: exI [of _ "replicate 32 CHR 0x00"])

subsection \<open>Lemmas\<close>

text \<open>The parsed value is the decimal value of the attribute.\<close>

definition digit_val :: "char \<Rightarrow> nat" where
  "digit_val c = of_char c - 48"

definition is_digit :: "char \<Rightarrow> bool" where
  "is_digit c \<longleftrightarrow> 48 \<le> (of_char c :: nat) \<and> (of_char c :: nat) \<le> 57"

definition dec_value :: "nat \<Rightarrow> cstr \<Rightarrow> nat" where
  "dec_value acc cs = foldl (\<lambda>a c. a * 10 + digit_val c) acc cs"

lemma dec_value_ge: "acc \<le> dec_value acc cs"
proof (induction cs arbitrary: acc)
  case (Cons c cs)
  have "acc \<le> acc * 10 + digit_val c" by simp
  also have "\<dots> \<le> dec_value (acc * 10 + digit_val c) cs" by (rule Cons.IH)
  finally show ?case by (simp add: dec_value_def)
qed (simp add: dec_value_def)

lemma uint32_loop_eq:
  "acc \<le> 4294967295 \<Longrightarrow> uint32_loop cs acc =
     (if list_all is_digit cs \<and> dec_value acc cs \<le> 4294967295 then Some (dec_value acc cs) else None)"
proof (induction cs arbitrary: acc)
  case (Cons c cs)
  let ?a = "acc * 10 + digit_val c"
  have v: "dec_value acc (c # cs) = dec_value ?a cs" by (simp add: dec_value_def)
  show ?case
  proof (cases "is_digit c \<and> ?a \<le> 4294967295")
    case True
    then have "uint32_loop (c # cs) acc = uint32_loop cs ?a"
      by (auto simp: is_digit_def digit_val_def)
    with True Cons.IH [of ?a] show ?thesis by (simp add: v)
  next
    case False
    have "uint32_loop (c # cs) acc = None"
      using False by (auto simp: is_digit_def digit_val_def Let_def)
    moreover have "\<not> (list_all is_digit (c # cs) \<and> dec_value acc (c # cs) \<le> 4294967295)"
      using False dec_value_ge [of ?a cs] by (auto simp: v)
    ultimately show ?thesis by simp
  qed
qed (simp add: dec_value_def)

lemma digit_val_digit [simp]: "d < 10 \<Longrightarrow> digit_val (digit d) = d"
  by (simp add: digit_val_def digit_def)

lemma is_digit_digit [simp]: "d < 10 \<Longrightarrow> is_digit (digit d)"
  by (simp add: is_digit_def digit_def)

lemma show_nat_digits: "list_all is_digit (show_nat n) \<and> dec_value 0 (show_nat n) = n"
proof (induction n rule: show_nat.induct)
  case (1 n)
  show ?case
  proof (cases "n < 10")
    case True
    then show ?thesis by (subst (1 2) show_nat.simps) (simp add: dec_value_def)
  next
    case False
    with 1 show ?thesis
      by (subst (1 2) show_nat.simps) (simp add: dec_value_def)
  qed
qed

lemma uint32_show_nat: "n < 2 ^ 32 \<Longrightarrow> uint32_loop (show_nat n) 0 = Some n"
  using show_nat_digits [of n] by (simp add: uint32_loop_eq)

lemma show_nat_length: "0 < k \<Longrightarrow> n < 10 ^ k \<Longrightarrow> length (show_nat n) \<le> k"
proof (induction n arbitrary: k rule: show_nat.induct)
  case (1 n)
  show ?case
  proof (cases "n < 10")
    case True
    then show ?thesis using 1(2) by (subst show_nat.simps) simp
  next
    case False
    moreover have "k \<noteq> 1" using 1(3) False by auto
    ultimately obtain j where k: "k = Suc j" "0 < j" using 1(2) by (cases k) auto
    then have "n div 10 < 10 ^ j" using 1(3) by (simp add: less_mult_imp_div_less mult.commute)
    then show ?thesis using 1(1) [OF False k(2)] k False by (subst show_nat.simps) simp
  qed
qed

lemma show_nat_short: "length (show_nat (unat (w :: 32 word))) \<le> 10"
proof (rule show_nat_length)
  have "unat w < 2 ^ 32" using unsigned_less [of w] by simp
  then show "unat w < 10 ^ 10" by simp
qed simp

text \<open>Stream management never touches identity, state, session table or database.\<close>

lemma sm_issue_id_fields [simp]:
  "state (sm_issue_id E c) = state c" "authcid (sm_issue_id E c) = authcid c"
  "domain (sm_issue_id E c) = domain c" "bound_jid (sm_issue_id E c) = bound_jid c"
  "write_ud (sm_issue_id E c) = write_ud c" "out_buf (sm_issue_id E c) = out_buf c"
  "failed_auth_count (sm_issue_id E c) = failed_auth_count c"
  "sm_outbound (sm_issue_id E c) = sm_outbound c" "sm_handled (sm_issue_id E c) = sm_handled c"
  "sm_enabled (sm_issue_id E c) = sm_enabled c"
  "needs_starttls_proceed (sm_issue_id E c) = needs_starttls_proceed c"
  by (simp_all add: sm_issue_id_def split: option.splits)

lemmas sm_defs = sm_handle_enable_def sm_handle_ack_req_def sm_handle_ack_def
  sm_handle_resume_def sm_handle_failed_def sm_start_def

lemma xep0198_frame [simp]:
  "state (ctx (xep0198_handle_element E L st s)) = state (ctx s)"
  "authcid (ctx (xep0198_handle_element E L st s)) = authcid (ctx s)"
  "domain (ctx (xep0198_handle_element E L st s)) = domain (ctx s)"
  "bound_jid (ctx (xep0198_handle_element E L st s)) = bound_jid (ctx s)"
  "write_ud (ctx (xep0198_handle_element E L st s)) = write_ud (ctx s)"
  "failed_auth_count (ctx (xep0198_handle_element E L st s)) = failed_auth_count (ctx s)"
  "needs_starttls_proceed (ctx (xep0198_handle_element E L st s)) = needs_starttls_proceed (ctx s)"
  "g_sessions (xep0198_handle_element E L st s) = g_sessions s"
  "db (xep0198_handle_element E L st s) = db s"
  "stream_errors (xep0198_handle_element E L st s) = stream_errors s"
  by (simp_all add: xep0198_handle_element_def sm_defs Let_def split: option.splits)

lemma xep0352_frame [simp]:
  "state (ctx (snd (xep0352_handle_stanza L st s))) = state (ctx s)"
  "authcid (ctx (snd (xep0352_handle_stanza L st s))) = authcid (ctx s)"
  "domain (ctx (snd (xep0352_handle_stanza L st s))) = domain (ctx s)"
  "bound_jid (ctx (snd (xep0352_handle_stanza L st s))) = bound_jid (ctx s)"
  "write_ud (ctx (snd (xep0352_handle_stanza L st s))) = write_ud (ctx s)"
  "out_buf (ctx (snd (xep0352_handle_stanza L st s))) = out_buf (ctx s)"
  "failed_auth_count (ctx (snd (xep0352_handle_stanza L st s))) = failed_auth_count (ctx s)"
  "needs_starttls_proceed (ctx (snd (xep0352_handle_stanza L st s))) = needs_starttls_proceed (ctx s)"
  "sm_outbound (ctx (snd (xep0352_handle_stanza L st s))) = sm_outbound (ctx s)"
  "sm_handled (ctx (snd (xep0352_handle_stanza L st s))) = sm_handled (ctx s)"
  "g_sessions (snd (xep0352_handle_stanza L st s)) = g_sessions s"
  "db (snd (xep0352_handle_stanza L st s)) = db s"
  "sent (snd (xep0352_handle_stanza L st s)) = sent s"
  by (simp_all add: xep0352_handle_stanza_def Let_def)

text \<open>The identifier of a resumable session was sent to its client.\<close>

lemma emit_flushed:
  assumes "out_buf (ctx s) = []" "t \<noteq> []" "length t < XMPP_BUF_SIZE"
  shows "flushed E (emit t s) = s\<lparr>sent := sent s @ [(write_ud (ctx s), t)]\<rparr>"
  using assms by (simp add: write_append_def write_flush_def iq_append_def write_fn_def upd_def)

definition sm_told :: "(sink \<times> cstr) list \<Rightarrow> server \<Rightarrow> bool" where
  "sm_told old s \<longleftrightarrow> out_buf (ctx s) = [] \<and> (\<exists>news. sent s = old @ news \<and>
     (sm_resumable (ctx s) \<longrightarrow> length (sm_id (ctx s)) \<le> 64 \<and> (write_ud (ctx s), enabled_xml (ctx s)) \<in> set news))"

lemma flushed_grows: "\<exists>xs. sent (flushed E s) = sent s @ xs"
  by (simp add: flush_sent)

lemma sm_told_grow:
  assumes "sm_told old s" "out_buf (ctx s') = []" "\<exists>xs. sent s' = sent s @ xs"
    and "sm_resumable (ctx s') \<Longrightarrow> sm_resumable (ctx s)" "sm_id (ctx s') = sm_id (ctx s) \<or> \<not> sm_resumable (ctx s')"
    and "write_ud (ctx s') = write_ud (ctx s)"
  shows "sm_told old s'"
  using assms unfolding sm_told_def enabled_xml_def by fastforce

lemma enable_told:
  assumes "sm_told old s"
  shows "sm_told old (sm_handle_enable E L st s)"
proof (cases "sm_enabled (ctx s)")
  case True
  show ?thesis
    by (rule sm_told_grow [OF assms])
      (use True in \<open>simp_all add: sm_handle_enable_def flush_sent\<close>)
next
  case False
  let ?f = "\<lambda>c. if parse_bool_attr (get_attribute L st ''resume'') then sm_issue_id E (sm_start c) else sm_start c"
  let ?s2 = "upd ?f s"
  have run: "sm_handle_enable E L st s = flushed E (emit (enabled_xml (ctx ?s2)) ?s2)"
    using False by (simp add: sm_handle_enable_def upd_def)
  have buf: "out_buf (ctx ?s2) = []" using assms by (simp add: sm_told_def sm_start_def)
  have ids: "sm_resumable (ctx ?s2) \<Longrightarrow> length (sm_id (ctx ?s2)) \<le> 64"
    by (auto simp: sm_issue_id_def sm_start_def split: option.splits if_splits)
  then have short: "length (enabled_xml (ctx ?s2)) < XMPP_BUF_SIZE" "enabled_xml (ctx ?s2) \<noteq> []"
    by (auto simp: enabled_xml_def attr_def XEP0198_NS_def)
  obtain news where "sent s = old @ news" using assms by (auto simp: sm_told_def)
  then show ?thesis
    unfolding run emit_flushed [OF buf short(2,1)] sm_told_def using buf ids
    by (auto intro!: exI [of _ "news @ [(write_ud (ctx ?s2), enabled_xml (ctx ?s2))]"])
qed

lemma resumed_xml_short:
  assumes "length (sm_id c) \<le> 64"
  shows "resumed_xml c \<noteq> []" "length (resumed_xml c) < XMPP_BUF_SIZE"
  using assms show_nat_short [of "sm_handled c"] by (simp_all add: resumed_xml_def attr_def XEP0198_NS_def)

lemma resume_accepted:
  assumes "sm_told old s" "parse_uint32_attr (get_attribute L st ''h'') \<noteq> None" "sm_resumable (ctx s)"
    "sm_id (ctx s) \<noteq> []" "get_attribute L st ''previd'' = Some (sm_id (ctx s))"
  shows "sm_handle_resume E L st s = upd (\<lambda>c. c\<lparr>sm_enabled := True\<rparr>)
    (s\<lparr>sent := sent s @ [(write_ud (ctx s), resumed_xml (ctx s))]\<rparr>)"
proof -
  have "out_buf (ctx s) = []" "length (sm_id (ctx s)) \<le> 64" using assms(1,3) by (auto simp: sm_told_def)
  then show ?thesis
    using assms(2-5) by (auto simp: sm_handle_resume_def emit_flushed resumed_xml_short)
qed

lemma resume_refused:
  assumes "sm_told old s" "\<not> (parse_uint32_attr (get_attribute L st ''h'') \<noteq> None \<and> sm_resumable (ctx s) \<and>
    sm_id (ctx s) \<noteq> [] \<and> get_attribute L st ''previd'' = Some (sm_id (ctx s)))"
  shows "sm_handle_resume E L st s = s\<lparr>sent := sent s @ [(write_ud (ctx s), sm_failed_xml)]\<rparr>"
proof -
  have "flushed E (emit sm_failed_xml s) = s\<lparr>sent := sent s @ [(write_ud (ctx s), sm_failed_xml)]\<rparr>"
    using assms(1) by (intro emit_flushed) (simp_all add: sm_told_def sm_failed_xml_def attr_def XEP0198_NS_def)
  then show ?thesis
    using assms(2) unfolding sm_handle_resume_def Let_def
    by (cases "parse_uint32_attr (get_attribute L st ''h'')") auto
qed

lemma sm_told_step:
  assumes "sm_told old s"
  shows "sm_told old (xep0198_handle_element E L st s)"
proof -
  have buf: "out_buf (ctx s) = []" using assms by (simp add: sm_told_def)
  have "sm_told old (sm_handle_ack_req E s)" "sm_told old (sm_handle_failed s)"
    by (rule sm_told_grow [OF assms], use buf in \<open>simp_all add: sm_handle_ack_req_def sm_handle_failed_def flush_sent\<close>)+
  moreover have "sm_told old (sm_handle_ack E L st s)"
    by (rule sm_told_grow [OF assms], use buf in \<open>simp_all add: sm_handle_ack_def flush_sent split: option.splits if_splits\<close>)
  moreover have "sm_told old (sm_handle_resume E L st s)"
    by (rule sm_told_grow [OF assms], use buf in \<open>simp_all add: sm_handle_resume_def Let_def flush_sent split: option.splits if_splits\<close>)
  ultimately show ?thesis using assms enable_told [OF assms, of E L st] by (simp add: xep0198_handle_element_def)
qed

lemma sm_told_run:
  assumes "sm_told old s"
  shows "sm_told old (fold (\<lambda>(E, st). xep0198_handle_element E L st) elements s)"
    and "write_ud (ctx (fold (\<lambda>(E, st). xep0198_handle_element E L st) elements s)) = write_ud (ctx s)"
  using assms by (induction elements arbitrary: s) (auto simp: sm_told_step)

subsection \<open>Properties\<close>

text \<open>The stanza counters survive the wire: a counter printed in decimal is parsed back
  to the same 32-bit value.\<close>

theorem counter_round_trip: "parse_uint32_attr (Some (show_nat (unat w))) = Some w"
proof -
  have "unat w < 2 ^ 32" using unsigned_less [of w] by simp
  then show ?thesis by (simp add: parse_uint32_attr_def uint32_show_nat)
qed

text \<open>The parser of counter attributes accepts exactly the strings of decimal digits
  whose value fits in 32 bits, and never wraps around.\<close>

theorem parse_uint32_iff:
  "parse_uint32_attr (Some v) =
     (if list_all is_digit v \<and> dec_value 0 v \<le> 4294967295
      then Some (of_nat (dec_value 0 v)) else None)"
  by (simp add: parse_uint32_attr_def uint32_loop_eq)

text \<open>An acknowledgement of more stanzas than were sent closes the stream with the
  \<open>handled-count-too-high\<close> error and leaves the counter alone; any other well-formed
  acknowledgement only stores the acknowledged count.\<close>

theorem ack_checked:
  assumes "parse_uint32_attr (get_attribute L st ''h'') = Some h"
  shows "(h > sm_outbound (ctx s) \<longrightarrow> pending_error (ctx (sm_handle_ack E L st s)) \<and>
      sm_outbound (ctx (sm_handle_ack E L st s)) = sm_outbound (ctx s)) \<and>
    (h \<le> sm_outbound (ctx s) \<longrightarrow>
      sm_handle_ack E L st s = upd (\<lambda>c. c\<lparr>sm_outbound := h\<rparr>) s)"
  using assms by (simp add: sm_handle_ack_def counter_check_peer_h_def)

theorem ack_checked_witness:
  "pending_error (ctx (sm_handle_ack env0 xml_strophe (Elem ''a'' ''urn:xmpp:sm:3'' [(''h'', ''1'')] []) server0))"
proof -
  let ?st = "Elem ''a'' ''urn:xmpp:sm:3'' [(''h'', ''1'')] []"
  have "parse_uint32_attr (get_attribute xml_strophe ?st ''h'') = Some 1"
    by (simp add: parse_uint32_attr_def)
  from ack_checked [OF this, of server0 env0] show ?thesis
    by (simp add: example_defs)
qed

text \<open>The server never counts the stanzas it sends: enabling stream management sets the
  counter to zero, no element the client can send raises it, and so every acknowledgement of
  one or more stanzas is treated as an error.\<close>

theorem outbound_never_counted:
  assumes "sm_outbound (ctx s) = 0"
  shows "sm_outbound (ctx (xep0198_handle_element E L st s)) = 0 \<and>
    (\<forall>h. parse_uint32_attr (get_attribute L st ''h'') = Some h \<and> h \<noteq> 0 \<longrightarrow>
      pending_error (ctx (sm_handle_ack E L st s)))"
proof -
  have zero: "h = 0" if "\<not> 0 < h" for h :: "32 word"
    using that word_gt_0 [of h] by metis
  have "sm_outbound (ctx (sm_handle_ack E L st s)) = 0"
    using assms by (auto simp: sm_handle_ack_def counter_check_peer_h_def zero split: option.splits)
  then have "sm_outbound (ctx (xep0198_handle_element E L st s)) = 0"
    using assms
    by (simp add: xep0198_handle_element_def sm_handle_enable_def sm_handle_ack_req_def
        sm_handle_resume_def sm_handle_failed_def sm_start_def Let_def split: option.splits)
  moreover have "pending_error (ctx (sm_handle_ack E L st s))"
    if h: "parse_uint32_attr (get_attribute L st ''h'') = Some h" "h \<noteq> 0" for h
  proof -
    have "0 < h" using h(2) zero by blast
    with h(1) assms show ?thesis by (simp add: sm_handle_ack_def counter_check_peer_h_def)
  qed
  ultimately show ?thesis by blast
qed

theorem outbound_never_counted_witness:
  "sm_outbound (ctx (xep0198_handle_element env0 xml_strophe
     (Elem ''a'' ''urn:xmpp:sm:3'' [(''h'', ''1'')] []) server0)) = 0"
  using outbound_never_counted [of server0 env0 xml_strophe "Elem ''a'' ''urn:xmpp:sm:3'' [(''h'', ''1'')] []"]
  by (simp add: example_defs)


definition sm_enable_st :: xml where
  "sm_enable_st = Elem ''enable'' ''urn:xmpp:sm:3'' [(''resume'', ''true'')] []"

definition sm_resume_st :: "cstr \<Rightarrow> xml" where
  "sm_resume_st i = Elem ''resume'' ''urn:xmpp:sm:3'' [(''h'', ''0''), (''previd'', i)] []"

definition sm_env :: env where
  "sm_env = env0\<lparr>sm_key := Some ''k'', hmac_sha256 := (\<lambda>key inp. Some (''ab'' @ inp))\<rparr>"

definition sm_bound :: server where
  "sm_bound = server0\<lparr>ctx := session0\<lparr>state := BOUND, authcid := ''u''\<rparr>\<rparr>"


end
