(* ===== verification/Stream.thy ===== *)
theory Stream
  imports IQ_Handlers Stream_Mgmt
begin

text \<open>
  The XMPP stream of one connection (\<^verbatim>\<open>xmpp.c\<close>): stream opening, the negotiation state
  machine (STARTTLS, SASL, resource binding), and the hand-over of stanzas to the IQ,
  presence and message handlers. The state of a connection's stream is the pair of the IQ
  registry, which dispatch sorts, and the server.
\<close>

subsection \<open>Helpers\<close>

definition is_forbidden_resource_char :: "char \<Rightarrow> bool" where
  "is_forbidden_resource_char ch \<longleftrightarrow>
     (of_char ch :: nat) < 32 \<or> (of_char ch :: nat) = 127 \<or>
     ch \<in> {CHR 0x22, CHR 0x27, CHR ''/'', CHR '':'', CHR ''<'', CHR ''>'', CHR ''@''}"

definition validate_resource :: "cstr \<Rightarrow> int" where
  "validate_resource res =
     (if length res = 0 \<or> length res > 1023 then - 1
      else if list_ex is_forbidden_resource_char res then - 1 else 0)"

definition gen_resource :: "env \<Rightarrow> cstr" where
  "gen_resource E = concat (map (\<lambda>i. show_hex2 (urandom E i)) [0..<4])"

subsection \<open>State transitions\<close>

datatype xmpp_event = EVENT_STREAM_OPEN | EVENT_AUTH | EVENT_SASL_SUCCESS | EVENT_CLOSE | EVENT_TCP_CLOSE

fun validate_transition :: "xmpp_state \<Rightarrow> xmpp_event \<Rightarrow> xmpp_state" where
  "validate_transition from EVENT_STREAM_OPEN =
     (if from = CONNECTED_TCP then STREAM_OPENED
      else if from = TLS_NEGOTIATED \<or> from = STARTTLS_SENT then STREAM_RESTARTED_POST_TLS
      else if from = SASL_SUCCESS then STREAM_RESTARTED_POST_SASL
      else CLOSED)"
| "validate_transition from EVENT_AUTH =
     (if from = FEATURES_RECEIVED_POST_TLS then SASL_NEGOTIATING else CLOSED)"
| "validate_transition from EVENT_SASL_SUCCESS =
     (if from = SASL_NEGOTIATING then SASL_SUCCESS else CLOSED)"
| "validate_transition from EVENT_CLOSE =
     (if from = ONLINE \<or> from = CLOSING then CLOSING else CLOSED)"
| "validate_transition from EVENT_TCP_CLOSE = CLOSED"

definition NS_TLS :: cstr where
  "NS_TLS = ''urn:ietf:params:xml:ns:xmpp-tls''"
definition NS_BIND :: cstr where
  "NS_BIND = ''urn:ietf:params:xml:ns:xmpp-bind''"

definition features_xml :: "xmpp_state \<Rightarrow> cstr" where
  "features_xml q =
     (case q of
        STREAM_OPENED \<Rightarrow>
          ''<stream:features><starttls'' @ attr ''xmlns'' NS_TLS @
          ''><required/></starttls></stream:features>''
      | STREAM_RESTARTED_POST_TLS \<Rightarrow>
          ''<stream:features><mechanisms'' @ attr ''xmlns'' NS_SASL @
          ''><mechanism>PLAIN</mechanism><mechanism>SCRAM-SHA-256</mechanism></mechanisms></stream:features>''
      | STREAM_RESTARTED_POST_SASL \<Rightarrow>
          ''<stream:features><bind'' @ attr ''xmlns'' NS_BIND @ ''><required/></bind><csi'' @
          attr ''xmlns'' CSI_NS @ ''/><sm'' @ attr ''xmlns'' XEP0198_NS @ ''/><ver'' @
          attr ''xmlns'' ''urn:xmpp:features:rosterver'' @ ''/></stream:features>''
      | _ \<Rightarrow> [])"

definition send_stream_features :: "server \<Rightarrow> int \<times> server" where
  "send_stream_features s =
     (let q = state (ctx s) in
      if q = STREAM_OPENED \<or> q = STREAM_RESTARTED_POST_TLS \<or> q = STREAM_RESTARTED_POST_SASL
      then (if fst (write_append (features_xml q) s) \<noteq> 0 then (- 1, s) else (0, emit (features_xml q) s))
      else (0, s))"

text \<open>The stable state after the features were sent.\<close>

definition advance :: "xmpp_state \<Rightarrow> xmpp_state" where
  "advance q =
     (if q = STREAM_OPENED then FEATURES_RECEIVED
      else if q = STREAM_RESTARTED_POST_TLS then FEATURES_RECEIVED_POST_TLS
      else if q = STREAM_RESTARTED_POST_SASL then BOUND else q)"

definition transition_to :: "env \<Rightarrow> xmpp_state \<Rightarrow> xmpp_event \<Rightarrow> server \<Rightarrow> int \<times> server" where
  "transition_to E new_state event s =
     (if validate_transition (state (ctx s)) event = CLOSED \<and> new_state \<noteq> CLOSED
      then (- 1, set_pending_error (set_state CLOSING (send_stream_error E NOT_WELL_FORMED s)))
      else
        (let s1 = set_state new_state s;
             f = send_stream_features s1
         in if fst f \<noteq> 0 then (- 1, set_pending_error (snd f))
            else
              (let w = write_flush E (snd f) in
               if fst w \<noteq> 0 then (- 1, set_pending_error (snd w))
               else (0, set_state (advance new_state) (snd w)))))"

subsection \<open>Opening and closing the stream\<close>

definition stream_open_xml :: "session \<Rightarrow> cstr" where
  "stream_open_xml c =
     ''<?xml version='' @ [quote_char] @ ''1.0'' @ [quote_char] @ ''?><stream:stream'' @
     attr ''xmlns:stream'' ''http://etherx.jabber.org/streams'' @
     attr ''xmlns'' ''jabber:client'' @ attr ''from'' (domain c) @ attr ''id'' (stream_id c) @
     attr ''version'' ''1.0'' @ attr ''xml:lang'' ''en'' @ ''>''"

definition send_stream_open :: "env \<Rightarrow> server \<Rightarrow> int \<times> server" where
  "send_stream_open E s =
     (let a = write_append (stream_open_xml (ctx s)) s in
      if fst a \<noteq> 0 then (- 1, snd a) else write_flush E (snd a))"

text \<open>The last \<^verbatim>\<open>version\<close> attribute counts, the first \<^verbatim>\<open>to\<close>.\<close>

definition validate_stream_open :: "env \<Rightarrow> (cstr \<times> cstr) list \<Rightarrow> server \<Rightarrow> int \<times> server" where
  "validate_stream_open E attrs s =
     (if client_ns (ctx s) \<noteq> ''jabber:client'' then (- 1, send_stream_error E BAD_NAMESPACE s)
      else if stream_ns (ctx s) \<noteq> ''http://etherx.jabber.org/streams''
      then (- 1, send_stream_error E BAD_NAMESPACE s)
      else if map_of (rev attrs) ''version'' \<noteq> Some ''1.0''
      then (- 1, send_stream_error E NOT_WELL_FORMED s)
      else (0, s))"

definition choose_domain :: "cstr option \<Rightarrow> session \<Rightarrow> session" where
  "choose_domain to_val c =
     (let c1 = (case to_val of
                  None \<Rightarrow> c
                | Some t \<Rightarrow> if length t < 1024 then c\<lparr>domain := t\<rparr> else c)
      in if domain c1 = [] then c1\<lparr>domain := ''localhost''\<rparr> else c1)"

definition open_stream :: "env \<Rightarrow> server \<Rightarrow> server" where
  "open_stream E s =
     (let q = state (ctx s) in
      if q = CONNECTED_TCP then snd (transition_to E STREAM_OPENED EVENT_STREAM_OPEN s)
      else if q = TLS_NEGOTIATED \<or> q = STARTTLS_SENT
      then snd (transition_to E STREAM_RESTARTED_POST_TLS EVENT_STREAM_OPEN s)
      else if q = SASL_SUCCESS
      then snd (transition_to E STREAM_RESTARTED_POST_SASL EVENT_STREAM_OPEN s)
      else set_pending_error s)"

definition on_stream_start :: "env \<Rightarrow> cstr option \<Rightarrow> (cstr \<times> cstr) list \<Rightarrow> server \<Rightarrow> server" where
  "on_stream_start E nm attrs s =
     (if nm \<noteq> Some ''stream'' then send_stream_error E NOT_WELL_FORMED s
      else
        (let v = validate_stream_open E attrs s in
         if fst v \<noteq> 0 then snd v
         else
           (let s1 = upd (choose_domain (map_of attrs ''to'')) (snd v);
                w = send_stream_open E s1
            in if fst w \<noteq> 0 then set_pending_error (snd w) else open_stream E (snd w))))"

definition on_stream_end :: "env \<Rightarrow> server \<Rightarrow> server" where
  "on_stream_end E s =
     (if state (ctx s) \<noteq> CLOSING \<and> state (ctx s) \<noteq> CLOSED
      then set_state CLOSING (snd (send_stream_close E s)) else s)"

subsection \<open>Stanzas before the session is online\<close>

definition sasl_failure_xml :: "cstr \<Rightarrow> cstr" where
  "sasl_failure_xml condition = ''<failure'' @ attr ''xmlns'' NS_SASL @ ''><'' @ condition @ ''/></failure>''"

text \<open>A stream error that closes the stream.\<close>

definition stream_abort :: "env \<Rightarrow> stream_error \<Rightarrow> server \<Rightarrow> server" where
  "stream_abort E e s = set_pending_error (set_state CLOSING (send_stream_error E e s))"

text \<open>A \<^verbatim>\<open><failure/>\<close> with the closing stream tag.\<close>

definition failure_close :: "env \<Rightarrow> cstr \<Rightarrow> xmpp_state \<Rightarrow> server \<Rightarrow> server" where
  "failure_close E xml q s =
     set_pending_error (set_state q (flushed E (emit STREAM_CLOSE (emit xml s))))"

definition stanza_features_received :: "env \<Rightarrow> 's strophe \<Rightarrow> 's \<Rightarrow> server \<Rightarrow> server" where
  "stanza_features_received E L st s =
     (if has_name L st ''auth'' then
        (if get_attribute L st ''mechanism'' = Some ''PLAIN'' then stream_abort E POLICY_VIOLATION s
         else failure_close E (sasl_failure_xml ''unsupported-mechanism'') CLOSED s)
      else if \<not> has_name L st ''starttls'' then stream_abort E POLICY_VIOLATION s
      else if get_ns L st \<noteq> Some NS_TLS then
        failure_close E (''<failure'' @ attr ''xmlns'' NS_TLS @ ''><invalid-namespace/></failure>'') CLOSING s
      else
        upd (\<lambda>c. c\<lparr>needs_starttls_proceed := True, state := STARTTLS_SENT\<rparr>)
          (flushed E (emit (''<proceed'' @ attr ''xmlns'' NS_TLS @ ''/>'') s)))"

definition sasl_success :: "env \<Rightarrow> server \<Rightarrow> server" where
  "sasl_success E s =
     upd (\<lambda>c. c\<lparr>needs_parser_reset := True, state := SASL_SUCCESS\<rparr>)
       (flushed E (emit (''<success'' @ attr ''xmlns'' NS_SASL @ ''/>'') s))"

definition retry_auth :: "server \<Rightarrow> server" where
  "retry_auth = upd (\<lambda>c. c\<lparr>needs_parser_reset := True, state := TLS_NEGOTIATED\<rparr>)"

definition plain_failed :: "env \<Rightarrow> sasl_rc \<Rightarrow> server \<Rightarrow> server" where
  "plain_failed E rc s =
     (let s1 = flushed E (emit (sasl_failure_xml ''not-authorized'') s) in
      if rc = SASL_TERMINAL then set_state CLOSING (send_stream_error E POLICY_VIOLATION s1)
      else
        (let s2 = upd (\<lambda>c. c\<lparr>failed_auth_count := failed_auth_count c + 1\<rparr>) s1 in
         if failed_auth_count (ctx s2) \<ge> 3
         then set_state CLOSING (send_stream_error E POLICY_VIOLATION s2)
         else retry_auth s2))"

definition auth_plain :: "env \<Rightarrow> 's strophe \<Rightarrow> 's \<Rightarrow> server \<Rightarrow> server" where
  "auth_plain E L st s =
     (case get_text L st of
        None \<Rightarrow> set_pending_error s
      | Some b64_text \<Rightarrow>
          (let a = handle_sasl_plain E b64_text s in
           if fst a \<noteq> SASL_OK then plain_failed E (fst a) (snd a) else sasl_success E (snd a)))"

text \<open>The base64 loop of the SCRAM branch: complete groups of four only.\<close>

fun scram_text_loop :: "nat \<Rightarrow> cstr \<Rightarrow> nat \<Rightarrow> nat \<Rightarrow> cstr \<Rightarrow> cstr" where
  "scram_text_loop n [] st val out = out"
| "scram_text_loop n (c # cs) st val out =
     (if c = CHR ''='' then scram_text_loop n cs st val out
      else case b64_index c of
          None \<Rightarrow> scram_text_loop n cs st val out
        | Some i \<Rightarrow>
            (let val' = val * 64 + i in
             if st + 1 = 4 then
               (if length out + 3 > n * 3 div 4 + 3 then out
                else scram_text_loop n cs 0 0
                       (out @ [char_of (val' div 65536 mod 256), char_of (val' div 256 mod 256),
                               char_of (val' mod 256)]))
             else scram_text_loop n cs (st + 1) val' out))"

definition scram_failed :: "env \<Rightarrow> int \<Rightarrow> server \<Rightarrow> server" where
  "scram_failed E rc s =
     (let s1 = flushed E (emit (sasl_failure_xml ''not-authorized'') s);
          s2 = upd (\<lambda>c. c\<lparr>failed_auth_count := failed_auth_count c + 1\<rparr>) s1
      in if failed_auth_count (ctx s2) \<ge> 3 \<or> rc = - 2
         then set_state CLOSING (if rc = - 2 then send_stream_error E POLICY_VIOLATION s2 else s2)
         else retry_auth s2)"

definition auth_scram :: "env \<Rightarrow> 's strophe \<Rightarrow> 's \<Rightarrow> server \<Rightarrow> server" where
  "auth_scram E L st s =
     (let text = opt_str (get_text L st);
          decoded = scram_text_loop (length text) text 0 0 [];
          step = (if state (ctx s) = SASL_NEGOTIATING then 2 else 1);
          a = handle_scram_sha256 E step decoded s
      in if fst a = 0 then sasl_success E (snd a)
         else if fst a = 1 then flushed E (set_state SASL_NEGOTIATING (snd a))
         else scram_failed E (fst a) (snd a))"

definition stanza_sasl :: "env \<Rightarrow> 's strophe \<Rightarrow> 's \<Rightarrow> server \<Rightarrow> server" where
  "stanza_sasl E L st s =
     (if \<not> has_name L st ''auth'' then stream_abort E POLICY_VIOLATION s
      else case get_attribute L st ''mechanism'' of
          None \<Rightarrow> failure_close E (sasl_failure_xml ''unsupported-mechanism'') CLOSED s
        | Some mech \<Rightarrow>
            if mech = ''PLAIN'' then auth_plain E L st s
            else if mech = ''SCRAM-SHA-256'' then auth_scram E L st s
            else failure_close E (sasl_failure_xml ''unsupported-mechanism'') CLOSED s)"

subsection \<open>Binding a resource\<close>

definition bind_error_xml :: "cstr option \<Rightarrow> cstr" where
  "bind_error_xml iq_id = iq_error_xml iq_id ''modify'' ''bad-request''"

definition bind_result_xml :: "cstr option \<Rightarrow> cstr \<Rightarrow> cstr" where
  "bind_result_xml iq_id jid =
     ''<iq'' @ attr ''type'' ''result'' @ id_attr iq_id @ ''><bind'' @ attr ''xmlns'' NS_BIND @
     ''><jid>'' @ jid @ ''</jid></bind></iq>''"

definition set_resource :: "cstr \<Rightarrow> session \<Rightarrow> session" where
  "set_resource res c =
     (let c1 = c\<lparr>resource := snprintf 1024 res\<rparr>
      in c1\<lparr>bound_jid := snprintf JID_BUF_SIZE (authcid c @ ''@'' @ domain c @ ''/'' @ resource c1)\<rparr>)"

definition bind_resource :: "env \<Rightarrow> cstr option \<Rightarrow> cstr \<Rightarrow> server \<Rightarrow> server" where
  "bind_resource E iq_id res s =
     (let s1 = upd (set_resource res) s;
          w = write_append (bind_result_xml iq_id (bound_jid (ctx s1))) s1
      in if fst w \<noteq> 0 then set_pending_error (snd w)
         else set_state ONLINE (flushed E (snd w)))"

definition bind_request :: "env \<Rightarrow> 's strophe \<Rightarrow> 's \<Rightarrow> cstr option \<Rightarrow> server \<Rightarrow> server" where
  "bind_request E L bind iq_id s =
     (let res_text = (case get_child_by_name L bind ''resource'' of
                        None \<Rightarrow> None | Some el \<Rightarrow> get_text L el)
      in case nonempty res_text of
           Some r \<Rightarrow>
             if validate_resource r \<noteq> 0 then
               (let w = write_append (bind_error_xml iq_id) s in
                if fst w \<noteq> 0 then set_pending_error (snd w) else flushed E (snd w))
             else bind_resource E iq_id r s
         | None \<Rightarrow> bind_resource E iq_id (gen_resource E) s)"

definition stanza_bound :: "env \<Rightarrow> 's strophe \<Rightarrow> 's \<Rightarrow> server \<Rightarrow> server" where
  "stanza_bound E L st s =
     (if get_ns L st = Some XEP0198_NS then xep0198_handle_element E L st s
      else if get_attribute L st ''type'' \<noteq> Some ''set'' then stream_abort E NOT_WELL_FORMED s
      else case get_child_by_name L st ''bind'' of
          None \<Rightarrow> stream_abort E NOT_WELL_FORMED s
        | Some bind \<Rightarrow> bind_request E L bind (get_attribute L st ''id'') s)"

subsection \<open>Stanzas of an online session\<close>

type_synonym stream = "iq_fn iq_registry \<times> server"

definition xmpp_iq_dispatch :: "env \<Rightarrow> 's strophe \<Rightarrow> 's \<Rightarrow> stream \<Rightarrow> stream" where
  "xmpp_iq_dispatch E L st rs = iq_dispatch E L (run_iq_fn E L) st (fst rs) (snd rs)"

definition stanza_online :: "env \<Rightarrow> 's strophe \<Rightarrow> 's \<Rightarrow> stream \<Rightarrow> stream" where
  "stanza_online E L st rs =
     (if has_name L st ''iq'' then xmpp_iq_dispatch E L st rs
      else if has_name L st ''presence'' then (fst rs, xmpp_presence_handle E L st (snd rs))
      else if has_name L st ''message'' then (fst rs, xmpp_message_handle E L st (snd rs))
      else
        (let c = xep0352_handle_stanza L st (snd rs) in
         if fst c = 0 then (fst rs, snd c)
         else if get_ns L st = Some XEP0198_NS
         then (fst rs, xep0198_handle_element E L st (snd c))
         else (fst rs, snd c)))"

definition on_stanza :: "env \<Rightarrow> 's strophe \<Rightarrow> 's \<Rightarrow> stream \<Rightarrow> stream" where
  "on_stanza E L st rs =
     (case state (ctx (snd rs)) of
        FEATURES_RECEIVED \<Rightarrow> (fst rs, stanza_features_received E L st (snd rs))
      | FEATURES_RECEIVED_POST_TLS \<Rightarrow> (fst rs, stanza_sasl E L st (snd rs))
      | SASL_NEGOTIATING \<Rightarrow> (fst rs, stanza_sasl E L st (snd rs))
      | BOUND \<Rightarrow> (fst rs, stanza_bound E L st (snd rs))
      | ONLINE \<Rightarrow> stanza_online E L st rs
      | _ \<Rightarrow> rs)"

subsection \<open>Sessions and input\<close>

definition session_reset :: "env \<Rightarrow> session" where
  "session_reset E =
     session0\<lparr>state := CONNECTED_TCP,
              stream_id := snprintf 17 (concat (map (\<lambda>i. show_hex2 (urandom E i)) [0..<8]))\<rparr>"

definition xmpp_session_reset :: "env \<Rightarrow> server \<Rightarrow> server" where
  "xmpp_session_reset E s = s\<lparr>ctx := session_reset E\<rparr>"

text \<open>\<^verbatim>\<open>memmem\<close>: the suffix that starts at the first occurrence.\<close>

fun memmem :: "cstr \<Rightarrow> cstr \<Rightarrow> cstr option" where
  "memmem [] needle = (if needle = [] then Some [] else None)"
| "memmem (c # cs) needle =
     (if take (length needle) (c # cs) = needle then Some (c # cs) else memmem cs needle)"

definition first_some :: "'a option \<Rightarrow> 'a option \<Rightarrow> 'a option" where
  "first_some a b = (case a of None \<Rightarrow> b | Some x \<Rightarrow> Some x)"

text \<open>The value of a namespace attribute within the start tag, up to the next single
  quote, or else the next double quote; a value of 256 bytes or more is ignored.\<close>

definition ns_attribute :: "cstr \<Rightarrow> cstr \<Rightarrow> cstr \<Rightarrow> cstr" where
  "ns_attribute tag prefix old =
     (case first_some (memmem tag (prefix @ [CHR 0x27])) (memmem tag (prefix @ [CHR 0x22])) of
        None \<Rightarrow> old
      | Some p \<Rightarrow>
          (let v = drop (length prefix + 1) p;
               q = (if CHR 0x27 \<in> set v then Some (before (CHR 0x27) v)
                    else if CHR 0x22 \<in> set v then Some (before (CHR 0x22) v) else None)
           in case q of
                None \<Rightarrow> old
              | Some x \<Rightarrow> if length x < 256 then x else old))"

definition extract_namespaces :: "cstr \<Rightarrow> session \<Rightarrow> session" where
  "extract_namespaces data c =
     (case first_some (memmem data ''<stream:stream'') (memmem data ''<stream:'') of
        None \<Rightarrow> c
      | Some tag \<Rightarrow>
          if CHR ''>'' \<notin> set tag then c
          else
            (let t = before (CHR ''>'') tag in
             c\<lparr>client_ns := ns_attribute t ''xmlns='' (client_ns c),
               stream_ns := ns_attribute t ''xmlns:stream='' (stream_ns c)\<rparr>))"

text \<open>The XML parser is libstrophe's: creating one and feeding it, which gives the new
  parser, the callbacks it made, and whether it accepted the data.\<close>

datatype 's parser_event = Stream_start "cstr option" "(cstr \<times> cstr) list" | Stanza 's | Stream_end

record ('p, 's) xml_parser =
  parser_new :: 'p
  parser_feed :: "'p \<Rightarrow> cstr \<Rightarrow> 'p \<times> 's parser_event list \<times> bool"

fun handle_event :: "env \<Rightarrow> 's strophe \<Rightarrow> 's parser_event \<Rightarrow> stream \<Rightarrow> stream" where
  "handle_event E L (Stream_start nm attrs) rs = (fst rs, on_stream_start E nm attrs (snd rs))"
| "handle_event E L (Stanza st) rs = on_stanza E L st rs"
| "handle_event E L Stream_end rs = (fst rs, on_stream_end E (snd rs))"

definition strip_declaration :: "cstr \<Rightarrow> cstr" where
  "strip_declaration data =
     (if length data \<ge> 5 \<and> take 5 data = ''<?xml'' then
        (case memmem data ''?>'' of None \<Rightarrow> data | Some d \<Rightarrow> drop 2 d)
      else data)"

text \<open>Preparing the session for a call: write callback, error flag, pending parser resets.\<close>

definition feed_prepare :: "sink \<Rightarrow> session \<Rightarrow> session" where
  "feed_prepare u c = c\<lparr>write_ud := u, pending_error := False, needs_parser_reset := False,
     needs_starttls_proceed := False\<rparr>"

definition xmpp_feed :: "env \<Rightarrow> 's strophe \<Rightarrow> ('p, 's) xml_parser \<Rightarrow> cstr \<Rightarrow> sink \<Rightarrow>
    'p \<times> stream \<Rightarrow> int \<times> 'p \<times> stream" where
  "xmpp_feed E L P data u ps =
     (let p0 = fst ps; rs0 = snd ps; c = ctx (snd rs0);
          p1 = (if needs_parser_reset c \<or> needs_starttls_proceed c then parser_new P else p0);
          s1 = upd (extract_namespaces data) (upd (feed_prepare u) (snd rs0));
          f = parser_feed P p1 (strip_declaration data);
          rs2 = fold (handle_event E L) (fst (snd f)) (fst rs0, s1)
      in if \<not> snd (snd f)
         then (- 1, fst f, (fst rs2, send_stream_error E NOT_WELL_FORMED (snd rs2)))
         else (if pending_error (ctx (snd rs2)) then - 1 else 0, fst f, rs2))"

subsection \<open>Frames\<close>

lemma handle_scram_fields [simp]:
  "state (ctx (snd (handle_scram_sha256 E n t s))) = state (ctx s)"
  "domain (ctx (snd (handle_scram_sha256 E n t s))) = domain (ctx s)"
  "bound_jid (ctx (snd (handle_scram_sha256 E n t s))) = bound_jid (ctx s)"
  "failed_auth_count (ctx (snd (handle_scram_sha256 E n t s))) = failed_auth_count (ctx s)"
  "needs_starttls_proceed (ctx (snd (handle_scram_sha256 E n t s))) = needs_starttls_proceed (ctx s)"
  "g_sessions (snd (handle_scram_sha256 E n t s)) = g_sessions s"
  "db (snd (handle_scram_sha256 E n t s)) = db s"
  using handle_scram_keeps [of s E n t] by (auto simp: scram_keeps_def)

lemma sasl_plain_starttls [simp]:
  "needs_starttls_proceed (ctx (snd (handle_sasl_plain E t s))) = needs_starttls_proceed (ctx s)"
  using handle_sasl_plain_frame [of E t s] by auto

lemma stream_abort_fields [simp]:
  "state (ctx (stream_abort E e s)) = CLOSING"
  "authcid (ctx (stream_abort E e s)) = authcid (ctx s)"
  "domain (ctx (stream_abort E e s)) = domain (ctx s)"
  "bound_jid (ctx (stream_abort E e s)) = bound_jid (ctx s)"
  "failed_auth_count (ctx (stream_abort E e s)) = failed_auth_count (ctx s)"
  "needs_starttls_proceed (ctx (stream_abort E e s)) = needs_starttls_proceed (ctx s)"
  "g_sessions (stream_abort E e s) = g_sessions s"
  "db (stream_abort E e s) = db s"
  by (simp_all add: stream_abort_def)

lemma failure_close_fields [simp]:
  "state (ctx (failure_close E x q s)) = q"
  "authcid (ctx (failure_close E x q s)) = authcid (ctx s)"
  "domain (ctx (failure_close E x q s)) = domain (ctx s)"
  "bound_jid (ctx (failure_close E x q s)) = bound_jid (ctx s)"
  "failed_auth_count (ctx (failure_close E x q s)) = failed_auth_count (ctx s)"
  "needs_starttls_proceed (ctx (failure_close E x q s)) = needs_starttls_proceed (ctx s)"
  "g_sessions (failure_close E x q s) = g_sessions s"
  "db (failure_close E x q s) = db s"
  by (simp_all add: failure_close_def)

lemma sasl_success_fields [simp]:
  "state (ctx (sasl_success E s)) = SASL_SUCCESS"
  "authcid (ctx (sasl_success E s)) = authcid (ctx s)"
  "domain (ctx (sasl_success E s)) = domain (ctx s)"
  "bound_jid (ctx (sasl_success E s)) = bound_jid (ctx s)"
  "failed_auth_count (ctx (sasl_success E s)) = failed_auth_count (ctx s)"
  "needs_starttls_proceed (ctx (sasl_success E s)) = needs_starttls_proceed (ctx s)"
  "g_sessions (sasl_success E s) = g_sessions s"
  "db (sasl_success E s) = db s"
  by (simp_all add: sasl_success_def)

lemma auth_failed_fields [simp]:
  "bound_jid (ctx (plain_failed E rc s)) = bound_jid (ctx s)"
  "bound_jid (ctx (scram_failed E n s)) = bound_jid (ctx s)"
  "domain (ctx (plain_failed E rc s)) = domain (ctx s)"
  "domain (ctx (scram_failed E n s)) = domain (ctx s)"
  "needs_starttls_proceed (ctx (plain_failed E rc s)) = needs_starttls_proceed (ctx s)"
  "needs_starttls_proceed (ctx (scram_failed E n s)) = needs_starttls_proceed (ctx s)"
  "g_sessions (plain_failed E rc s) = g_sessions s"
  "g_sessions (scram_failed E n s) = g_sessions s"
  "db (plain_failed E rc s) = db s"
  "db (scram_failed E n s) = db s"
  by (simp_all add: plain_failed_def scram_failed_def retry_auth_def Let_def)

lemma auth_failed_state:
  "state (ctx (plain_failed E rc s)) = TLS_NEGOTIATED \<or> state (ctx (plain_failed E rc s)) = CLOSING"
  "state (ctx (scram_failed E n s)) = TLS_NEGOTIATED \<or> state (ctx (scram_failed E n s)) = CLOSING"
  by (simp_all add: plain_failed_def scram_failed_def retry_auth_def Let_def)

lemma auth_failed_count:
  "failed_auth_count (ctx (plain_failed E rc s)) = failed_auth_count (ctx s) \<and>
     state (ctx (plain_failed E rc s)) = CLOSING \<or>
   failed_auth_count (ctx (plain_failed E rc s)) = failed_auth_count (ctx s) + 1 \<and>
     (failed_auth_count (ctx s) + 1 \<ge> 3 \<longrightarrow> state (ctx (plain_failed E rc s)) = CLOSING)"
  "failed_auth_count (ctx (scram_failed E n s)) = failed_auth_count (ctx s) + 1 \<and>
     (failed_auth_count (ctx s) + 1 \<ge> 3 \<longrightarrow> state (ctx (scram_failed E n s)) = CLOSING)"
  by (simp_all add: plain_failed_def scram_failed_def retry_auth_def Let_def)

lemma send_stream_features_fields [simp]:
  "state (ctx (snd (send_stream_features s))) = state (ctx s)"
  "authcid (ctx (snd (send_stream_features s))) = authcid (ctx s)"
  "domain (ctx (snd (send_stream_features s))) = domain (ctx s)"
  "bound_jid (ctx (snd (send_stream_features s))) = bound_jid (ctx s)"
  "failed_auth_count (ctx (snd (send_stream_features s))) = failed_auth_count (ctx s)"
  "needs_starttls_proceed (ctx (snd (send_stream_features s))) = needs_starttls_proceed (ctx s)"
  "g_sessions (snd (send_stream_features s)) = g_sessions s"
  "db (snd (send_stream_features s)) = db s"
  by (simp_all add: send_stream_features_def Let_def)

lemma transition_to_fields [simp]:
  "authcid (ctx (snd (transition_to E q ev s))) = authcid (ctx s)"
  "domain (ctx (snd (transition_to E q ev s))) = domain (ctx s)"
  "bound_jid (ctx (snd (transition_to E q ev s))) = bound_jid (ctx s)"
  "failed_auth_count (ctx (snd (transition_to E q ev s))) = failed_auth_count (ctx s)"
  "needs_starttls_proceed (ctx (snd (transition_to E q ev s))) = needs_starttls_proceed (ctx s)"
  "g_sessions (snd (transition_to E q ev s)) = g_sessions s"
  "db (snd (transition_to E q ev s)) = db s"
  by (simp_all add: transition_to_def Let_def)

lemma transition_to_state:
  "state (ctx (snd (transition_to E q ev s))) \<in> {CLOSING, q, advance q}"
  by (simp add: transition_to_def Let_def)

lemma choose_domain_fields [simp]:
  "state (choose_domain t c) = state c" "authcid (choose_domain t c) = authcid c"
  "bound_jid (choose_domain t c) = bound_jid c"
  "failed_auth_count (choose_domain t c) = failed_auth_count c"
  "needs_starttls_proceed (choose_domain t c) = needs_starttls_proceed c"
  by (simp_all add: choose_domain_def Let_def split: option.splits)

lemma send_stream_open_fields [simp]:
  "state (ctx (snd (send_stream_open E s))) = state (ctx s)"
  "authcid (ctx (snd (send_stream_open E s))) = authcid (ctx s)"
  "domain (ctx (snd (send_stream_open E s))) = domain (ctx s)"
  "bound_jid (ctx (snd (send_stream_open E s))) = bound_jid (ctx s)"
  "failed_auth_count (ctx (snd (send_stream_open E s))) = failed_auth_count (ctx s)"
  "needs_starttls_proceed (ctx (snd (send_stream_open E s))) = needs_starttls_proceed (ctx s)"
  "g_sessions (snd (send_stream_open E s)) = g_sessions s"
  "db (snd (send_stream_open E s)) = db s"
  by (simp_all add: send_stream_open_def Let_def)

lemma open_stream_fields [simp]:
  "authcid (ctx (open_stream E s)) = authcid (ctx s)"
  "domain (ctx (open_stream E s)) = domain (ctx s)"
  "bound_jid (ctx (open_stream E s)) = bound_jid (ctx s)"
  "failed_auth_count (ctx (open_stream E s)) = failed_auth_count (ctx s)"
  "needs_starttls_proceed (ctx (open_stream E s)) = needs_starttls_proceed (ctx s)"
  "g_sessions (open_stream E s) = g_sessions s"
  "db (open_stream E s) = db s"
  by (simp_all add: open_stream_def Let_def)

lemma validate_stream_open_fields [simp]:
  "authcid (ctx (snd (validate_stream_open E a s))) = authcid (ctx s)"
  "domain (ctx (snd (validate_stream_open E a s))) = domain (ctx s)"
  "bound_jid (ctx (snd (validate_stream_open E a s))) = bound_jid (ctx s)"
  "failed_auth_count (ctx (snd (validate_stream_open E a s))) = failed_auth_count (ctx s)"
  "needs_starttls_proceed (ctx (snd (validate_stream_open E a s))) = needs_starttls_proceed (ctx s)"
  "g_sessions (snd (validate_stream_open E a s)) = g_sessions s"
  "db (snd (validate_stream_open E a s)) = db s"
  by (simp_all add: validate_stream_open_def)

lemma on_stream_start_fields [simp]:
  "authcid (ctx (on_stream_start E nm a s)) = authcid (ctx s)"
  "bound_jid (ctx (on_stream_start E nm a s)) = bound_jid (ctx s)"
  "failed_auth_count (ctx (on_stream_start E nm a s)) = failed_auth_count (ctx s)"
  "needs_starttls_proceed (ctx (on_stream_start E nm a s)) = needs_starttls_proceed (ctx s)"
  "g_sessions (on_stream_start E nm a s) = g_sessions s"
  "db (on_stream_start E nm a s) = db s"
  by (simp_all add: on_stream_start_def Let_def)

lemma on_stream_end_fields [simp]:
  "authcid (ctx (on_stream_end E s)) = authcid (ctx s)"
  "domain (ctx (on_stream_end E s)) = domain (ctx s)"
  "bound_jid (ctx (on_stream_end E s)) = bound_jid (ctx s)"
  "failed_auth_count (ctx (on_stream_end E s)) = failed_auth_count (ctx s)"
  "needs_starttls_proceed (ctx (on_stream_end E s)) = needs_starttls_proceed (ctx s)"
  "g_sessions (on_stream_end E s) = g_sessions s"
  "db (on_stream_end E s) = db s"
  by (simp_all add: on_stream_end_def)

subsection \<open>The mechanisms on offer\<close>

text \<open>The names in \<^const>\<open>sasl_available_mechanisms\<close>: the stream offers them in this order, refuses all
  others, and waits for another message of the client only for the one that has several steps.\<close>

fun blank_split :: "cstr \<Rightarrow> cstr list" where
  "blank_split [] = [[]]"
| "blank_split (c # cs) =
     (if c = CHR '' '' then [] # blank_split cs
      else (case blank_split cs of [] \<Rightarrow> [[c]] | w # ws \<Rightarrow> (c # w) # ws))"

definition mechanisms :: "cstr list" where
  "mechanisms = blank_split sasl_available_mechanisms"

lemma mechanisms_simp: "mechanisms = [''PLAIN'', ''SCRAM-SHA-256'']"
  by (simp add: mechanisms_def sasl_available_mechanisms_def)

lemma features_mechanisms:
  "features_xml STREAM_RESTARTED_POST_TLS = ''<stream:features><mechanisms'' @ attr ''xmlns'' NS_SASL @ ''>'' @
     concat (map (\<lambda>m. ''<mechanism>'' @ m @ ''</mechanism>'') mechanisms) @ ''</mechanisms></stream:features>''"
  by (simp add: features_xml_def mechanisms_simp)

lemma other_mechanisms_refused:
  assumes "has_name L st ''auth''" "\<forall>m\<in>set mechanisms. get_attribute L st ''mechanism'' \<noteq> Some m"
  shows "stanza_sasl E L st s = failure_close E (sasl_failure_xml ''unsupported-mechanism'') CLOSED s"
  using assms by (auto simp: stanza_sasl_def mechanisms_simp split: option.split)

lemma plain_single_step:
  assumes "get_attribute L st ''mechanism'' = Some m" "\<not> sasl_is_multi_step_mechanism m" "state (ctx s) \<noteq> SASL_NEGOTIATING"
  shows "state (ctx (stanza_sasl E L st s)) \<noteq> SASL_NEGOTIATING"
  using assms auth_failed_state(1) [of E]
  by (auto simp: stanza_sasl_def sasl_is_multi_step_mechanism_def auth_plain_def sasl_success_def failure_close_def
      stream_abort_def Let_def split: option.split) (metis xmpp_state.distinct)+

end
