(* ===== verification/Stream_Safety.thy ===== *)
theory Stream_Safety
  imports Stream
begin

text \<open>
  The negotiation as a state machine: the moves one callback of the parser can make, what
  a move to an authenticated or bound state requires, and the invariants that follow for
  every sequence of callbacks.
\<close>

subsection \<open>The moves of one event\<close>

fun may_follow :: "xmpp_state \<Rightarrow> xmpp_state set" where
  "may_follow CONNECTED_TCP = {STREAM_OPENED, FEATURES_RECEIVED}"
| "may_follow FEATURES_RECEIVED = {STARTTLS_SENT, CLOSED}"
| "may_follow STARTTLS_SENT = {STREAM_RESTARTED_POST_TLS, FEATURES_RECEIVED_POST_TLS}"
| "may_follow TLS_NEGOTIATED = {STREAM_RESTARTED_POST_TLS, FEATURES_RECEIVED_POST_TLS}"
| "may_follow FEATURES_RECEIVED_POST_TLS = {TLS_NEGOTIATED, SASL_NEGOTIATING, SASL_SUCCESS, CLOSED}"
| "may_follow SASL_NEGOTIATING = {TLS_NEGOTIATED, SASL_SUCCESS, CLOSED}"
| "may_follow SASL_SUCCESS = {STREAM_RESTARTED_POST_SASL, BOUND}"
| "may_follow BOUND = {ONLINE}"
| "may_follow _ = {}"

text \<open>Any state may be kept, and a stream that is still open may be closed.\<close>

definition moves :: "xmpp_state \<Rightarrow> xmpp_state set" where
  "moves q = may_follow q \<union> {q} \<union> (if q = CLOSED then {} else {CLOSING})"

lemma moves_refl [simp]: "q \<in> moves q"
  by (simp add: moves_def)

lemma moves_closing [simp]: "q \<noteq> CLOSED \<Longrightarrow> CLOSING \<in> moves q"
  by (simp add: moves_def)

lemma closed_moves: "q = CLOSING \<or> q = CLOSED \<Longrightarrow> q' \<in> moves q \<Longrightarrow> q' = CLOSING \<or> q' = CLOSED"
  by (auto simp: moves_def)

lemma stream_close_keeps_closed:
  "state (ctx s) = CLOSED \<Longrightarrow> snd (send_stream_close E s) = s"
  by (simp add: send_stream_close_def)

lemma stream_error_moves: "state (ctx (send_stream_error E e s)) \<in> moves (state (ctx s))"
proof (cases "state (ctx s) = CLOSED")
  case True
  then have "state (ctx (send_stream_error E e s)) = CLOSED"
    by (simp add: send_stream_error_def Let_def stream_close_keeps_closed)
  then show ?thesis using True by simp
next
  case False
  then show ?thesis using stream_error_state [of E e s] by (auto simp: moves_def)
qed

lemma validate_stream_open_ok:
  "fst (validate_stream_open E a s) = 0 \<Longrightarrow> snd (validate_stream_open E a s) = s"
  by (simp add: validate_stream_open_def split: if_splits)

text \<open>A stream header changes the state only where a header is expected.\<close>

definition opens :: "xmpp_state \<Rightarrow> xmpp_state set" where
  "opens q = {q, CLOSING} \<union>
     (if q \<in> {CONNECTED_TCP, STARTTLS_SENT, TLS_NEGOTIATED, SASL_SUCCESS} then may_follow q else {})"

lemma open_stream_opens: "state (ctx (open_stream E s)) \<in> opens (state (ctx s))"
proof -
  have t: "state (ctx (snd (transition_to E q ev s))) \<in> {CLOSING, q, advance q}" for q ev
    by (rule transition_to_state)
  show ?thesis
    using t [of STREAM_OPENED EVENT_STREAM_OPEN] t [of STREAM_RESTARTED_POST_TLS EVENT_STREAM_OPEN]
      t [of STREAM_RESTARTED_POST_SASL EVENT_STREAM_OPEN]
    by (cases "state (ctx s)") (auto simp: open_stream_def advance_def opens_def)
qed

lemma stream_error_opens: "state (ctx (send_stream_error E e s)) \<in> opens (state (ctx s))"
  using stream_error_state [of E e s] by (auto simp: opens_def)

lemma on_stream_start_cases:
  obtains (err) e where "on_stream_start E nm a s = send_stream_error E e s"
  | (nowrite) "state (ctx (on_stream_start E nm a s)) = state (ctx s)"
  | (opened) s1 where "on_stream_start E nm a s = open_stream E s1" "state (ctx s1) = state (ctx s)"
proof (cases "nm = Some ''stream'' \<and> fst (validate_stream_open E a s) = 0")
  case True
  let ?s1 = "snd (send_stream_open E (upd (choose_domain (map_of a ''to'')) s))"
  have "state (ctx (on_stream_start E nm a s)) = state (ctx s) \<or>
      on_stream_start E nm a s = open_stream E ?s1"
    using True validate_stream_open_ok [of E a s] by (simp add: on_stream_start_def Let_def)
  then show thesis using nowrite opened [of ?s1] by auto
next
  case False
  then have "\<exists>e. on_stream_start E nm a s = send_stream_error E e s"
    by (auto simp: on_stream_start_def validate_stream_open_def Let_def)
  then show thesis using err by blast
qed

lemma on_stream_start_open: "state (ctx (on_stream_start E nm a s)) \<in> opens (state (ctx s))"
proof (cases rule: on_stream_start_cases [of E nm a s])
  case (err e)
  then show ?thesis by (simp add: stream_error_opens)
next
  case nowrite
  then show ?thesis by (simp add: opens_def)
next
  case (opened s1)
  then show ?thesis using open_stream_opens [of E s1] by simp
qed

lemma on_stream_start_moves: "state (ctx (on_stream_start E nm a s)) \<in> moves (state (ctx s))"
proof (cases "state (ctx s) = CLOSED")
  case True
  show ?thesis
  proof (cases rule: on_stream_start_cases [of E nm a s])
    case (err e)
    then show ?thesis using stream_error_moves [of E e s] by simp
  next
    case nowrite
    then show ?thesis by simp
  next
    case (opened s1)
    then show ?thesis using True by (simp add: open_stream_def)
  qed
next
  case False
  then show ?thesis
    using on_stream_start_open [of E nm a s] by (auto simp: opens_def moves_def split: if_splits)
qed

lemma on_stream_end_moves: "state (ctx (on_stream_end E s)) \<in> moves (state (ctx s))"
  by (auto simp: on_stream_end_def moves_def)

lemma stanza_features_received_moves:
  "state (ctx s) = FEATURES_RECEIVED \<Longrightarrow>
     state (ctx (stanza_features_received E L st s)) \<in> {STARTTLS_SENT, CLOSED, CLOSING}"
  by (simp add: stanza_features_received_def)

lemma auth_plain_moves:
  "state (ctx (auth_plain E L st s)) \<in> {state (ctx s), SASL_SUCCESS, TLS_NEGOTIATED, CLOSING}"
  using auth_failed_state(1) by (auto simp: auth_plain_def Let_def split: option.splits)

lemma auth_scram_moves:
  "state (ctx (auth_scram E L st s)) \<in> {SASL_NEGOTIATING, SASL_SUCCESS, TLS_NEGOTIATED, CLOSING}"
  using auth_failed_state(2) by (auto simp: auth_scram_def Let_def)

lemma stanza_sasl_moves:
  "state (ctx (stanza_sasl E L st s)) \<in>
     {state (ctx s), SASL_NEGOTIATING, SASL_SUCCESS, TLS_NEGOTIATED, CLOSING, CLOSED}"
  using auth_plain_moves [of E L st s] auth_scram_moves [of E L st s]
  by (auto simp: stanza_sasl_def split: option.splits)

lemma bind_resource_moves:
  "state (ctx (bind_resource E i r s)) \<in> {state (ctx s), ONLINE}"
  by (simp add: bind_resource_def set_resource_def Let_def)

lemma bind_request_moves:
  "state (ctx (bind_request E L b i s)) \<in> {state (ctx s), ONLINE}"
  using bind_resource_moves [of E i _ s]
  by (auto simp: bind_request_def Let_def split: option.splits)

lemma stanza_bound_moves:
  "state (ctx (stanza_bound E L st s)) \<in> {state (ctx s), ONLINE, CLOSING}"
  using bind_request_moves [of E L _ _ s]
  by (auto simp: stanza_bound_def split: option.splits)

text \<open>An online session: only the stanza handlers run, and none of them touches identity
  or state.\<close>

definition online_keeps :: "session \<Rightarrow> session \<Rightarrow> bool" where
  "online_keeps c c' \<longleftrightarrow> state c' = state c \<and> authcid c' = authcid c \<and> domain c' = domain c \<and>
     bound_jid c' = bound_jid c \<and> failed_auth_count c' = failed_auth_count c \<and>
     needs_starttls_proceed c' = needs_starttls_proceed c"

lemma iq_keeps_online: "iq_keeps s s' \<Longrightarrow> online_keeps (ctx s) (ctx s')"
  by (auto simp: iq_keeps_def online_keeps_def)

lemma stanza_online_keeps: "online_keeps (ctx (snd rs)) (ctx (snd (stanza_online E L st rs)))"
proof -
  have iq: "online_keeps (ctx (snd rs)) (ctx (snd (xmpp_iq_dispatch E L st rs)))"
    unfolding xmpp_iq_dispatch_def by (intro iq_keeps_online server_dispatch_keeps)
  have msg: "ctx (xmpp_message_handle E L st (snd rs)) = ctx (snd rs)"
    using message_handle_keeps [of "snd rs" E L st] by (simp add: route_keeps_def)
  show ?thesis
    using iq msg by (auto simp: stanza_online_def Let_def online_keeps_def)
qed

lemma handle_event_moves:
  "state (ctx (snd (handle_event E L ev rs))) \<in> moves (state (ctx (snd rs)))"
proof (cases ev)
  case (Stream_start nm a)
  then show ?thesis by (simp add: on_stream_start_moves)
next
  case Stream_end
  then show ?thesis by (simp add: on_stream_end_moves)
next
  case (Stanza st)
  show ?thesis
    using stanza_features_received_moves [of "snd rs" E L st] stanza_sasl_moves [of E L st "snd rs"]
      stanza_bound_moves [of E L st "snd rs"] stanza_online_keeps [of rs E L st]
    by (cases "state (ctx (snd rs))") (auto simp: Stanza on_stanza_def moves_def online_keeps_def)
qed

subsection \<open>What a successful authentication means\<close>

text \<open>
  What RFC 5802 asks of a client-final message, written out: it repeats the nonce of the session, and
  its proof \<open>p\<close> is 32 bytes with \<open>H(p XOR HMAC(K, auth)) = K\<close>, where \<open>K\<close> is the stored key of
  the session and \<open>auth\<close> joins the messages exchanged so far.
\<close>

definition scram_proof :: "env \<Rightarrow> cstr \<Rightarrow> cstr \<Rightarrow> cstr \<Rightarrow> bool" where
  "scram_proof E K auth p \<longleftrightarrow> length p = 32 \<and>
     (\<forall>i<32. scram_hash E (xor_bytes p (scram_hmac E K auth (uninit32 E))) (uninit32 E) ! i = K ! i)"

definition valid_client_final :: "env \<Rightarrow> cstr \<Rightarrow> scram_state \<Rightarrow> bool" where
  "valid_client_final E inp sc \<longleftrightarrow>
     (\<exists>m c r p pr. scram_base64_decode inp 1024 = Some m \<and>
        scram_get_attr m (CHR ''c'') 512 = Some c \<and> scram_get_attr m (CHR ''r'') 256 = Some r \<and>
        scram_get_attr m (CHR ''p'') 512 = Some p \<and> scram_base64_decode (cut0 p) 64 = Some pr \<and>
        cut0 r = sc_server_nonce sc \<and>
        scram_proof E (sc_stored_key sc)
          (sc_client_first_bare sc @ '','' @ sc_server_first sc @ '',c='' @ cut0 c @ '',r='' @ cut0 r) pr)"

lemma scram_ct_memeq_nth: "scram_ct_memeq a b n \<longleftrightarrow> (\<forall>i<n. a ! i = b ! i)"
  by (auto simp: scram_ct_memeq_eq ct_memeq_def ct_memeq_fold byte_word_xor)

lemma scram_proof_ok_iff:
  "length p = 32 \<Longrightarrow> scram_proof_ok E sc auth p \<longleftrightarrow> scram_proof E (sc_stored_key sc) auth p"
  by (simp add: scram_proof_ok_def scram_proof_def scram_client_signature_def scram_ct_memeq_nth Let_def)

lemma scram_auth_message_text:
  "scram_auth_message c r sc = Some auth \<Longrightarrow>
     auth = sc_client_first_bare sc @ '','' @ sc_server_first sc @ '',c='' @ c @ '',r='' @ r"
  by (simp add: scram_auth_message_def scram_build_auth_message_def Let_def split: if_splits)

lemma scram_verify_rc:
  "fst (scram_verify E c r p s) = 0 \<longleftrightarrow>
     (\<exists>auth. scram_auth_message c r (scram (ctx s)) = Some auth \<and> scram_proof_ok E (scram (ctx s)) auth p)"
  "fst (scram_verify E c r p s) = 0 \<Longrightarrow>
     authcid (ctx (snd (scram_verify E c r p s))) = take 1023 (sc_username (scram (ctx s)))"
  by (auto simp: scram_verify_def Let_def split: option.splits)

lemma scram_first_rc: "fst (scram_client_first E inp s) \<noteq> 0"
  by (simp add: scram_client_first_def scram_lookup_def scram_known_user_def scram_unknown_user_def
      Let_def split: option.splits fetched.splits)

lemma scram_final_rc:
  assumes "fst (scram_client_final E inp s) = 0"
  shows "valid_client_final E inp (scram (ctx s))"
proof -
  let ?sc = "scram (ctx s)"
  obtain m c r p pr auth where m: "scram_base64_decode inp 1024 = Some m"
      "scram_get_attr m (CHR ''c'') 512 = Some c" "scram_get_attr m (CHR ''r'') 256 = Some r"
      "scram_get_attr m (CHR ''p'') 512 = Some p" "scram_base64_decode (cut0 p) 64 = Some pr"
      "cut0 r = sc_server_nonce ?sc" and "length pr = 32"
      "scram_auth_message (cut0 c) (cut0 r) ?sc = Some auth" "scram_proof_ok E ?sc auth pr"
    using assms by (auto simp: scram_client_final_def scram_verify_rc split: option.splits if_splits)
  then have "scram_proof E (sc_stored_key ?sc)
      (sc_client_first_bare ?sc @ '','' @ sc_server_first ?sc @ '',c='' @ cut0 c @ '',r='' @ cut0 r) pr"
    using scram_proof_ok_iff scram_auth_message_text by metis
  with m show ?thesis unfolding valid_client_final_def by blast
qed

lemma scram_final_authcid:
  "fst (scram_client_final E inp s) = 0 \<Longrightarrow>
     authcid (ctx (snd (scram_client_final E inp s))) = take 1023 (sc_username (scram (ctx s)))"
  by (auto simp: scram_client_final_def scram_verify_rc split: option.splits if_splits)

text \<open>The stanza proves the identity \<open>a\<close> to the session.\<close>

definition scram_input :: "'s strophe \<Rightarrow> 's \<Rightarrow> cstr" where
  "scram_input L st =
     (let text = opt_str (get_text L st) in scram_text_loop (length text) text 0 0 [])"

definition proves_plain :: "env \<Rightarrow> 's strophe \<Rightarrow> 's \<Rightarrow> server \<Rightarrow> cstr \<Rightarrow> bool" where
  "proves_plain E L st s a \<longleftrightarrow> get_attribute L st ''mechanism'' = Some ''PLAIN'' \<and>
     (\<exists>t z u p. get_text L st = Some t \<and> b64_decode t = z @ NUL # u @ NUL # p \<and>
        plain_credentials E (domain (ctx s)) z u p (db s) \<and> a = take 1023 u)"

definition proves_scram :: "env \<Rightarrow> 's strophe \<Rightarrow> 's \<Rightarrow> server \<Rightarrow> cstr \<Rightarrow> bool" where
  "proves_scram E L st s a \<longleftrightarrow> get_attribute L st ''mechanism'' = Some ''SCRAM-SHA-256'' \<and>
     state (ctx s) = SASL_NEGOTIATING \<and> valid_client_final E (scram_input L st) (scram (ctx s)) \<and>
     a = take 1023 (sc_username (scram (ctx s)))"

definition proves_identity :: "env \<Rightarrow> 's strophe \<Rightarrow> 's \<Rightarrow> server \<Rightarrow> cstr \<Rightarrow> bool" where
  "proves_identity E L st s a \<longleftrightarrow> has_name L st ''auth'' \<and>
     (state (ctx s) = FEATURES_RECEIVED_POST_TLS \<or> state (ctx s) = SASL_NEGOTIATING) \<and>
     (proves_plain E L st s a \<or> proves_scram E L st s a)"

lemma auth_plain_sound:
  assumes "state (ctx (auth_plain E L st s)) = SASL_SUCCESS" "state (ctx s) \<noteq> SASL_SUCCESS"
    and "get_attribute L st ''mechanism'' = Some ''PLAIN''"
  shows "proves_plain E L st s (authcid (ctx (auth_plain E L st s)))"
proof -
  obtain t where t: "get_text L st = Some t" and ok: "fst (handle_sasl_plain E t s) = SASL_OK"
    using assms(1,2) auth_failed_state(1)
    by (auto simp: auth_plain_def Let_def split: option.splits if_splits)
      (metis xmpp_state.distinct)+
  then obtain z u p where d: "b64_decode t = z @ NUL # u @ NUL # p"
    and c: "plain_credentials E (domain (ctx s)) z u p (db s)"
    by (auto simp: handle_sasl_plain_ok)
  have "authcid (ctx (auth_plain E L st s)) = take 1023 u"
    using handle_sasl_plain_authcid [OF d c] t ok by (simp add: auth_plain_def)
  then show ?thesis unfolding proves_plain_def using assms(3) t d c by blast
qed

lemma auth_scram_sound:
  assumes "state (ctx (auth_scram E L st s)) = SASL_SUCCESS"
    and "get_attribute L st ''mechanism'' = Some ''SCRAM-SHA-256''"
  shows "proves_scram E L st s (authcid (ctx (auth_scram E L st s)))"
proof -
  let ?step = "if state (ctx s) = SASL_NEGOTIATING then 2 else 1 :: int"
  let ?a = "handle_scram_sha256 E ?step (scram_input L st) s"
  have eq: "auth_scram E L st s = (if fst ?a = 0 then sasl_success E (snd ?a)
      else if fst ?a = 1 then flushed E (set_state SASL_NEGOTIATING (snd ?a))
      else scram_failed E (fst ?a) (snd ?a))"
    by (simp add: auth_scram_def scram_input_def Let_def)
  then have ok: "fst ?a = 0"
    using assms(1) auth_failed_state(2) [of E "fst ?a" "snd ?a"] by (auto split: if_splits)
  have q: "state (ctx s) = SASL_NEGOTIATING"
    using ok scram_first_rc [of E "scram_input L st" s]
    by (auto simp: handle_scram_sha256_def split: if_splits)
  then have acc: "fst (scram_client_final E (scram_input L st) s) = 0"
    using ok by (simp add: handle_scram_sha256_def)
  have "authcid (ctx (auth_scram E L st s)) = take 1023 (sc_username (scram (ctx s)))"
    using eq ok q scram_final_authcid [OF acc] by (simp add: handle_scram_sha256_def)
  then show ?thesis using assms(2) q acc scram_final_rc by (simp add: proves_scram_def)
qed

lemma stanza_sasl_sound:
  assumes "state (ctx s) \<in> {FEATURES_RECEIVED_POST_TLS, SASL_NEGOTIATING}"
    and "state (ctx (stanza_sasl E L st s)) = SASL_SUCCESS"
  shows "proves_identity E L st s (authcid (ctx (stanza_sasl E L st s)))"
proof -
  from assms obtain m where n: "has_name L st ''auth''"
    and m: "get_attribute L st ''mechanism'' = Some m" "m = ''PLAIN'' \<or> m = ''SCRAM-SHA-256''"
    by (auto simp: stanza_sasl_def split: option.splits if_splits)
  from m(2) show ?thesis
  proof
    assume "m = ''PLAIN''"
    then show ?thesis using n m(1) assms auth_plain_sound [of E L st s]
      by (auto simp: stanza_sasl_def proves_identity_def)
  next
    assume "m = ''SCRAM-SHA-256''"
    then show ?thesis using n m(1) assms auth_scram_sound [of E L st s]
      by (auto simp: stanza_sasl_def proves_identity_def)
  qed
qed

subsection \<open>Binding\<close>

lemma set_resource_fields [simp]:
  "state (set_resource r c) = state c" "authcid (set_resource r c) = authcid c"
  "domain (set_resource r c) = domain c"
  "failed_auth_count (set_resource r c) = failed_auth_count c"
  "needs_starttls_proceed (set_resource r c) = needs_starttls_proceed c"
  by (simp_all add: set_resource_def Let_def)

lemma bind_resource_fields [simp]:
  "authcid (ctx (bind_resource E i r s)) = authcid (ctx s)"
  "domain (ctx (bind_resource E i r s)) = domain (ctx s)"
  "failed_auth_count (ctx (bind_resource E i r s)) = failed_auth_count (ctx s)"
  "needs_starttls_proceed (ctx (bind_resource E i r s)) = needs_starttls_proceed (ctx s)"
  "g_sessions (bind_resource E i r s) = g_sessions s"
  "db (bind_resource E i r s) = db s"
  by (simp_all add: bind_resource_def Let_def)

lemma bind_resource_jid:
  "bound_jid (ctx (bind_resource E i r s)) =
     snprintf JID_BUF_SIZE (authcid (ctx s) @ ''@'' @ domain (ctx s) @ ''/'' @ snprintf 1024 r)"
  by (simp add: bind_resource_def set_resource_def Let_def)

lemma bind_request_fields [simp]:
  "authcid (ctx (bind_request E L b i s)) = authcid (ctx s)"
  "domain (ctx (bind_request E L b i s)) = domain (ctx s)"
  "failed_auth_count (ctx (bind_request E L b i s)) = failed_auth_count (ctx s)"
  "needs_starttls_proceed (ctx (bind_request E L b i s)) = needs_starttls_proceed (ctx s)"
  "g_sessions (bind_request E L b i s) = g_sessions s"
  "db (bind_request E L b i s) = db s"
  by (simp_all add: bind_request_def Let_def split: option.splits)

lemma stanza_bound_fields [simp]:
  "authcid (ctx (stanza_bound E L st s)) = authcid (ctx s)"
  "domain (ctx (stanza_bound E L st s)) = domain (ctx s)"
  "failed_auth_count (ctx (stanza_bound E L st s)) = failed_auth_count (ctx s)"
  "needs_starttls_proceed (ctx (stanza_bound E L st s)) = needs_starttls_proceed (ctx s)"
  "g_sessions (stanza_bound E L st s) = g_sessions s"
  "db (stanza_bound E L st s) = db s"
  by (simp_all add: stanza_bound_def split: option.splits)

lemma validate_resource_iff:
  "validate_resource r = 0 \<longleftrightarrow> r \<noteq> [] \<and> length r \<le> 1023 \<and> (\<forall>c\<in>set r. \<not> is_forbidden_resource_char c)"
  by (auto simp: validate_resource_def list_ex_iff)

lemma hex_digit_ok: "n < 16 \<Longrightarrow> \<not> is_forbidden_resource_char (hex_digit n)"
proof -
  assume "n < 16"
  then have "hex_digit n \<in> set ''0123456789abcdef''"
    unfolding hex_digit_def by (intro nth_mem) simp
  then show ?thesis by (auto simp: is_forbidden_resource_char_def)
qed

lemma length_concat_show_hex2: "length (concat (map (\<lambda>i. show_hex2 (f i)) xs)) = 2 * length xs"
  by (induction xs) (simp_all add: show_hex2_def)

lemma gen_resource_valid: "validate_resource (gen_resource E) = 0"
proof -
  have l: "length (gen_resource E) = 8"
    by (simp add: gen_resource_def length_concat_show_hex2 del: upt_conv_Cons upt_Suc)
  have "\<not> is_forbidden_resource_char c" if c: "c \<in> set (gen_resource E)" for c
  proof -
    obtain i where "c \<in> set (show_hex2 (urandom E i))"
      using c unfolding gen_resource_def set_concat set_map by blast
    moreover have "of_char (urandom E i) div 16 < (16 :: nat)"
      by (rule less_mult_imp_div_less) (use nat_of_char_less_256 [of "urandom E i"] in simp)
    ultimately show ?thesis
      using hex_digit_ok [of "of_char (urandom E i) div 16"] hex_digit_ok [of "of_char (urandom E i) mod 16"]
      by (auto simp: show_hex2_def)
  qed
  moreover have "gen_resource E \<noteq> []" using l by auto
  ultimately show ?thesis using l by (simp add: validate_resource_iff)
qed

text \<open>A bind request that goes online has bound a valid resource to the authenticated name.\<close>

lemma bind_request_online:
  assumes "state (ctx (bind_request E L b i s)) = ONLINE" "state (ctx s) \<noteq> ONLINE"
  shows "\<exists>r. validate_resource r = 0 \<and>
    bound_jid (ctx (bind_request E L b i s)) =
      snprintf JID_BUF_SIZE (authcid (ctx s) @ ''@'' @ domain (ctx s) @ ''/'' @ r)"
proof -
  have len: "snprintf 1024 r = r" if "validate_resource r = 0" for r
    using that by (simp add: validate_resource_iff)
  have "\<exists>r. validate_resource r = 0 \<and> bind_request E L b i s = bind_resource E i r s"
    using assms gen_resource_valid [of E]
    by (auto simp: bind_request_def Let_def split: option.splits if_splits)
  then show ?thesis using bind_resource_jid len by metis
qed

subsection \<open>Traces\<close>

text \<open>What happens to the stream of one connection, in order: callbacks of the parser, the
  start of a call of \<^verbatim>\<open>xmpp_feed\<close>, a malformed input, the start and the end of the TLS
  handshake, and
  whatever the other connections do to the shared parts of the server.\<close>

datatype 's step =
    Event env "'s parser_event"
  | Feed_begin sink cstr
  | Malformed env
  | Tls_started
  | Tls_done
  | Others stream

definition tls_handshake_done :: "server \<Rightarrow> server" where
  "tls_handshake_done = upd (\<lambda>c. c\<lparr>state := TLS_NEGOTIATED, needs_parser_reset := True\<rparr>)"

definition tls_handshake_started :: "server \<Rightarrow> server" where
  "tls_handshake_started = upd (\<lambda>c. c\<lparr>needs_starttls_proceed := False\<rparr>)"

fun run_step :: "'s strophe \<Rightarrow> 's step \<Rightarrow> stream \<Rightarrow> stream" where
  "run_step L (Event E ev) rs = handle_event E L ev rs"
| "run_step L (Feed_begin u data) rs =
     (fst rs, upd (extract_namespaces data) (upd (feed_prepare u) (snd rs)))"
| "run_step L (Malformed E) rs = (fst rs, send_stream_error E NOT_WELL_FORMED (snd rs))"
| "run_step L Tls_started rs = (fst rs, tls_handshake_started (snd rs))"
| "run_step L Tls_done rs = (fst rs, tls_handshake_done (snd rs))"
| "run_step L (Others sh) rs = (fst sh, (snd sh)\<lparr>ctx := ctx (snd rs)\<rparr>)"

definition run :: "'s strophe \<Rightarrow> 's step list \<Rightarrow> stream \<Rightarrow> stream" where
  "run L steps rs = fold (run_step L) steps rs"

lemma run_Nil [simp]: "run L [] rs = rs"
  by (simp add: run_def)

lemma run_snoc [simp]: "run L (xs @ [x]) rs = run_step L x (run L xs rs)"
  by (simp add: run_def)

lemma extract_namespaces_fields [simp]:
  "state (extract_namespaces d c) = state c" "authcid (extract_namespaces d c) = authcid c"
  "domain (extract_namespaces d c) = domain c" "bound_jid (extract_namespaces d c) = bound_jid c"
  "failed_auth_count (extract_namespaces d c) = failed_auth_count c"
  "needs_starttls_proceed (extract_namespaces d c) = needs_starttls_proceed c"
  by (simp_all add: extract_namespaces_def Let_def split: option.splits)

lemma feed_prepare_fields [simp]:
  "state (feed_prepare u c) = state c" "authcid (feed_prepare u c) = authcid c"
  "domain (feed_prepare u c) = domain c" "bound_jid (feed_prepare u c) = bound_jid c"
  "failed_auth_count (feed_prepare u c) = failed_auth_count c"
  "needs_starttls_proceed (feed_prepare u c) = False"
  by (simp_all add: feed_prepare_def)

text \<open>The states only an authenticated stream reaches.\<close>

definition authed :: "xmpp_state \<Rightarrow> bool" where
  "authed q \<longleftrightarrow> q \<in> {SASL_SUCCESS, STREAM_RESTARTED_POST_SASL, BOUND, ONLINE}"

lemma event_authcid:
  "authed (state (ctx (snd rs))) \<Longrightarrow>
     authcid (ctx (snd (handle_event E L ev rs))) = authcid (ctx (snd rs))"
  using stanza_online_keeps [of rs E L]
  by (cases ev; cases "state (ctx (snd rs))")
    (auto simp: authed_def on_stanza_def online_keeps_def)

lemma event_authenticates:
  assumes "authed (state (ctx (snd (handle_event E L ev rs))))" "\<not> authed (state (ctx (snd rs)))"
  shows "\<exists>st. ev = Stanza st \<and>
    proves_identity E L st (snd rs) (authcid (ctx (snd (handle_event E L ev rs))))"
proof -
  have m: "state (ctx (snd (handle_event E L ev rs))) \<in> moves (state (ctx (snd rs)))"
    by (rule handle_event_moves)
  then have q: "state (ctx (snd rs)) \<in> {FEATURES_RECEIVED_POST_TLS, SASL_NEGOTIATING}"
    and ss: "state (ctx (snd (handle_event E L ev rs))) = SASL_SUCCESS"
    using assms by (cases "state (ctx (snd rs))"; auto simp: authed_def moves_def)+
  show ?thesis
  proof (cases ev)
    case (Stanza st)
    then have "snd (handle_event E L ev rs) = stanza_sasl E L st (snd rs)"
      using q by (auto simp: on_stanza_def)
    then show ?thesis using stanza_sasl_sound [OF q, of E L st] ss Stanza by simp
  next
    case (Stream_start nm a)
    have "state (ctx (on_stream_start E nm a (snd rs))) \<noteq> SASL_SUCCESS"
      using on_stream_start_open [of E nm a "snd rs"] q by (auto simp: opens_def)
    then show ?thesis using ss Stream_start by simp
  next
    case Stream_end
    then show ?thesis using ss q by (auto simp: on_stream_end_def)
  qed
qed

text \<open>A stream that is still negotiating: it has not changed the database.\<close>

definition negotiating :: "xmpp_state \<Rightarrow> bool" where
  "negotiating q \<longleftrightarrow> \<not> authed q \<and> q \<noteq> CLOSING \<and> q \<noteq> CLOSED"

lemma stanza_unauthenticated_db:
  "db (stanza_features_received E L st s) = db s" "db (stanza_sasl E L st s) = db s"
  by (simp_all add: stanza_features_received_def stanza_sasl_def auth_plain_def auth_scram_def Let_def split: option.split)

lemma event_db:
  "\<not> authed (state (ctx (snd rs))) \<Longrightarrow> db (snd (handle_event E L ev rs)) = db (snd rs)"
  by (cases ev; cases "state (ctx (snd rs))")
    (simp_all add: stanza_unauthenticated_db on_stanza_def authed_def)

lemma event_negotiating:
  assumes "negotiating (state (ctx (snd (handle_event E L ev rs))))"
  shows "negotiating (state (ctx (snd rs))) \<and> db (snd (handle_event E L ev rs)) = db (snd rs)"
proof -
  have "negotiating (state (ctx (snd rs)))"
    using assms handle_event_moves [of E L ev rs]
    by (cases "state (ctx (snd rs))") (auto simp: negotiating_def authed_def moves_def)
  then show ?thesis using event_db [of rs E L ev] by (simp add: negotiating_def)
qed

lemma event_authed:
  assumes "authed (state (ctx (snd (handle_event E L ev rs))))"
  shows "authed (state (ctx (snd rs))) \<and> authcid (ctx (snd (handle_event E L ev rs))) = authcid (ctx (snd rs)) \<or>
    negotiating (state (ctx (snd rs))) \<and>
    (\<exists>st. ev = Stanza st \<and> proves_identity E L st (snd rs) (authcid (ctx (snd (handle_event E L ev rs)))))"
proof (cases "authed (state (ctx (snd rs)))")
  case True
  then show ?thesis using event_authcid by blast
next
  case False
  then have "negotiating (state (ctx (snd rs)))"
    using assms closed_moves [OF _ handle_event_moves [of E L ev rs]] by (auto simp: negotiating_def authed_def)
  then show ?thesis using event_authenticates [OF assms False] by blast
qed

lemma events_negotiating:
  "negotiating (state (ctx (snd (fold (handle_event E L) evs rs)))) \<Longrightarrow>
     negotiating (state (ctx (snd rs))) \<and> db (snd (fold (handle_event E L) evs rs)) = db (snd rs)"
proof (induction evs arbitrary: rs)
  case (Cons ev evs)
  then show ?case using event_negotiating [of E L ev rs] by fastforce
qed simp

text \<open>A sequence of events that ends authenticated started so, or one of them carried the proof.\<close>

lemma events_authed:
  assumes "authed (state (ctx (snd (fold (handle_event E L) evs rs))))"
  shows "authed (state (ctx (snd rs))) \<and> authcid (ctx (snd (fold (handle_event E L) evs rs))) = authcid (ctx (snd rs)) \<or>
    negotiating (state (ctx (snd rs))) \<and> (\<exists>n st. n < length evs \<and> evs ! n = Stanza st \<and>
      db (snd (fold (handle_event E L) (take n evs) rs)) = db (snd rs) \<and>
      proves_identity E L st (snd (fold (handle_event E L) (take n evs) rs))
        (authcid (ctx (snd (fold (handle_event E L) evs rs)))))"
  using assms
proof (induction evs rule: rev_induct)
  case (snoc ev evs)
  let ?m = "fold (handle_event E L) evs rs"
  from event_authed [of E L ev ?m] snoc.prems
  consider (kept) "authed (state (ctx (snd ?m)))"
      "authcid (ctx (snd (handle_event E L ev ?m))) = authcid (ctx (snd ?m))"
    | (proved) st where "negotiating (state (ctx (snd ?m)))" "ev = Stanza st"
      "proves_identity E L st (snd ?m) (authcid (ctx (snd (handle_event E L ev ?m))))"
    by auto
  then show ?case
  proof cases
    case kept
    from snoc.IH [OF kept(1)] show ?thesis
    proof (elim disjE conjE exE)
      fix n st
      assume "negotiating (state (ctx (snd rs)))" "n < length evs" "evs ! n = Stanza st"
        "db (snd (fold (handle_event E L) (take n evs) rs)) = db (snd rs)"
        "proves_identity E L st (snd (fold (handle_event E L) (take n evs) rs)) (authcid (ctx (snd ?m)))"
      then show ?thesis using kept(2)
        by (intro disjI2 conjI exI [of _ n] exI [of _ st]) (simp_all add: nth_append)
    qed (use kept(2) in simp)
  next
    case proved
    then show ?thesis using events_negotiating [OF proved(1)]
      by (intro disjI2 conjI exI [of _ "length evs"] exI [of _ st]) simp_all
  qed
qed simp

lemma run_append: "run L (xs @ ys) rs = run L ys (run L xs rs)"
  by (simp add: run_def)

subsection \<open>The limit on failed authentications\<close>

definition attempts_ok :: "session \<Rightarrow> bool" where
  "attempts_ok c \<longleftrightarrow> 0 \<le> failed_auth_count c \<and> failed_auth_count c \<le> 3 \<and>
     (failed_auth_count c = 3 \<longrightarrow> state c = CLOSING \<or> state c = CLOSED)"

lemma auth_count:
  "failed_auth_count (ctx (auth_plain E L st s)) = failed_auth_count (ctx s) \<or>
   failed_auth_count (ctx (auth_plain E L st s)) = failed_auth_count (ctx s) + 1 \<and>
     (failed_auth_count (ctx s) + 1 \<ge> 3 \<longrightarrow> state (ctx (auth_plain E L st s)) = CLOSING)"
  "failed_auth_count (ctx (auth_scram E L st s)) = failed_auth_count (ctx s) \<or>
   failed_auth_count (ctx (auth_scram E L st s)) = failed_auth_count (ctx s) + 1 \<and>
     (failed_auth_count (ctx s) + 1 \<ge> 3 \<longrightarrow> state (ctx (auth_scram E L st s)) = CLOSING)"
proof -
  have "failed_auth_count (ctx (auth_plain E L st s)) = failed_auth_count (ctx s) \<or>
      (\<exists>t. auth_plain E L st s = plain_failed E (fst (handle_sasl_plain E t s)) (snd (handle_sasl_plain E t s)))"
    by (auto simp: auth_plain_def Let_def split: option.splits)
  then show "failed_auth_count (ctx (auth_plain E L st s)) = failed_auth_count (ctx s) \<or>
     failed_auth_count (ctx (auth_plain E L st s)) = failed_auth_count (ctx s) + 1 \<and>
       (failed_auth_count (ctx s) + 1 \<ge> 3 \<longrightarrow> state (ctx (auth_plain E L st s)) = CLOSING)"
    using auth_failed_count(1) [of E _ "snd (handle_sasl_plain E _ s)"] by fastforce
  show "failed_auth_count (ctx (auth_scram E L st s)) = failed_auth_count (ctx s) \<or>
     failed_auth_count (ctx (auth_scram E L st s)) = failed_auth_count (ctx s) + 1 \<and>
       (failed_auth_count (ctx s) + 1 \<ge> 3 \<longrightarrow> state (ctx (auth_scram E L st s)) = CLOSING)"
    using auth_failed_count(2) [of E] by (auto simp: auth_scram_def Let_def)
qed

lemma stanza_sasl_count:
  "failed_auth_count (ctx (stanza_sasl E L st s)) = failed_auth_count (ctx s) \<or>
   failed_auth_count (ctx (stanza_sasl E L st s)) = failed_auth_count (ctx s) + 1 \<and>
     (failed_auth_count (ctx s) + 1 \<ge> 3 \<longrightarrow> state (ctx (stanza_sasl E L st s)) = CLOSING)"
  using auth_count [of E L st s] by (auto simp: stanza_sasl_def split: option.splits)

lemma features_received_count [simp]:
  "failed_auth_count (ctx (stanza_features_received E L st s)) = failed_auth_count (ctx s)"
  by (simp add: stanza_features_received_def)

lemma event_count:
  "failed_auth_count (ctx (snd (handle_event E L ev rs))) = failed_auth_count (ctx (snd rs)) \<or>
   (state (ctx (snd rs)) = FEATURES_RECEIVED_POST_TLS \<or> state (ctx (snd rs)) = SASL_NEGOTIATING) \<and>
   failed_auth_count (ctx (snd (handle_event E L ev rs))) = failed_auth_count (ctx (snd rs)) + 1 \<and>
     (failed_auth_count (ctx (snd rs)) + 1 \<ge> 3 \<longrightarrow>
        state (ctx (snd (handle_event E L ev rs))) = CLOSING)"
proof (cases ev)
  case (Stanza st)
  show ?thesis
    using stanza_sasl_count [of E L st "snd rs"] stanza_online_keeps [of rs E L st]
    by (cases "state (ctx (snd rs))") (auto simp: Stanza on_stanza_def online_keeps_def)
qed simp_all

lemma event_attempts:
  assumes "attempts_ok (ctx (snd rs))"
  shows "attempts_ok (ctx (snd (handle_event E L ev rs)))"
proof -
  have m: "failed_auth_count (ctx (snd rs)) = 3 \<Longrightarrow>
      state (ctx (snd (handle_event E L ev rs))) \<in> {CLOSING, CLOSED}"
    using assms closed_moves [OF _ handle_event_moves [of E L ev rs]] by (auto simp: attempts_ok_def)
  show ?thesis
    using assms m event_count [of E L ev rs] by (auto simp: attempts_ok_def)
qed

lemma malformed_attempts:
  "attempts_ok (ctx s) \<Longrightarrow> attempts_ok (ctx (send_stream_error E e s))"
  using stream_error_state [of E e s] by (auto simp: attempts_ok_def)

subsection \<open>The bound JID\<close>

text \<open>An online session is bound to a full JID of the user it authenticated.\<close>

definition jid_of_user :: "session \<Rightarrow> bool" where
  "jid_of_user c \<longleftrightarrow> (\<exists>d r. validate_resource r = 0 \<and>
     bound_jid c = snprintf JID_BUF_SIZE (authcid c @ ''@'' @ d @ ''/'' @ r))"

lemma stanza_bound_online:
  assumes "state (ctx (stanza_bound E L st s)) = ONLINE" "state (ctx s) = BOUND"
  shows "jid_of_user (ctx (stanza_bound E L st s))"
proof -
  obtain b i where eq: "stanza_bound E L st s = bind_request E L b i s"
    using assms by (auto simp: stanza_bound_def split: option.splits if_splits)
  then show ?thesis
    using bind_request_online [of E L b i s] assms unfolding jid_of_user_def by auto
qed

lemma event_jid:
  assumes "state (ctx (snd rs)) = ONLINE \<Longrightarrow> jid_of_user (ctx (snd rs))"
    and "state (ctx (snd (handle_event E L ev rs))) = ONLINE"
  shows "jid_of_user (ctx (snd (handle_event E L ev rs)))"
proof -
  have q: "state (ctx (snd rs)) = ONLINE \<or> state (ctx (snd rs)) = BOUND"
    using assms(2) handle_event_moves [of E L ev rs]
    by (cases "state (ctx (snd rs))") (auto simp: moves_def)
  show ?thesis
  proof (cases ev)
    case (Stanza st)
    then show ?thesis
      using q assms stanza_bound_online [of E L st "snd rs"] stanza_online_keeps [of rs E L st]
      by (auto simp: on_stanza_def online_keeps_def jid_of_user_def)
  next
    case (Stream_start nm a)
    then show ?thesis
      using q assms on_stream_start_open [of E nm a "snd rs"] by (auto simp: opens_def jid_of_user_def)
  next
    case Stream_end
    then show ?thesis using q assms by (auto simp: on_stream_end_def jid_of_user_def)
  qed
qed

text \<open>The full JID is only set by a bind request, and it fits its buffer.\<close>

lemma event_bound_jid:
  "state (ctx (snd rs)) \<noteq> BOUND \<Longrightarrow> bound_jid (ctx (snd (handle_event E L ev rs))) = bound_jid (ctx (snd rs))"
proof (cases ev)
  case (Stanza st)
  assume q: "state (ctx (snd rs)) \<noteq> BOUND"
  have "bound_jid (ctx (stanza_features_received E L st s)) = bound_jid (ctx s)" for s
    by (simp add: stanza_features_received_def)
  moreover have "bound_jid (ctx (stanza_sasl E L st s)) = bound_jid (ctx s)" for s
    by (simp add: stanza_sasl_def auth_plain_def auth_scram_def Let_def split: option.splits)
  ultimately show ?thesis
    using q stanza_online_keeps [of rs E L st]
    by (cases "state (ctx (snd rs))") (auto simp: Stanza on_stanza_def online_keeps_def)
qed simp_all

lemma bind_request_jid_length:
  "length (bound_jid (ctx s)) < JID_BUF_SIZE \<Longrightarrow> length (bound_jid (ctx (bind_request E L b i s))) < JID_BUF_SIZE"
  by (simp add: bind_request_def Let_def bind_resource_jid snprintf_length split: option.splits)

lemma event_jid_length:
  assumes "length (bound_jid (ctx (snd rs))) < JID_BUF_SIZE"
  shows "length (bound_jid (ctx (snd (handle_event E L ev rs)))) < JID_BUF_SIZE"
proof (cases "state (ctx (snd rs)) = BOUND")
  case True
  have "length (bound_jid (ctx (stanza_bound E L st (snd rs)))) < JID_BUF_SIZE" for st
    using assms by (simp add: stanza_bound_def bind_request_jid_length split: option.splits)
  then show ?thesis using assms True by (cases ev) (simp_all add: on_stanza_def)
qed (simp add: event_bound_jid assms)

lemma run_jid:
  assumes "state (ctx (snd (run L steps rs))) = ONLINE" "state (ctx (snd rs)) \<noteq> ONLINE"
  shows "jid_of_user (ctx (snd (run L steps rs)))"
  using assms
proof (induction steps rule: rev_induct)
  case (snoc x xs)
  show ?case
  proof (cases x)
    case (Event E ev)
    then show ?thesis using snoc event_jid [of "run L xs rs" E L ev] by simp
  next
    case (Malformed E)
    then show ?thesis using snoc stream_error_state [of E NOT_WELL_FORMED "snd (run L xs rs)"]
      by (auto simp: jid_of_user_def)
  qed (use snoc in \<open>auto simp: jid_of_user_def tls_handshake_done_def tls_handshake_started_def\<close>)
qed simp

subsection \<open>Properties\<close>

text \<open>The protocol, by what the parser reports: what a stream header may do and what a stanza may
  do. A closing tag only closes.\<close>

fun header_moves :: "xmpp_state \<Rightarrow> xmpp_state set" where
  "header_moves CONNECTED_TCP = {STREAM_OPENED, FEATURES_RECEIVED}"
| "header_moves STARTTLS_SENT = {STREAM_RESTARTED_POST_TLS, FEATURES_RECEIVED_POST_TLS}"
| "header_moves TLS_NEGOTIATED = {STREAM_RESTARTED_POST_TLS, FEATURES_RECEIVED_POST_TLS}"
| "header_moves SASL_SUCCESS = {STREAM_RESTARTED_POST_SASL, BOUND}"
| "header_moves _ = {}"

fun stanza_moves :: "xmpp_state \<Rightarrow> xmpp_state set" where
  "stanza_moves FEATURES_RECEIVED = {STARTTLS_SENT, CLOSED}"
| "stanza_moves FEATURES_RECEIVED_POST_TLS = {SASL_NEGOTIATING, SASL_SUCCESS, TLS_NEGOTIATED, CLOSED}"
| "stanza_moves SASL_NEGOTIATING = {SASL_SUCCESS, TLS_NEGOTIATED, CLOSED}"
| "stanza_moves BOUND = {ONLINE}"
| "stanza_moves _ = {}"

fun event_moves :: "'s parser_event \<Rightarrow> xmpp_state \<Rightarrow> xmpp_state set" where
  "event_moves (Stream_start nm attrs) q = header_moves q"
| "event_moves (Stanza st) q = stanza_moves q"
| "event_moves Stream_end q = {}"

lemma header_event_moves:
  "state (ctx (on_stream_start E nm a s)) \<in> {state (ctx s), CLOSING} \<union> header_moves (state (ctx s))"
  using on_stream_start_open [of E nm a s] by (cases "state (ctx s)") (auto simp: opens_def)

lemma stanza_event_moves:
  "state (ctx (snd (on_stanza E L st rs))) \<in> {state (ctx (snd rs)), CLOSING} \<union> stanza_moves (state (ctx (snd rs)))"
  using stanza_features_received_moves [of "snd rs" E L st] stanza_sasl_moves [of E L st "snd rs"]
    stanza_bound_moves [of E L st "snd rs"] stanza_online_keeps [of rs E L st]
  by (cases "state (ctx (snd rs))") (auto simp: on_stanza_def online_keeps_def)

lemma event_moves_state:
  "state (ctx (snd (handle_event E L ev rs))) \<in> {state (ctx (snd rs)), CLOSING} \<union> event_moves ev (state (ctx (snd rs)))"
  using header_event_moves [of E _ _ "snd rs"] stanza_event_moves [of E L _ rs]
  by (cases ev) (auto simp: on_stream_end_def)

text \<open>A step back to \<^term>\<open>TLS_NEGOTIATED\<close> is a failed attempt, and not yet the third.\<close>

lemma auth_retry:
  "state (ctx s) \<noteq> TLS_NEGOTIATED \<Longrightarrow> state (ctx (auth_plain E L st s)) = TLS_NEGOTIATED \<Longrightarrow>
     failed_auth_count (ctx (auth_plain E L st s)) = failed_auth_count (ctx s) + 1 \<and> failed_auth_count (ctx s) + 1 < 3"
  "state (ctx (auth_scram E L st s)) = TLS_NEGOTIATED \<Longrightarrow>
     failed_auth_count (ctx (auth_scram E L st s)) = failed_auth_count (ctx s) + 1 \<and> failed_auth_count (ctx s) + 1 < 3"
  by (auto simp: auth_plain_def auth_scram_def plain_failed_def scram_failed_def retry_auth_def Let_def
      split: option.splits if_splits)

lemma event_retry:
  assumes "state (ctx (snd rs)) \<noteq> TLS_NEGOTIATED" "state (ctx (snd (handle_event E L ev rs))) = TLS_NEGOTIATED"
  shows "failed_auth_count (ctx (snd (handle_event E L ev rs))) = failed_auth_count (ctx (snd rs)) + 1 \<and>
    failed_auth_count (ctx (snd rs)) + 1 < 3"
proof -
  let ?q = "state (ctx (snd rs))"
  have "TLS_NEGOTIATED \<in> event_moves ev ?q" using event_moves_state [of E L ev rs] assms by auto
  then obtain st where st: "ev = Stanza st" and q: "?q = FEATURES_RECEIVED_POST_TLS \<or> ?q = SASL_NEGOTIATING"
    by (cases ev; cases ?q) auto
  then have "snd (handle_event E L ev rs) = stanza_sasl E L st (snd rs)" by (auto simp: on_stanza_def)
  then show ?thesis using assms auth_retry(1) [of "snd rs" E L st] auth_retry(2) [of E L st "snd rs"]
    by (auto simp: stanza_sasl_def split: option.splits if_splits)
qed

text \<open>C7: the steps of the negotiation. Whatever one callback of the XML parser brings, in every
  state of the stream: the stream keeps its state, or, if it is not closed, it starts closing, or it
  makes a step of the protocol. A stream header opens or reopens the stream where a header is due:
  on a new connection, after \<open>starttls\<close> or the handshake, and after a successful authentication. A
  stanza asks for TLS, authenticates, or binds, each in its own state only; in the states before and
  during authentication it may also close the stream at once, or step back to \<^term>\<open>TLS_NEGOTIATED\<close>,
  and then exactly one more failed attempt was counted and fewer than three have been. The closing tag does
  none of these steps. (The stream itself takes a header after \<open>starttls\<close> for the one after the
  handshake; that the handshake is done by then is the concern of the connection, C1.)\<close>

theorem event_follows_protocol:
  assumes "q = state (ctx (snd rs))" "q' = state (ctx (snd (handle_event E L ev rs)))"
  shows "q' \<in> {q} \<union> (if q = CLOSED then {} else {CLOSING}) \<union> event_moves ev q \<and>
    (q' = TLS_NEGOTIATED \<and> q \<noteq> q' \<longrightarrow>
       failed_auth_count (ctx (snd (handle_event E L ev rs))) = failed_auth_count (ctx (snd rs)) + 1 \<and>
       failed_auth_count (ctx (snd rs)) + 1 < 3)"
proof -
  have "q' \<in> {q} \<union> (if q = CLOSED then {} else {CLOSING}) \<union> event_moves ev q"
    using event_moves_state [of E L ev rs] handle_event_moves [of E L ev rs] assms by (auto simp: moves_def)
  then show ?thesis using event_retry [of rs E L ev] assms by auto
qed

text \<open>A wrong password after TLS.\<close>

theorem event_follows_protocol_witness:
  "let s = server0\<lparr>ctx := session0\<lparr>state := FEATURES_RECEIVED_POST_TLS\<rparr>\<rparr>;
       s' = snd (handle_event env0 xml_strophe
         (Stanza (Elem ''auth'' NS_SASL [(''mechanism'', ''PLAIN'')] [Text ''AGEAcA=='']) ) (iq_registry0, s))
   in state (ctx s') = TLS_NEGOTIATED \<and> failed_auth_count (ctx s') = 1"
proof -
  let ?s = "server0\<lparr>ctx := session0\<lparr>state := FEATURES_RECEIVED_POST_TLS\<rparr>\<rparr>"
  let ?ev = "Stanza (Elem ''auth'' NS_SASL [(''mechanism'', ''PLAIN'')] [Text ''AGEAcA=='']) :: xml parser_event"
  have "state (ctx (snd (handle_event env0 xml_strophe ?ev (iq_registry0, ?s)))) = TLS_NEGOTIATED" by code_simp
  then show ?thesis
    using event_follows_protocol [of FEATURES_RECEIVED_POST_TLS "(iq_registry0, ?s)" TLS_NEGOTIATED env0 xml_strophe ?ev]
    by (simp add: session0_def)
qed

text \<open>The stream header after authentication may name any domain, which replaces the
  domain the user was authenticated at: the JID bound afterwards need not be of an account
  that exists.\<close>

theorem restart_takes_any_domain:
  assumes "state (ctx s) = SASL_SUCCESS" "client_ns (ctx s) = ''jabber:client''"
    and "stream_ns (ctx s) = ''http://etherx.jabber.org/streams''"
    and "map_of (rev a) ''version'' = Some ''1.0''" "map_of a ''to'' = Some t" "t \<noteq> []" "length t < 1024"
  shows "domain (ctx (on_stream_start E (Some ''stream'') a s)) = t \<and>
    authcid (ctx (on_stream_start E (Some ''stream'') a s)) = authcid (ctx s)"
  using assms by (simp add: on_stream_start_def validate_stream_open_def choose_domain_def Let_def)

theorem restart_takes_any_domain_witness:
  "domain (ctx (on_stream_start env0 (Some ''stream'') [(''to'', ''evil''), (''version'', ''1.0'')]
     (server0\<lparr>ctx := session0\<lparr>state := SASL_SUCCESS, domain := ''d'', client_ns := ''jabber:client'',
        stream_ns := ''http://etherx.jabber.org/streams''\<rparr>\<rparr>))) = ''evil''"
  by (rule restart_takes_any_domain [THEN conjunct1]) simp_all

end
