(* ===== verification/Connection.thy ===== *)
theory Connection
  imports Stream_Safety "HOL-Library.Sublist"
begin

text \<open>
  A connection of the server (\<^verbatim>\<open>server.c\<close>): accepting it, feeding what is read to the
  stream, the STARTTLS upgrade, and closing it. libuv and mbedTLS are outside this
  repository: what they report during one read callback (the progress of the handshake, the
  decrypted records, whether the TLS session ended) is the argument \<open>io\<close>. A connection that
  was closed gets no further read callback.
\<close>

record 'p conn =
  conn_parser :: 'p
  is_tls :: bool
  tls_hs_done :: bool
  conn_open :: bool
  conn_sink :: sink
  conn_stream :: stream

datatype handshake = Hs_wait | Hs_failed | Hs_ok

record tls_io =
  io_overflow :: bool
  io_handshake :: handshake
  io_records :: "cstr list"
  io_ended :: bool
  io_drained :: "cstr list"
  io_redrained :: "cstr list"
  io_ctx_ready :: bool
  io_setup_ok :: bool

definition conn_feed :: "env \<Rightarrow> 's strophe \<Rightarrow> ('p, 's) xml_parser \<Rightarrow> cstr \<Rightarrow> 'p conn \<Rightarrow> int \<times> 'p conn" where
  "conn_feed E L P data k =
     (let r = xmpp_feed E L P data (conn_sink k) (conn_parser k, conn_stream k)
      in (fst r, k\<lparr>conn_parser := fst (snd r), conn_stream := snd (snd r)\<rparr>))"

abbreviation conn_ctx :: "'p conn \<Rightarrow> session" where
  "conn_ctx k \<equiv> ctx (snd (conn_stream k))"

definition upd_conn :: "(server \<Rightarrow> server) \<Rightarrow> 'p conn \<Rightarrow> 'p conn" where
  "upd_conn f k = k\<lparr>conn_stream := (fst (conn_stream k), f (snd (conn_stream k)))\<rparr>"

definition drain_pending_tls :: "env \<Rightarrow> 's strophe \<Rightarrow> ('p, 's) xml_parser \<Rightarrow> cstr list \<Rightarrow>
    'p conn \<Rightarrow> 'p conn" where
  "drain_pending_tls E L P records k =
     (if \<not> is_tls k \<or> \<not> tls_hs_done k then k
      else fold (\<lambda>data k. snd (conn_feed E L P data k)) records k)"

text \<open>\<^verbatim>\<open>on_conn_close\<close> is the close callback, which libuv runs after the callback that closed
  the handle has returned; the connection is freed then.\<close>

definition on_conn_close :: "env \<Rightarrow> 'p conn \<Rightarrow> 'p conn" where
  "on_conn_close E k =
     (let j = bound_jid (conn_ctx k) in
      if j \<noteq> [] then upd_conn (xmpp_presence_on_disconnect E j (bare j)) k else k)"

text \<open>\<^verbatim>\<open>close_conn\<close> only starts closing: the handle gets no further read callback.\<close>

definition close_conn :: "env \<Rightarrow> 's strophe \<Rightarrow> ('p, 's) xml_parser \<Rightarrow> cstr list \<Rightarrow> 'p conn \<Rightarrow> 'p conn" where
  "close_conn E L P drained k =
     (if \<not> conn_open k then k
      else (drain_pending_tls E L P drained k)\<lparr>conn_open := False\<rparr>)"

text \<open>Some paths drain the TLS session before they close the connection, which drains again.\<close>

definition drain_and_close :: "env \<Rightarrow> 's strophe \<Rightarrow> ('p, 's) xml_parser \<Rightarrow> tls_io \<Rightarrow> 'p conn \<Rightarrow> 'p conn" where
  "drain_and_close E L P io k =
     close_conn E L P (io_redrained io) (drain_pending_tls E L P (io_drained io) k)"

definition on_new_connection :: "env \<Rightarrow> ('p, 's) xml_parser \<Rightarrow> sink \<Rightarrow> stream \<Rightarrow> 'p conn" where
  "on_new_connection E P u rs =
     \<lparr> conn_parser = parser_new P, is_tls = False, tls_hs_done = False, conn_open = True,
       conn_sink = u, conn_stream = (fst rs, xmpp_session_reset E (snd rs)) \<rparr>"

text \<open>The loop over the decrypted records: it stops at the first that asks for a close.\<close>

fun feed_records :: "env \<Rightarrow> 's strophe \<Rightarrow> ('p, 's) xml_parser \<Rightarrow> cstr list \<Rightarrow> 'p conn \<Rightarrow> bool \<times> 'p conn" where
  "feed_records E L P [] k = (False, k)"
| "feed_records E L P (data # ds) k =
     (let r = conn_feed E L P data k in
      if fst r \<noteq> 0 then (True, snd r) else feed_records E L P ds (snd r))"

definition read_tls :: "env \<Rightarrow> 's strophe \<Rightarrow> ('p, 's) xml_parser \<Rightarrow> tls_io \<Rightarrow> 'p conn \<Rightarrow> 'p conn" where
  "read_tls E L P io k =
     (let r = feed_records E L P (io_records io) k in
      if fst r then close_conn E L P (io_drained io) (snd r)
      else if io_ended io then drain_and_close E L P io (snd r) else snd r)"

definition read_plain :: "env \<Rightarrow> 's strophe \<Rightarrow> ('p, 's) xml_parser \<Rightarrow> tls_io \<Rightarrow> cstr \<Rightarrow> 'p conn \<Rightarrow> 'p conn" where
  "read_plain E L P io data k =
     (let r = conn_feed E L P data k; k1 = snd r in
      if fst r \<noteq> 0 then close_conn E L P (io_drained io) k1
      else if needs_starttls_proceed (conn_ctx k1) \<and> \<not> is_tls k1 then
        (let k2 = upd_conn tls_handshake_started k1 in
         if \<not> io_ctx_ready io then close_conn E L P (io_drained io) k2
         else if \<not> io_setup_ok io then close_conn E L P (io_drained io) k2
         else k2\<lparr>is_tls := True, tls_hs_done := False\<rparr>)
      else k1)"

text \<open>\<^verbatim>\<open>read_cb\<close>: end of file or error is \<^term>\<open>None\<close>.\<close>

definition read_cb :: "env \<Rightarrow> 's strophe \<Rightarrow> ('p, 's) xml_parser \<Rightarrow> tls_io \<Rightarrow> cstr option \<Rightarrow> 'p conn \<Rightarrow> 'p conn" where
  "read_cb E L P io rd k =
     (case rd of
        None \<Rightarrow> drain_and_close E L P io k
      | Some data \<Rightarrow>
          if data = [] then k
          else if is_tls k then
            (if io_overflow io then close_conn E L P (io_drained io) k
             else if tls_hs_done k then read_tls E L P io k
             else (case io_handshake io of
                     Hs_wait \<Rightarrow> k
                   | Hs_failed \<Rightarrow> close_conn E L P (io_drained io) k
                   | Hs_ok \<Rightarrow> read_tls E L P io
                        (upd_conn tls_handshake_done (k\<lparr>tls_hs_done := True\<rparr>))))
          else read_plain E L P io data k)"

subsection \<open>Reachable connections\<close>

text \<open>A callback of a connection runs on its own session and the shared rest of the server.\<close>

definition enter_conn :: "stream \<Rightarrow> 'p conn \<Rightarrow> 'p conn" where
  "enter_conn sh k = k\<lparr>conn_stream := (fst sh, (snd sh)\<lparr>ctx := conn_ctx k\<rparr>)\<rparr>"

text \<open>A connection and the callbacks it gets; between two of them, other connections may
  change the shared parts of the server, and the event loop may start closing the connection.\<close>

inductive reachable :: "'s strophe \<Rightarrow> ('p, 's) xml_parser \<Rightarrow> 'p conn \<Rightarrow> bool"
  for L :: "'s strophe" and P :: "('p, 's) xml_parser" where
  accept: "reachable L P (on_new_connection E P u rs)"
| read: "reachable L P k \<Longrightarrow> conn_open k \<Longrightarrow> reachable L P (read_cb E L P io rd k)"
| others: "reachable L P k \<Longrightarrow>
    reachable L P (enter_conn sh k)"
| closing: "reachable L P k \<Longrightarrow> reachable L P (k\<lparr>conn_open := False\<rparr>)"

inductive_cases reachable_cases: "reachable L P k"

text \<open>The callback for the stream header is made for the document element, so it can only
  be the first callback of a call of \<^verbatim>\<open>parser_feed\<close>.\<close>

definition header_first :: "('p, 's) xml_parser \<Rightarrow> bool" where
  "header_first P \<longleftrightarrow> (\<forall>p data. \<forall>ev\<in>set (tl (fst (snd (parser_feed P p data)))).
     \<not> (\<exists>nm attrs. ev = Stream_start nm attrs))"

subsection \<open>Nothing is authenticated before TLS\<close>

definition plain_states :: "xmpp_state set" where
  "plain_states = {DISCONNECTED, CONNECTED_TCP, STREAM_OPENED, FEATURES_RECEIVED, STARTTLS_SENT, CLOSING, CLOSED}"

text \<open>A plaintext session that was asked to start TLS still has its flag set, and no
  authentication was attempted on it, and no resource was bound.\<close>

definition plain_ok :: "session \<Rightarrow> bool" where
  "plain_ok c \<longleftrightarrow> state c \<in> plain_states \<and> failed_auth_count c = 0 \<and> bound_jid c = [] \<and>
     (state c = STARTTLS_SENT \<longrightarrow> needs_starttls_proceed c)"

lemma event_flag:
  "needs_starttls_proceed (ctx (snd rs)) \<Longrightarrow> needs_starttls_proceed (ctx (snd (handle_event E L ev rs)))"
proof (cases ev)
  case (Stanza st)
  assume n: "needs_starttls_proceed (ctx (snd rs))"
  have "needs_starttls_proceed (ctx (stanza_features_received E L st s)) \<or> \<not> needs_starttls_proceed (ctx s)" for s
    by (simp add: stanza_features_received_def)
  moreover have "needs_starttls_proceed (ctx (stanza_sasl E L st s)) = needs_starttls_proceed (ctx s)" for s
    by (simp add: stanza_sasl_def auth_plain_def auth_scram_def Let_def split: option.splits)
  ultimately show ?thesis
    using n stanza_online_keeps [of rs E L st]
    by (cases "state (ctx (snd rs))") (auto simp: Stanza on_stanza_def online_keeps_def)
qed simp_all

lemma starttls_sent_flag:
  "state (ctx (snd rs)) = FEATURES_RECEIVED \<Longrightarrow>
     state (ctx (snd (handle_event E L (Stanza st) rs))) = STARTTLS_SENT \<Longrightarrow>
     needs_starttls_proceed (ctx (snd (handle_event E L (Stanza st) rs)))"
  by (auto simp: on_stanza_def stanza_features_received_def split: if_splits)

lemma event_plain:
  assumes "plain_ok (ctx (snd rs))"
    and "state (ctx (snd rs)) = STARTTLS_SENT \<Longrightarrow> \<not> (\<exists>nm attrs. ev = Stream_start nm attrs)"
  shows "plain_ok (ctx (snd (handle_event E L ev rs)))"
proof -
  let ?q = "state (ctx (snd rs))" and ?r = "snd (handle_event E L ev rs)"
  have m: "state (ctx ?r) \<in> moves ?q" by (rule handle_event_moves)
  have count: "failed_auth_count (ctx ?r) = 0 \<and> bound_jid (ctx ?r) = []"
    using assms(1) event_count [of E L ev rs] event_bound_jid [of rs E L ev]
    by (auto simp: plain_ok_def plain_states_def)
  show ?thesis
  proof (cases "?q = STARTTLS_SENT")
    case True
    then have n: "needs_starttls_proceed (ctx ?r)"
      using assms(1) event_flag [of rs E L ev] by (simp add: plain_ok_def)
    have "state (ctx ?r) \<in> {STARTTLS_SENT, CLOSING}"
      using True assms(2) by (cases ev) (auto simp: on_stanza_def on_stream_end_def)
    with n count show ?thesis by (auto simp: plain_ok_def plain_states_def)
  next
    case False
    then have q: "?q \<in> plain_states - {STARTTLS_SENT}" using assms(1) by (simp add: plain_ok_def)
    then have "state (ctx ?r) \<in> plain_states"
      using m by (auto simp: plain_states_def moves_def)
    moreover have "needs_starttls_proceed (ctx ?r)" if s: "state (ctx ?r) = STARTTLS_SENT"
    proof -
      have f: "?q = FEATURES_RECEIVED"
        using s m q by (auto simp: plain_states_def moves_def)
      show ?thesis
      proof (cases ev)
        case (Stream_start nm a)
        then show ?thesis using s f on_stream_start_open [of E nm a "snd rs"] by (auto simp: opens_def)
      next
        case (Stanza st)
        then show ?thesis using starttls_sent_flag [OF f, of E L st] s by simp
      next
        case Stream_end
        then show ?thesis using s f by (simp add: on_stream_end_def)
      qed
    qed
    ultimately show ?thesis using count by (simp add: plain_ok_def)
  qed
qed

lemma fold_events_plain:
  assumes "plain_ok (ctx (snd rs))" "\<forall>ev\<in>set evs. \<not> (\<exists>nm attrs. ev = Stream_start nm attrs)"
  shows "plain_ok (ctx (snd (fold (handle_event E L) evs rs)))"
  using assms
proof (induction evs arbitrary: rs)
  case (Cons ev evs)
  have "plain_ok (ctx (snd (handle_event E L ev rs)))"
    using Cons.prems by (intro event_plain) auto
  with Cons show ?case by simp
qed simp

lemma feed_plain:
  assumes "header_first P" "state (ctx (snd (snd ps))) \<in> plain_states - {STARTTLS_SENT}"
    and "failed_auth_count (ctx (snd (snd ps))) = 0" "bound_jid (ctx (snd (snd ps))) = []"
  shows "plain_ok (ctx (snd (snd (snd (xmpp_feed E L P data u ps)))))"
proof -
  let ?s1 = "upd (extract_namespaces data) (upd (feed_prepare u) (snd (snd ps)))"
  let ?p = "if needs_parser_reset (ctx (snd (snd ps))) \<or> needs_starttls_proceed (ctx (snd (snd ps)))
    then parser_new P else fst ps"
  let ?evs = "fst (snd (parser_feed P ?p (strip_declaration data)))"
  let ?rs2 = "fold (handle_event E L) ?evs (fst (snd ps), ?s1)"
  have p1: "plain_ok (ctx ?s1)" and n: "state (ctx ?s1) \<noteq> STARTTLS_SENT"
    using assms(2-4) by (auto simp: plain_ok_def)
  have t: "\<forall>ev\<in>set (tl ?evs). \<not> (\<exists>nm attrs. ev = Stream_start nm attrs)"
    using assms(1) unfolding header_first_def by blast
  have "plain_ok (ctx (snd ?rs2))"
  proof (cases ?evs)
    case (Cons ev evs)
    have "plain_ok (ctx (snd (handle_event E L ev (fst (snd ps), ?s1))))"
      using p1 n by (intro event_plain) simp_all
    then show ?thesis using t Cons by (simp add: fold_events_plain)
  qed (use p1 in simp)
  moreover have "plain_ok (ctx (send_stream_error E e s))" if "plain_ok (ctx s)" for e s
    using that stream_error_state [of E e s] by (auto simp: plain_ok_def plain_states_def)
  ultimately show ?thesis by (auto simp: xmpp_feed_def Let_def)
qed

lemma feed_attempts:
  assumes "attempts_ok (ctx (snd (snd ps)))"
  shows "attempts_ok (ctx (snd (snd (snd (xmpp_feed E L P data u ps)))))"
proof -
  have "attempts_ok (ctx (snd rs)) \<Longrightarrow> attempts_ok (ctx (snd (fold (handle_event E L) evs rs)))" for evs rs
    by (induction evs arbitrary: rs) (simp_all add: event_attempts)
  moreover have "attempts_ok (extract_namespaces data (feed_prepare u (ctx (snd (snd ps)))))"
    using assms by (simp add: attempts_ok_def)
  ultimately show ?thesis
    by (auto simp: xmpp_feed_def Let_def intro!: malformed_attempts)
qed

text \<open>The invariant of a connection: the attempts to authenticate are limited, and as long as the handshake is not done it is in a
  plaintext state, and an open plaintext connection is not waiting for TLS.\<close>

definition conn_inv :: "'p conn \<Rightarrow> bool" where
  "conn_inv k \<longleftrightarrow> (tls_hs_done k \<longrightarrow> is_tls k) \<and> attempts_ok (conn_ctx k) \<and>
     (\<not> tls_hs_done k \<longrightarrow> state (conn_ctx k) \<in> plain_states \<and> failed_auth_count (conn_ctx k) = 0 \<and>
        bound_jid (conn_ctx k) = [] \<and>
        (conn_open k \<and> \<not> is_tls k \<longrightarrow> state (conn_ctx k) \<noteq> STARTTLS_SENT))"

lemma conn_feed_simps [simp]:
  "is_tls (snd (conn_feed E L P d k)) = is_tls k"
  "tls_hs_done (snd (conn_feed E L P d k)) = tls_hs_done k"
  "conn_open (snd (conn_feed E L P d k)) = conn_open k"
  by (simp_all add: conn_feed_def Let_def)

lemma upd_conn_simps [simp]:
  "is_tls (upd_conn f k) = is_tls k" "tls_hs_done (upd_conn f k) = tls_hs_done k"
  "conn_open (upd_conn f k) = conn_open k" "conn_sink (upd_conn f k) = conn_sink k"
  "conn_stream (upd_conn f k) = (fst (conn_stream k), f (snd (conn_stream k)))"
  by (simp_all add: upd_conn_def)

lemma drain_simps [simp]:
  "is_tls (drain_pending_tls E L P ds k) = is_tls k"
  "tls_hs_done (drain_pending_tls E L P ds k) = tls_hs_done k"
  "conn_open (drain_pending_tls E L P ds k) = conn_open k"
  by (simp_all add: drain_pending_tls_def fold_frame)

lemma drain_not_tls: "\<not> tls_hs_done k \<Longrightarrow> drain_pending_tls E L P ds k = k"
  by (simp add: drain_pending_tls_def)

lemma disconnect_ctx [simp]: "ctx (xmpp_presence_on_disconnect E j b s) = ctx s"
  by (simp add: xmpp_presence_on_disconnect_def)

lemma on_conn_close_simps [simp]:
  "is_tls (on_conn_close E k) = is_tls k" "tls_hs_done (on_conn_close E k) = tls_hs_done k"
  "conn_ctx (on_conn_close E k) = conn_ctx k"
  by (simp_all add: on_conn_close_def Let_def)

lemma close_conn_simps [simp]:
  "is_tls (close_conn E L P ds k) = is_tls k"
  "tls_hs_done (close_conn E L P ds k) = tls_hs_done k"
  "\<not> conn_open (close_conn E L P ds k)"
  by (simp_all add: close_conn_def)

lemma close_conn_ctx: "\<not> tls_hs_done k \<Longrightarrow> conn_ctx (close_conn E L P ds k) = conn_ctx k"
  by (simp add: close_conn_def drain_not_tls)

lemma drain_and_close_simps [simp]:
  "is_tls (drain_and_close E L P io k) = is_tls k"
  "tls_hs_done (drain_and_close E L P io k) = tls_hs_done k"
  "\<not> conn_open (drain_and_close E L P io k)"
  by (simp_all add: drain_and_close_def)

lemma drain_and_close_ctx: "\<not> tls_hs_done k \<Longrightarrow> conn_ctx (drain_and_close E L P io k) = conn_ctx k"
  by (simp add: drain_and_close_def drain_not_tls close_conn_ctx)

lemma feed_records_simps [simp]:
  "is_tls (snd (feed_records E L P ds k)) = is_tls k"
  "tls_hs_done (snd (feed_records E L P ds k)) = tls_hs_done k"
  by (induction ds arbitrary: k) (simp_all add: Let_def)

lemma read_tls_simps [simp]:
  "is_tls (read_tls E L P io k) = is_tls k" "tls_hs_done (read_tls E L P io k) = tls_hs_done k"
  by (simp_all add: read_tls_def Let_def)

lemma conn_feed_attempts:
  "attempts_ok (conn_ctx k) \<Longrightarrow> attempts_ok (conn_ctx (snd (conn_feed E L P d k)))"
  by (simp add: conn_feed_def Let_def feed_attempts)

lemma drain_attempts:
  "attempts_ok (conn_ctx k) \<Longrightarrow> attempts_ok (conn_ctx (drain_pending_tls E L P ds k))"
proof -
  have "attempts_ok (conn_ctx k) \<Longrightarrow>
      attempts_ok (conn_ctx (fold (\<lambda>data k. snd (conn_feed E L P data k)) ds k))" for k
    by (induction ds arbitrary: k) (simp_all add: conn_feed_attempts)
  then show "attempts_ok (conn_ctx k) \<Longrightarrow> attempts_ok (conn_ctx (drain_pending_tls E L P ds k))"
    by (simp add: drain_pending_tls_def)
qed

lemma close_attempts:
  "attempts_ok (conn_ctx k) \<Longrightarrow> attempts_ok (conn_ctx (close_conn E L P ds k))"
  "attempts_ok (conn_ctx k) \<Longrightarrow> attempts_ok (conn_ctx (drain_and_close E L P io k))"
  by (simp_all add: close_conn_def drain_and_close_def drain_attempts)

lemma feed_records_attempts:
  "attempts_ok (conn_ctx k) \<Longrightarrow> attempts_ok (conn_ctx (snd (feed_records E L P ds k)))"
  by (induction ds arbitrary: k) (simp_all add: conn_feed_attempts Let_def)

lemma read_tls_attempts:
  "attempts_ok (conn_ctx k) \<Longrightarrow> attempts_ok (conn_ctx (read_tls E L P io k))"
  by (simp add: read_tls_def Let_def feed_records_attempts close_attempts)

lemma plain_attempts: "plain_ok c \<Longrightarrow> attempts_ok c"
  by (simp add: plain_ok_def attempts_ok_def)

lemma handshake_done_attempts:
  "failed_auth_count (ctx s) = 0 \<Longrightarrow> attempts_ok (ctx (tls_handshake_done s))"
  by (simp add: tls_handshake_done_def attempts_ok_def)

lemma read_plain_inv:
  assumes "header_first P" "conn_inv k" "conn_open k" "\<not> is_tls k"
  shows "conn_inv (read_plain E L P io data k)"
proof -
  let ?k1 = "snd (conn_feed E L P data k)"
  have h: "\<not> tls_hs_done k" using assms(2,4) by (auto simp: conn_inv_def)
  have "plain_ok (conn_ctx ?k1)"
    using feed_plain [OF assms(1), of "(conn_parser k, conn_stream k)" E L data "conn_sink k"] assms h
    by (simp add: conn_feed_def conn_inv_def Let_def)
  then show ?thesis
    using assms h
    by (auto simp: read_plain_def Let_def conn_inv_def plain_ok_def close_conn_ctx
        tls_handshake_started_def attempts_ok_def)
qed

lemma read_cb_inv:
  assumes "header_first P" "conn_inv k" "conn_open k"
  shows "conn_inv (read_cb E L P io rd k)"
proof (cases "is_tls k")
  case True
  show ?thesis
    using assms True
    by (auto simp: read_cb_def conn_inv_def close_conn_ctx drain_and_close_ctx close_attempts
        read_tls_attempts handshake_done_attempts split: option.splits handshake.splits)
next
  case False
  then have h: "\<not> tls_hs_done k" using assms(2) by (auto simp: conn_inv_def)
  have c: "conn_inv (drain_and_close E L P io k)"
    using assms(2) False h by (simp add: conn_inv_def drain_and_close_ctx)
  then show ?thesis
    using assms False read_plain_inv [OF assms False] h
    by (auto simp: read_cb_def split: option.splits)
qed

lemma reachable_inv:
  assumes "header_first P" "reachable L P k"
  shows "conn_inv k"
  using assms(2)
proof induction
  case (accept E u rs)
  then show ?case
    by (simp add: conn_inv_def on_new_connection_def xmpp_session_reset_def session_reset_def
        plain_states_def attempts_ok_def session0_def)
next
  case (read k E io rd)
  then show ?case using read_cb_inv [OF assms(1)] by blast
next
  case (others k sh)
  then show ?case by (simp add: conn_inv_def enter_conn_def)
next
  case (closing k)
  then show ?case by (simp add: conn_inv_def)
qed

subsection \<open>A connection is a trace of steps\<close>

definition follows :: "'s strophe \<Rightarrow> stream \<Rightarrow> stream \<Rightarrow> bool" where
  "follows L rs rs' \<longleftrightarrow> (\<exists>steps. rs' = run L steps rs)"

lemma follows_refl [simp]: "follows L rs rs"
  unfolding follows_def by (intro exI [of _ "[]"]) simp

lemma follows_trans: "follows L a b \<Longrightarrow> follows L b c \<Longrightarrow> follows L a c"
  unfolding follows_def by (metis run_append)

lemma follows_run: "follows L rs (run L steps rs)"
  unfolding follows_def by blast

lemma follows_step: "follows L rs (run_step L x rs)"
  using follows_run [of L rs "[x]"] by (simp add: run_def)

lemma run_events: "run L (map (Event E) evs) rs = fold (handle_event E L) evs rs"
  by (induction evs arbitrary: rs) (simp_all add: run_def)

lemma feed_follows: "follows L (snd ps) (snd (snd (xmpp_feed E L P data u ps)))"
proof -
  let ?p = "if needs_parser_reset (ctx (snd (snd ps))) \<or> needs_starttls_proceed (ctx (snd (snd ps)))
    then parser_new P else fst ps"
  let ?f = "parser_feed P ?p (strip_declaration data)"
  have b: "follows L (snd ps) (run L (map (Event E) (fst (snd ?f))) (run_step L (Feed_begin u data) (snd ps)))"
    by (rule follows_trans [OF follows_step follows_run])
  show ?thesis
    using b follows_trans [OF b follows_step [of L _ "Malformed E"]]
    by (simp add: xmpp_feed_def Let_def run_events)
qed

lemma conn_feed_follows: "follows L (conn_stream k) (conn_stream (snd (conn_feed E L P data k)))"
  using feed_follows [of L "(conn_parser k, conn_stream k)" E P data "conn_sink k"]
  by (simp add: conn_feed_def Let_def)

lemma drain_follows: "follows L (conn_stream k) (conn_stream (drain_pending_tls E L P ds k))"
proof -
  have "follows L (conn_stream k) (conn_stream (fold (\<lambda>data k. snd (conn_feed E L P data k)) ds k))" for k
    by (induction ds arbitrary: k) (auto intro: follows_trans [OF conn_feed_follows])
  then show ?thesis by (simp add: drain_pending_tls_def)
qed

lemma close_follows:
  "follows L (conn_stream k) (conn_stream (close_conn E L P ds k))"
  by (simp add: close_conn_def drain_follows)

lemma drain_and_close_follows:
  "follows L (conn_stream k) (conn_stream (drain_and_close E L P io k))"
  unfolding drain_and_close_def by (rule follows_trans [OF drain_follows close_follows])

lemma records_follow: "follows L (conn_stream k) (conn_stream (snd (feed_records E L P ds k)))"
  by (induction ds arbitrary: k) (auto simp: Let_def intro: conn_feed_follows follows_trans [OF conn_feed_follows])

lemma read_tls_follows: "follows L (conn_stream k) (conn_stream (read_tls E L P io k))"
  by (auto simp: read_tls_def Let_def intro: records_follow follows_trans [OF records_follow close_follows]
      follows_trans [OF records_follow drain_and_close_follows])

lemma upd_conn_follows:
  assumes "run_step L x (conn_stream k) = (fst (conn_stream k), f (snd (conn_stream k)))"
  shows "follows L (conn_stream k) (conn_stream (upd_conn f k))"
  using follows_step [of L "conn_stream k" x] assms by simp

lemma read_plain_follows: "follows L (conn_stream k) (conn_stream (read_plain E L P io data k))"
proof -
  let ?k1 = "snd (conn_feed E L P data k)"
  have s: "follows L (conn_stream k) (conn_stream (upd_conn tls_handshake_started ?k1))"
    by (rule follows_trans [OF conn_feed_follows upd_conn_follows [of _ Tls_started]]) simp
  show ?thesis
    using s follows_trans [OF s close_follows] follows_trans [OF conn_feed_follows close_follows]
    by (auto simp: read_plain_def Let_def intro: conn_feed_follows)
qed

lemma read_cb_follows: "follows L (conn_stream k) (conn_stream (read_cb E L P io rd k))"
proof -
  let ?k1 = "upd_conn tls_handshake_done (k\<lparr>tls_hs_done := True\<rparr>)"
  have "follows L (conn_stream k) (conn_stream ?k1)"
    using upd_conn_follows [of L Tls_done "k\<lparr>tls_hs_done := True\<rparr>" tls_handshake_done] by simp
  note finished = follows_trans [OF this read_tls_follows]
  show ?thesis
    using finished by (auto simp: read_cb_def intro: drain_and_close_follows close_follows read_tls_follows
        read_plain_follows split: option.splits handshake.splits)
qed

text \<open>Every reachable connection is the run of some steps from a fresh session.\<close>

lemma reachable_trace:
  "reachable L P k \<Longrightarrow>
     \<exists>E rs steps. conn_stream k = run L steps (fst rs, xmpp_session_reset E (snd rs))"
proof (induction rule: reachable.induct)
  case (accept E u rs)
  show ?case
    by (intro exI [of _ E] exI [of _ rs] exI [of _ "[]"]) (simp add: on_new_connection_def)
next
  case (read k E io rd)
  then show ?case using read_cb_follows [of L k E P io rd] unfolding follows_def by (metis run_append)
next
  case (others k sh)
  then obtain E rs steps where "conn_stream k = run L steps (fst rs, xmpp_session_reset E (snd rs))" by blast
  then have "conn_stream (enter_conn sh k) = run L (steps @ [Others sh]) (fst rs, xmpp_session_reset E (snd rs))"
    by (simp add: enter_conn_def)
  then show ?case by blast
qed simp

subsection \<open>What is fed to the stream in one callback\<close>

text \<open>The callbacks the parser makes on some data, in the state it has on the connection, and the
  stream right before the \<open>n\<close>-th of them.\<close>

definition feed_events :: "('p, 's) xml_parser \<Rightarrow> cstr \<Rightarrow> 'p conn \<Rightarrow> 's parser_event list" where
  "feed_events P data k =
     fst (snd (parser_feed P
       (if needs_parser_reset (conn_ctx k) \<or> needs_starttls_proceed (conn_ctx k) then parser_new P else conn_parser k)
       (strip_declaration data)))"

definition before_event :: "env \<Rightarrow> 's strophe \<Rightarrow> ('p, 's) xml_parser \<Rightarrow> cstr \<Rightarrow> nat \<Rightarrow> 'p conn \<Rightarrow> stream" where
  "before_event E L P data n k =
     fold (handle_event E L) (take n (feed_events P data k))
       (fst (conn_stream k), upd (extract_namespaces data) (upd (feed_prepare (conn_sink k)) (snd (conn_stream k))))"

text \<open>Several records, and the connection whose handshake is done.\<close>

definition feeding :: "env \<Rightarrow> 's strophe \<Rightarrow> ('p, 's) xml_parser \<Rightarrow> cstr list \<Rightarrow> 'p conn \<Rightarrow> 'p conn" where
  "feeding E L P ds k = fold (\<lambda>d k. snd (conn_feed E L P d k)) ds k"

definition secured :: "'p conn \<Rightarrow> 'p conn" where
  "secured k = (if tls_hs_done k then k else upd_conn tls_handshake_done (k\<lparr>tls_hs_done := True\<rparr>))"

lemma feeding_simps [simp]:
  "feeding E L P [] k = k" "feeding E L P (ds @ [d]) k = snd (conn_feed E L P d (feeding E L P ds k))"
  by (simp_all add: feeding_def)

lemma feeding_append: "feeding E L P (ds @ es) k = feeding E L P es (feeding E L P ds k)"
  by (simp add: feeding_def)

lemma conn_feed_stream:
  "snd (conn_stream (snd (conn_feed E L P data k))) = snd (before_event E L P data (length (feed_events P data k)) k) \<or>
   snd (conn_stream (snd (conn_feed E L P data k))) =
     send_stream_error E NOT_WELL_FORMED (snd (before_event E L P data (length (feed_events P data k)) k))"
  by (simp add: conn_feed_def xmpp_feed_def before_event_def feed_events_def Let_def)

lemma conn_feed_end:
  assumes "state (conn_ctx (snd (conn_feed E L P data k))) \<noteq> CLOSING"
  shows "state (ctx (snd (before_event E L P data (length (feed_events P data k)) k))) = state (conn_ctx (snd (conn_feed E L P data k))) \<and>
    authcid (ctx (snd (before_event E L P data (length (feed_events P data k)) k))) = authcid (conn_ctx (snd (conn_feed E L P data k))) \<and>
    db (snd (before_event E L P data (length (feed_events P data k)) k)) = db (snd (conn_stream (snd (conn_feed E L P data k))))"
  using conn_feed_stream [of E L P data k] assms
    stream_error_state [of E NOT_WELL_FORMED "snd (before_event E L P data (length (feed_events P data k)) k)"]
  by auto

lemma feed_negotiating:
  assumes "negotiating (state (conn_ctx (snd (conn_feed E L P data k))))"
  shows "negotiating (state (conn_ctx k)) \<and> db (snd (conn_stream (snd (conn_feed E L P data k)))) = db (snd (conn_stream k))"
proof -
  have "state (conn_ctx (snd (conn_feed E L P data k))) \<noteq> CLOSING" using assms by (auto simp: negotiating_def)
  from conn_feed_end [OF this] show ?thesis
    using assms events_negotiating [of E L "feed_events P data k"
        "(fst (conn_stream k), upd (extract_namespaces data) (upd (feed_prepare (conn_sink k)) (snd (conn_stream k))))"]
    by (simp add: before_event_def)
qed

text \<open>The \<open>n\<close>-th callback for the data is a stanza that proves the identity \<open>a\<close> against the accounts \<open>D\<close>.\<close>

definition proof_in :: "env \<Rightarrow> 's strophe \<Rightarrow> ('p, 's) xml_parser \<Rightarrow> database \<Rightarrow> cstr \<Rightarrow> cstr \<Rightarrow> nat \<Rightarrow> 'p conn \<Rightarrow> bool" where
  "proof_in E L P D a data n k \<longleftrightarrow>
     (\<exists>st s. n < length (feed_events P data k) \<and> feed_events P data k ! n = Stanza st \<and>
        s = snd (before_event E L P data n k) \<and> db s = D \<and> has_name L st ''auth'' \<and>
        (proves_plain E L st s a \<or> proves_scram E L st s a))"

lemma feed_authed:
  assumes "authed (state (conn_ctx (snd (conn_feed E L P data k))))"
  shows "authed (state (conn_ctx k)) \<and> authcid (conn_ctx (snd (conn_feed E L P data k))) = authcid (conn_ctx k) \<or>
    negotiating (state (conn_ctx k)) \<and>
    (\<exists>n. proof_in E L P (db (snd (conn_stream k))) (authcid (conn_ctx (snd (conn_feed E L P data k)))) data n k)"
proof -
  let ?rs = "(fst (conn_stream k), upd (extract_namespaces data) (upd (feed_prepare (conn_sink k)) (snd (conn_stream k))))"
  have "state (conn_ctx (snd (conn_feed E L P data k))) \<noteq> CLOSING" using assms by (auto simp: authed_def)
  note e = conn_feed_end [OF this, unfolded before_event_def take_all_iff [THEN iffD2, OF order_refl]]
  from events_authed [of E L "feed_events P data k" ?rs] e assms show ?thesis
    by (simp add: proof_in_def before_event_def proves_identity_def) blast
qed

lemma feeding_negotiating:
  "negotiating (state (conn_ctx (feeding E L P ds k))) \<Longrightarrow>
     negotiating (state (conn_ctx k)) \<and> db (snd (conn_stream (feeding E L P ds k))) = db (snd (conn_stream k))"
proof (induction ds rule: rev_induct)
  case (snoc d ds)
  then show ?case using feed_negotiating [of E L P d "feeding E L P ds k"] by simp
qed simp

lemma feeding_authed:
  "authed (state (conn_ctx (feeding E L P ds k))) \<Longrightarrow>
     authed (state (conn_ctx k)) \<and> authcid (conn_ctx (feeding E L P ds k)) = authcid (conn_ctx k) \<or>
     (\<exists>cs data rest n. ds = cs @ data # rest \<and>
        proof_in E L P (db (snd (conn_stream k))) (authcid (conn_ctx (feeding E L P ds k))) data n (feeding E L P cs k))"
proof (induction ds rule: rev_induct)
  case (snoc d ds)
  let ?m = "feeding E L P ds k"
  from feed_authed [of E L P d ?m] snoc.prems
  consider (kept) "authed (state (conn_ctx ?m))" "authcid (conn_ctx (feeding E L P (ds @ [d]) k)) = authcid (conn_ctx ?m)"
    | (proved) n where "negotiating (state (conn_ctx ?m))"
      "proof_in E L P (db (snd (conn_stream ?m))) (authcid (conn_ctx (feeding E L P (ds @ [d]) k))) d n ?m"
    by auto
  then show ?case
  proof cases
    case kept
    with snoc.IH show ?thesis by (metis append.assoc append_Cons)
  next
    case proved
    then show ?thesis using feeding_negotiating [OF proved(1)] by (intro disjI2 exI [of _ ds] exI [of _ d] exI [of _ "[]"] exI [of _ n]) simp
  qed
qed simp

text \<open>The records of a callback over TLS, as far as they are fed, in order.\<close>

lemma drain_feeding: "\<exists>es. subseq es ds \<and> drain_pending_tls E L P ds k = feeding E L P es k"
  by (cases "is_tls k \<and> tls_hs_done k") (auto simp: drain_pending_tls_def feeding_def intro: exI [of _ ds] exI [of _ "[]"])

lemma close_feeding: "\<exists>es. subseq es ds \<and> conn_stream (close_conn E L P ds k) = conn_stream (feeding E L P es k)"
  using drain_feeding [of ds E L P k] by (auto simp: close_conn_def intro: exI [of _ "[]"])

lemma drain_and_close_feeding:
  "\<exists>es. subseq es (io_drained io @ io_redrained io) \<and> conn_stream (drain_and_close E L P io k) = conn_stream (feeding E L P es k)"
proof -
  obtain as where "subseq as (io_drained io)" "drain_pending_tls E L P (io_drained io) k = feeding E L P as k"
    using drain_feeding by blast
  moreover obtain bs where "subseq bs (io_redrained io)"
      "conn_stream (close_conn E L P (io_redrained io) (feeding E L P as k)) = conn_stream (feeding E L P bs (feeding E L P as k))"
    using close_feeding by blast
  ultimately show ?thesis
    by (intro exI [of _ "as @ bs"]) (simp add: drain_and_close_def feeding_append list_emb_append_mono)
qed

lemma records_feeding: "\<exists>es. subseq es ds \<and> snd (feed_records E L P ds k) = feeding E L P es k"
proof (induction ds arbitrary: k)
  case (Cons d ds)
  let ?k1 = "snd (conn_feed E L P d k)"
  show ?case
  proof (cases "fst (conn_feed E L P d k) = 0")
    case True
    obtain es where "subseq es ds" "snd (feed_records E L P ds ?k1) = feeding E L P es ?k1" using Cons by blast
    then show ?thesis using True by (intro exI [of _ "d # es"]) (simp add: Let_def feeding_def)
  next
    case False
    then show ?thesis by (intro exI [of _ "[d]"]) (simp add: Let_def feeding_def)
  qed
qed (simp add: exI [of _ "[]"])

lemma read_tls_feeding:
  "\<exists>es. subseq es (io_records io @ io_drained io @ io_redrained io) \<and>
     conn_stream (read_tls E L P io k) = conn_stream (feeding E L P es k)"
proof -
  obtain as where as: "subseq as (io_records io)" "snd (feed_records E L P (io_records io) k) = feeding E L P as k"
    using records_feeding by blast
  have join: "\<exists>es. subseq es (io_records io @ ds) \<and> conn_stream (feeding E L P bs (feeding E L P as k)) = conn_stream (feeding E L P es k)"
    if "subseq bs ds" for bs ds
    using as(1) that by (intro exI [of _ "as @ bs"]) (simp add: feeding_append list_emb_append_mono)
  obtain bs where bs: "subseq bs (io_drained io)"
      "conn_stream (close_conn E L P (io_drained io) (feeding E L P as k)) = conn_stream (feeding E L P bs (feeding E L P as k))"
    using close_feeding by blast
  obtain cs where cs: "subseq cs (io_drained io @ io_redrained io)"
      "conn_stream (drain_and_close E L P io (feeding E L P as k)) = conn_stream (feeding E L P cs (feeding E L P as k))"
    using drain_and_close_feeding by blast
  have "subseq bs (io_drained io @ io_redrained io)" using bs(1) by (metis append_Nil2 list_emb_append_mono list_emb_Nil)
  then show ?thesis
    using join [of "[]" "io_drained io @ io_redrained io"] join [OF cs(1)] join [of bs "io_drained io @ io_redrained io"] bs(2) cs(2) as(2)
    by (simp add: read_tls_def Let_def)
qed

lemma read_cb_feeding:
  assumes "is_tls k"
  shows "conn_stream (read_cb E L P io rd k) = conn_stream k \<or>
    (\<exists>es. subseq es (io_records io @ io_drained io @ io_redrained io) \<and>
       conn_stream (read_cb E L P io rd k) = conn_stream (feeding E L P es (secured k)))"
proof -
  have more: "subseq es (io_records io @ io_drained io @ io_redrained io)"
    if "subseq es (io_drained io) \<or> subseq es (io_drained io @ io_redrained io)" for es
    using that by (metis append_Nil append_Nil2 list_emb_append_mono list_emb_Nil)
  obtain bs where bs: "subseq bs (io_drained io)" "conn_stream (close_conn E L P (io_drained io) k) = conn_stream (feeding E L P bs k)"
    using close_feeding by blast
  obtain cs where cs: "subseq cs (io_drained io @ io_redrained io)"
      "conn_stream (drain_and_close E L P io k) = conn_stream (feeding E L P cs k)"
    using drain_and_close_feeding by blast
  have idle: "\<not> tls_hs_done k \<Longrightarrow> conn_stream (close_conn E L P ds k) = conn_stream k \<and> conn_stream (drain_and_close E L P io k) = conn_stream k" for ds
    by (simp add: close_conn_def drain_and_close_def drain_not_tls)
  show ?thesis
    using assms idle read_tls_feeding [of io E L P "secured k"] bs(2) cs(2) more [of bs] more [of cs] bs(1) cs(1)
    by (cases "tls_hs_done k") (auto simp: read_cb_def secured_def split: option.split handshake.split)
qed

lemma read_cb_plain_hs: "\<not> is_tls k \<Longrightarrow> tls_hs_done (read_cb E L P io rd k) \<Longrightarrow> tls_hs_done k"
  by (auto simp: read_cb_def read_plain_def Let_def split: option.splits if_splits)

subsection \<open>The further life of a connection\<close>

inductive later :: "'s strophe \<Rightarrow> ('p, 's) xml_parser \<Rightarrow> 'p conn \<Rightarrow> 'p conn \<Rightarrow> bool"
  for L :: "'s strophe" and P :: "('p, 's) xml_parser" and k :: "'p conn" where
  now: "later L P k k"
| read: "later L P k k' \<Longrightarrow> conn_open k' \<Longrightarrow> later L P k (read_cb E L P io rd k')"
| others: "later L P k k' \<Longrightarrow> later L P k (enter_conn sh k')"
| closing: "later L P k k' \<Longrightarrow> later L P k (k'\<lparr>conn_open := False\<rparr>)"

lemma later_reachable: "later L P k k' \<Longrightarrow> reachable L P k \<Longrightarrow> reachable L P k'"
  by (induction rule: later.induct) (auto intro: reachable.intros)

lemma step_count: "failed_auth_count (ctx (snd rs)) \<le> failed_auth_count (ctx (snd (run_step L x rs)))"
proof (cases x)
  case (Event E ev)
  then show ?thesis using event_count [of E L ev rs] by auto
qed (simp_all add: tls_handshake_done_def tls_handshake_started_def)

lemma follows_count: "follows L rs rs' \<Longrightarrow> failed_auth_count (ctx (snd rs)) \<le> failed_auth_count (ctx (snd rs'))"
proof -
  have "failed_auth_count (ctx (snd rs)) \<le> failed_auth_count (ctx (snd (run L steps rs)))" for steps
    by (induction steps rule: rev_induct) (auto intro: order_trans step_count)
  then show "follows L rs rs' \<Longrightarrow> ?thesis" by (auto simp: follows_def)
qed

lemma later_count: "later L P k k' \<Longrightarrow> failed_auth_count (conn_ctx k) \<le> failed_auth_count (conn_ctx k')"
proof (induction rule: later.induct)
  case (read k' E io rd)
  then show ?case using follows_count [OF read_cb_follows] order_trans by blast
qed (simp_all add: enter_conn_def)

end
