(* ===== verification/Server_Loop.thy ===== *)
theory Server_Loop
  imports Connection
begin

text \<open>
  The server as a whole (\<^verbatim>\<open>server.c\<close>): the connections the event loop holds, by the number
  they were given when they were accepted, and what they share (the table of online resources,
  the database, the registry of IQ handlers). One step accepts a connection, runs the read
  callback of one, or shuts down. The entries of the table point to connections, which are
  freed when they close: the invariant says that no entry ever points to a freed one.
\<close>

subsection \<open>The event loop\<close>

record 'p server_loop =
  sl_conns :: "sink \<Rightarrow> 'p conn option"
  sl_shared :: stream
  g_next_id :: nat

definition leave_conn :: "sink \<Rightarrow> 'p conn \<Rightarrow> 'p server_loop \<Rightarrow> 'p server_loop" where
  "leave_conn i k w = w\<lparr>sl_conns := (sl_conns w)(i \<mapsto> k), sl_shared := conn_stream k\<rparr>"

text \<open>\<^verbatim>\<open>on_new_connection\<close> with its status and whether \<^verbatim>\<open>uv_accept\<close> and \<^verbatim>\<open>uv_read_start\<close> succeed:
  if one of them fails the new connection is closed again.\<close>

definition accept_conn :: "env \<Rightarrow> ('p, 's) xml_parser \<Rightarrow> int \<Rightarrow> bool \<Rightarrow> 'p server_loop \<Rightarrow> 'p server_loop" where
  "accept_conn E P status accepted w =
     (if status < 0 then w
      else let i = g_next_id w; k = on_new_connection E P i (sl_shared w) in
        leave_conn i (k\<lparr>conn_open := accepted\<rparr>) (w\<lparr>g_next_id := i + 1\<rparr>))"

definition read_conn :: "env \<Rightarrow> 's strophe \<Rightarrow> ('p, 's) xml_parser \<Rightarrow> tls_io \<Rightarrow> cstr option \<Rightarrow> sink \<Rightarrow>
    'p server_loop \<Rightarrow> 'p server_loop" where
  "read_conn E L P io rd i w =
     (case sl_conns w i of
        None \<Rightarrow> w
      | Some k \<Rightarrow>
          if \<not> conn_open k then w
          else leave_conn i (read_cb E L P io rd (enter_conn (sl_shared w) k)) w)"

text \<open>The close callback of a connection that is closing; the connection is freed.\<close>

definition closed_conn :: "env \<Rightarrow> sink \<Rightarrow> 'p server_loop \<Rightarrow> 'p server_loop" where
  "closed_conn E i w =
     (case sl_conns w i of
        None \<Rightarrow> w
      | Some k \<Rightarrow>
          if conn_open k then w
          else w\<lparr>sl_conns := (sl_conns w)(i := None),
                 sl_shared := conn_stream (on_conn_close E (enter_conn (sl_shared w) k))\<rparr>)"

text \<open>\<^verbatim>\<open>close_walk_cb\<close> closes a handle that is not closing yet, without draining it.\<close>

definition close_walk_cb :: "sink \<Rightarrow> 'p server_loop \<Rightarrow> 'p server_loop" where
  "close_walk_cb i w =
     (case sl_conns w i of
        None \<Rightarrow> w
      | Some k \<Rightarrow> w\<lparr>sl_conns := (sl_conns w)(i \<mapsto> k\<lparr>conn_open := False\<rparr>)\<rparr>)"

text \<open>The walk of \<^verbatim>\<open>on_signal\<close> over all handles, in the order given. The rest of \<^verbatim>\<open>on_signal\<close> frees the
  TLS context, which is state of the process and not of a connection: \<open>on_signal_tls\<close> in \<open>Startup\<close>.\<close>

definition on_signal :: "sink list \<Rightarrow> 'p server_loop \<Rightarrow> 'p server_loop" where
  "on_signal handles w = fold close_walk_cb handles w"

inductive loop_reachable :: "'s strophe \<Rightarrow> ('p, 's) xml_parser \<Rightarrow> 'p server_loop \<Rightarrow> bool"
  for L :: "'s strophe" and P :: "('p, 's) xml_parser" where
  start: "g_sessions (snd sh) = [] \<Longrightarrow>
    loop_reachable L P \<lparr> sl_conns = Map.empty, sl_shared = sh, g_next_id = 1 \<rparr>"
| accept: "loop_reachable L P w \<Longrightarrow> loop_reachable L P (accept_conn E P status accepted w)"
| read: "loop_reachable L P w \<Longrightarrow> loop_reachable L P (read_conn E L P io rd i w)"
| closed: "loop_reachable L P w \<Longrightarrow> loop_reachable L P (closed_conn E i w)"
| signal: "loop_reachable L P w \<Longrightarrow> loop_reachable L P (on_signal handles w)"

subsection \<open>A session writes to its own connection\<close>

lemma stream_sink [simp]:
  "write_ud (ctx (stream_abort E e s)) = write_ud (ctx s)"
  "write_ud (ctx (failure_close E x q s)) = write_ud (ctx s)"
  "write_ud (ctx (sasl_success E s)) = write_ud (ctx s)"
  "write_ud (ctx (plain_failed E rc s)) = write_ud (ctx s)"
  "write_ud (ctx (scram_failed E n s)) = write_ud (ctx s)"
  "write_ud (ctx (snd (handle_scram_sha256 E n t s))) = write_ud (ctx s)"
  "write_ud (ctx (snd (send_stream_features s))) = write_ud (ctx s)"
  "write_ud (ctx (snd (send_stream_open E s))) = write_ud (ctx s)"
  "write_ud (ctx (snd (validate_stream_open E a s))) = write_ud (ctx s)"
  using handle_scram_keeps [of s E n t]
  by (auto simp: stream_abort_def failure_close_def sasl_success_def plain_failed_def scram_failed_def
      retry_auth_def scram_keeps_def send_stream_features_def send_stream_open_def validate_stream_open_def Let_def)

lemma transition_sink [simp]: "write_ud (ctx (snd (transition_to E q ev s))) = write_ud (ctx s)"
  by (simp add: transition_to_def advance_def Let_def)

lemma start_sink [simp]:
  "write_ud (ctx (open_stream E s)) = write_ud (ctx s)"
  "write_ud (ctx (on_stream_end E s)) = write_ud (ctx s)"
  by (simp_all add: open_stream_def on_stream_end_def Let_def)

lemma header_sink [simp]: "write_ud (ctx (on_stream_start E nm a s)) = write_ud (ctx s)"
  by (simp add: on_stream_start_def choose_domain_def Let_def split: option.splits)

lemma bind_sink [simp]:
  "write_ud (ctx (bind_resource E i r s)) = write_ud (ctx s)"
  "write_ud (ctx (bind_request E L b i s)) = write_ud (ctx s)"
  "write_ud (ctx (stanza_bound E L st s)) = write_ud (ctx s)"
  by (simp_all add: bind_resource_def bind_request_def stanza_bound_def set_resource_def Let_def split: option.splits)

lemma online_sink [simp]: "write_ud (ctx (snd (stanza_online E L st rs))) = write_ud (ctx (snd rs))"
proof -
  have "write_ud (ctx (snd (xmpp_iq_dispatch E L st rs))) = write_ud (ctx (snd rs))"
    using server_dispatch_keeps [of "snd rs" E L st "fst rs"] by (auto simp: xmpp_iq_dispatch_def iq_keeps_def)
  moreover have "ctx (xmpp_message_handle E L st (snd rs)) = ctx (snd rs)"
    using message_handle_keeps [of "snd rs" E L st] by (simp add: route_keeps_def)
  ultimately show ?thesis by (simp add: stanza_online_def Let_def)
qed

lemma event_sink [simp]: "write_ud (ctx (snd (handle_event E L ev rs))) = write_ud (ctx (snd rs))"
proof (cases ev)
  case (Stanza st)
  have "write_ud (ctx (stanza_features_received E L st s)) = write_ud (ctx s)" for s
    by (simp add: stanza_features_received_def)
  moreover have "write_ud (ctx (stanza_sasl E L st s)) = write_ud (ctx s)" for s
    by (simp add: stanza_sasl_def auth_plain_def auth_scram_def Let_def split: option.splits)
  ultimately show ?thesis by (simp add: Stanza on_stanza_def split: xmpp_state.split)
qed simp_all

subsection \<open>What one connection does to the table\<close>

text \<open>The entries of the connection \<open>u\<close> carry the JID its session is bound to, which cannot
  change any more.\<close>

definition own_ok :: "sink \<Rightarrow> server \<Rightarrow> bool" where
  "own_ok u s \<longleftrightarrow> table_inv s \<and> length (bound_jid (ctx s)) < JID_BUF_SIZE \<and>
     (\<forall>j. (j, u) \<in> owners s \<longrightarrow> j = bound_jid (ctx s) \<and> state (ctx s) \<in> {ONLINE, CLOSING, CLOSED})"

lemma owners_nonempty: "table_inv s \<Longrightarrow> (j, u) \<in> owners s \<Longrightarrow> j \<noteq> []"
  by (auto simp: table_inv_def entries_ok_def owners_def)

definition foreign :: "sink \<Rightarrow> server \<Rightarrow> (cstr \<times> sink) set" where
  "foreign u s = {x \<in> owners s. snd x \<noteq> u}"

definition table_step :: "sink \<Rightarrow> server \<Rightarrow> server \<Rightarrow> bool" where
  "table_step u s s' \<longleftrightarrow> own_ok u s' \<and> foreign u s' \<subseteq> foreign u s"

lemma table_step_refl: "own_ok u s \<Longrightarrow> table_step u s s"
  by (simp add: table_step_def)

lemma table_step_trans: "table_step u a b \<Longrightarrow> table_step u b c \<Longrightarrow> table_step u a c"
  by (auto simp: table_step_def)

text \<open>A step that leaves the table alone, and moves on from no state with an entry.\<close>

lemma same_table_step:
  assumes "own_ok u s" "g_sessions s' = g_sessions s"
    and "length (bound_jid (ctx s')) < JID_BUF_SIZE"
    and "state (ctx s) \<in> {ONLINE, CLOSING, CLOSED} \<Longrightarrow>
      bound_jid (ctx s') = bound_jid (ctx s) \<and> state (ctx s') \<in> {ONLINE, CLOSING, CLOSED}"
  shows "table_step u s s'"
proof -
  have "owners s' = owners s" "table_inv s' = table_inv s"
    using assms(2) by (simp_all add: owners_def table_inv_def)
  then show ?thesis using assms(1,3,4) by (auto simp: table_step_def own_ok_def foreign_def)
qed

lemma event_states:
  "state (ctx (snd rs)) \<in> {ONLINE, CLOSING, CLOSED} \<Longrightarrow>
     state (ctx (snd (handle_event E L ev rs))) \<in> {ONLINE, CLOSING, CLOSED}"
  using handle_event_moves [of E L ev rs] by (auto simp: moves_def)

lemma event_offline_table:
  "state (ctx (snd rs)) \<noteq> ONLINE \<Longrightarrow> g_sessions (snd (handle_event E L ev rs)) = g_sessions (snd rs)"
proof (cases ev)
  case (Stanza st)
  assume q: "state (ctx (snd rs)) \<noteq> ONLINE"
  have "g_sessions (stanza_features_received E L st s) = g_sessions s" for s
    by (simp add: stanza_features_received_def)
  moreover have "g_sessions (stanza_sasl E L st s) = g_sessions s" for s
    by (simp add: stanza_sasl_def auth_plain_def auth_scram_def Let_def split: option.splits)
  ultimately show ?thesis using q by (cases "state (ctx (snd rs))") (simp_all add: Stanza on_stanza_def)
qed simp_all

lemma online_table:
  assumes "own_ok (write_ud (ctx (snd rs))) (snd rs)"
  shows "owners (snd (stanza_online E L st rs)) \<subseteq>
      insert (bound_jid (ctx (snd rs)), write_ud (ctx (snd rs))) (owners (snd rs)) \<and>
    table_inv (snd (stanza_online E L st rs))"
proof -
  let ?s = "snd rs"
  have t: "table_inv ?s" "length (bound_jid (ctx ?s)) < JID_BUF_SIZE" using assms by (simp_all add: own_ok_def)
  have iq: "owners (snd (xmpp_iq_dispatch E L st rs)) = owners ?s \<and> table_inv (snd (xmpp_iq_dispatch E L st rs))"
    using server_dispatch_keeps [of ?s E L st "fst rs"] t by (simp add: xmpp_iq_dispatch_def iq_keeps_def)
  have msg: "owners (xmpp_message_handle E L st ?s) = owners ?s \<and> table_inv (xmpp_message_handle E L st ?s)"
    using message_handle_keeps [of ?s E L st] t by (simp add: route_keeps_def)
  have csi: "owners (snd (xep0352_handle_stanza L st ?s)) = owners ?s" "table_inv (snd (xep0352_handle_stanza L st ?s))"
    using owners_cong [of "snd (xep0352_handle_stanza L st ?s)" ?s] table_inv_cong [of "snd (xep0352_handle_stanza L st ?s)" ?s] t
    by simp_all
  have sm: "owners (xep0198_handle_element E L st s) = owners s" "table_inv (xep0198_handle_element E L st s) = table_inv s" for s
    by (rule owners_cong, simp, rule table_inv_cong, simp)
  show ?thesis
    using iq msg csi sm presence_handle_owners [OF t(2), of E L st] presence_handle_table_inv [OF t, of E L st]
    by (auto simp: stanza_online_def Let_def)
qed

lemma event_table:
  assumes "own_ok u (snd rs)" "write_ud (ctx (snd rs)) = u"
  shows "table_step u (snd rs) (snd (handle_event E L ev rs))"
proof (cases "state (ctx (snd rs)) = ONLINE \<and> (\<exists>st. ev = Stanza st)")
  case True
  then obtain st where st: "handle_event E L ev rs = stanza_online E L st rs"
    by (auto simp: on_stanza_def)
  have "owners (snd (handle_event E L ev rs)) \<subseteq> insert (bound_jid (ctx (snd rs)), u) (owners (snd rs))"
      "table_inv (snd (handle_event E L ev rs))"
    using online_table [of rs E L st] assms st by simp_all
  moreover have "bound_jid (ctx (snd (handle_event E L ev rs))) = bound_jid (ctx (snd rs))"
      "state (ctx (snd (handle_event E L ev rs))) = ONLINE"
    using True st stanza_online_keeps [of rs E L st] by (simp_all add: online_keeps_def)
  ultimately show ?thesis using assms(1) by (fastforce simp: table_step_def own_ok_def foreign_def)
next
  case False
  then have "g_sessions (snd (handle_event E L ev rs)) = g_sessions (snd rs)"
    using event_offline_table [of rs E L ev] by (cases ev) auto
  moreover have "length (bound_jid (ctx (snd (handle_event E L ev rs)))) < JID_BUF_SIZE"
    using assms(1) event_jid_length [of rs E L ev] by (simp add: own_ok_def)
  ultimately show ?thesis
    using assms(1) event_states [of rs E L ev] event_bound_jid [of rs E L ev]
    by (intro same_table_step) auto
qed

lemma events_table:
  "own_ok u (snd rs) \<Longrightarrow> write_ud (ctx (snd rs)) = u \<Longrightarrow>
     table_step u (snd rs) (snd (fold (handle_event E L) evs rs))"
proof (induction evs arbitrary: rs)
  case (Cons ev evs)
  have "table_step u (snd rs) (snd (handle_event E L ev rs))"
    using Cons.prems by (rule event_table)
  moreover have "table_step u (snd (handle_event E L ev rs)) (snd (fold (handle_event E L) evs (handle_event E L ev rs)))"
    using Cons.IH [of "handle_event E L ev rs"] Cons.prems calculation by (simp add: table_step_def)
  ultimately show ?case using table_step_trans by fastforce
qed (simp add: table_step_refl)

lemma feed_table:
  assumes "own_ok u (snd (snd ps))"
  shows "table_step u (snd (snd ps)) (snd (snd (snd (xmpp_feed E L P data u ps))))"
proof -
  let ?s1 = "upd (extract_namespaces data) (upd (feed_prepare u) (snd (snd ps)))"
  have s1: "table_step u (snd (snd ps)) ?s1"
    by (rule same_table_step [OF assms]) (use assms in \<open>simp_all add: own_ok_def\<close>)
  have u: "write_ud (ctx ?s1) = u" by (simp add: extract_namespaces_def feed_prepare_def Let_def split: option.splits)
  have err: "table_step u s (send_stream_error E e s)" if "own_ok u s" for s e
    by (rule same_table_step [OF that])
      (use that stream_error_moves [of E e s] in \<open>auto simp: own_ok_def moves_def\<close>)
  have "table_step u (snd (snd ps)) (snd (fold (handle_event E L) evs (fst (snd ps), ?s1)))" for evs
    using s1 events_table [of u "(fst (snd ps), ?s1)" E L evs] u by (auto simp: table_step_def)
  then show ?thesis
    using err by (fastforce simp: xmpp_feed_def Let_def table_step_def)
qed


subsection \<open>The callbacks of a connection\<close>

abbreviation conn_server :: "'p conn \<Rightarrow> server" where
  "conn_server k \<equiv> snd (conn_stream k)"

definition conn_step :: "'p conn \<Rightarrow> 'p conn \<Rightarrow> bool" where
  "conn_step k k' \<longleftrightarrow> conn_sink k' = conn_sink k \<and> table_step (conn_sink k) (conn_server k) (conn_server k')"

lemma conn_step_trans: "conn_step a b \<Longrightarrow> conn_step b c \<Longrightarrow> conn_step a c"
  by (auto simp: conn_step_def intro: table_step_trans)

lemma conn_step_ok: "conn_step a b \<Longrightarrow> own_ok (conn_sink b) (conn_server b)"
  by (simp add: conn_step_def table_step_def)

lemma conn_step_refl: "own_ok (conn_sink k) (conn_server k) \<Longrightarrow> conn_step k k"
  by (simp add: conn_step_def table_step_refl)

lemma conn_feed_step:
  "own_ok (conn_sink k) (conn_server k) \<Longrightarrow> conn_step k (snd (conn_feed E L P data k))"
  using feed_table [of "conn_sink k" "(conn_parser k, conn_stream k)" E L P data]
  by (simp add: conn_feed_def conn_step_def Let_def)

lemma drain_step:
  assumes "own_ok (conn_sink k) (conn_server k)"
  shows "conn_step k (drain_pending_tls E L P ds k)"
proof -
  have "own_ok (conn_sink k) (conn_server k) \<Longrightarrow>
      conn_step k (fold (\<lambda>data k. snd (conn_feed E L P data k)) ds k)" for k
  proof (induction ds arbitrary: k)
    case (Cons d ds)
    note first = conn_feed_step [OF Cons.prems, of E L P d]
    show ?case using conn_step_trans [OF first Cons.IH [OF conn_step_ok [OF first]]] by simp
  qed (simp add: conn_step_refl)
  then show ?thesis using assms by (simp add: drain_pending_tls_def conn_step_refl)
qed

lemma close_step:
  assumes "own_ok (conn_sink k) (conn_server k)"
  shows "conn_step k (close_conn E L P ds k)"
  using drain_step [OF assms, of E L P ds] assms by (simp add: close_conn_def conn_step_def table_step_def)

lemma drain_and_close_step:
  assumes "own_ok (conn_sink k) (conn_server k)"
  shows "conn_step k (drain_and_close E L P io k)"
  using drain_step [OF assms] close_step [OF conn_step_ok] conn_step_trans
  unfolding drain_and_close_def by blast

lemma records_step:
  "own_ok (conn_sink k) (conn_server k) \<Longrightarrow> conn_step k (snd (feed_records E L P ds k))"
proof (induction ds arbitrary: k)
  case (Cons d ds)
  note first = conn_feed_step [OF Cons.prems, of E L P d]
  show ?case using first conn_step_trans [OF first Cons.IH [OF conn_step_ok [OF first]]] by (simp add: Let_def)
qed (simp add: conn_step_refl)

lemma read_tls_step:
  assumes "own_ok (conn_sink k) (conn_server k)"
  shows "conn_step k (read_tls E L P io k)"
proof -
  note first = records_step [OF assms, of E L P "io_records io"]
  note ok = conn_step_ok [OF first]
  show ?thesis
    using first conn_step_trans [OF first close_step [OF ok, of E L P "io_drained io"]]
      conn_step_trans [OF first drain_and_close_step [OF ok, of E L P io]]
    by (simp add: read_tls_def Let_def)
qed

lemma read_plain_step:
  assumes "own_ok (conn_sink k) (conn_server k)"
  shows "conn_step k (read_plain E L P io data k)"
proof -
  let ?k1 = "snd (conn_feed E L P data k)"
  note first = conn_feed_step [OF assms, of E L P data]
  have started: "conn_step k (upd_conn tls_handshake_started ?k1)"
    using first by (auto simp: conn_step_def table_step_def own_ok_def foreign_def owners_def table_inv_def
        tls_handshake_started_def)
  show ?thesis
    using first started conn_step_trans [OF first close_step [OF conn_step_ok [OF first], of E L P "io_drained io"]]
      conn_step_trans [OF started close_step [OF conn_step_ok [OF started], of E L P "io_drained io"]]
    by (simp add: read_plain_def Let_def conn_step_def)
qed

text \<open>The handshake ends with no resource bound, so the connection has no entry then.\<close>

lemma handshake_step:
  assumes "own_ok (conn_sink k) (conn_server k)" "bound_jid (conn_ctx k) = []"
  shows "conn_step k (upd_conn tls_handshake_done (k\<lparr>tls_hs_done := True\<rparr>))"
proof -
  have "(j, conn_sink k) \<notin> owners (conn_server k)" for j
    using assms owners_nonempty [of "conn_server k" j "conn_sink k"] by (auto simp: own_ok_def)
  then show ?thesis
    using assms
    by (auto simp: conn_step_def table_step_def own_ok_def foreign_def owners_def table_inv_def tls_handshake_done_def)
qed

lemma read_cb_step:
  assumes "own_ok (conn_sink k) (conn_server k)" "conn_inv k"
  shows "conn_step k (read_cb E L P io rd k)"
proof -
  let ?k1 = "upd_conn tls_handshake_done (k\<lparr>tls_hs_done := True\<rparr>)"
  have done1: "conn_step k (read_tls E L P io ?k1)" if "\<not> tls_hs_done k"
  proof -
    have "conn_step k ?k1" using assms that by (intro handshake_step) (simp_all add: conn_inv_def)
    then show ?thesis using read_tls_step conn_step_ok conn_step_trans by blast
  qed
  show ?thesis
    using assms(1) done1
    by (auto simp: read_cb_def conn_step_refl close_step drain_and_close_step read_tls_step read_plain_step
        split: option.split handshake.split)
qed

subsection \<open>No entry points to a freed connection\<close>

definition conn_live :: "sink \<Rightarrow> nat \<Rightarrow> 'p conn \<Rightarrow> bool" where
  "conn_live i n k \<longleftrightarrow> conn_sink k = i \<and> i < n \<and> conn_inv k \<and> length (bound_jid (conn_ctx k)) < JID_BUF_SIZE"

definition entry_live :: "'p server_loop \<Rightarrow> cstr \<Rightarrow> sink \<Rightarrow> bool" where
  "entry_live w j u \<longleftrightarrow> (\<exists>k. sl_conns w u = Some k \<and> bound_jid (conn_ctx k) = j \<and>
     state (conn_ctx k) \<in> {ONLINE, CLOSING, CLOSED})"

definition loop_inv :: "'p server_loop \<Rightarrow> bool" where
  "loop_inv w \<longleftrightarrow> table_inv (snd (sl_shared w)) \<and>
     (\<forall>i k. sl_conns w i = Some k \<longrightarrow> conn_live i (g_next_id w) k) \<and>
     (\<forall>j u. (j, u) \<in> owners (snd (sl_shared w)) \<longrightarrow> entry_live w j u)"

lemma loop_inv_owner:
  "loop_inv w \<Longrightarrow> (j, u) \<in> owners (snd (sl_shared w)) \<Longrightarrow>
     \<exists>k. sl_conns w u = Some k \<and> bound_jid (conn_ctx k) = j \<and> state (conn_ctx k) \<in> {ONLINE, CLOSING, CLOSED}"
  by (simp add: loop_inv_def entry_live_def)

lemma enter_conn_simps [simp]:
  "conn_sink (enter_conn sh k) = conn_sink k" "conn_ctx (enter_conn sh k) = conn_ctx k"
  "conn_open (enter_conn sh k) = conn_open k" "conn_inv (enter_conn sh k) = conn_inv k"
  "owners (conn_server (enter_conn sh k)) = owners (snd sh)"
  "table_inv (conn_server (enter_conn sh k)) = table_inv (snd sh)"
  by (simp_all add: enter_conn_def conn_inv_def owners_def table_inv_def)

lemma enter_conn_ok:
  assumes "loop_inv w" "sl_conns w i = Some k"
  shows "own_ok i (conn_server (enter_conn (sl_shared w) k))"
  using assms by (fastforce simp: loop_inv_def own_ok_def conn_live_def entry_live_def)

text \<open>What a connection may do to its own session and to the table keeps the invariant.\<close>

lemma leave_conn_inv:
  assumes "loop_inv w" "sl_conns w i = Some k" "conn_step (enter_conn (sl_shared w) k) k'" "conn_inv k'"
  shows "loop_inv (leave_conn i k' w)"
proof -
  have i: "conn_sink k = i" "i < g_next_id w" using assms(1,2) by (auto simp: loop_inv_def conn_live_def)
  then have k': "conn_sink k' = i" "own_ok i (conn_server k')"
      "foreign i (conn_server k') \<subseteq> foreign i (conn_server (enter_conn (sl_shared w) k))"
    using assms(3) by (auto simp: conn_step_def table_step_def)
  then have live: "conn_live i (g_next_id w) k'" using i assms(4) by (simp add: conn_live_def own_ok_def)
  have "entry_live (leave_conn i k' w) j u" if e: "(j, u) \<in> owners (conn_server k')" for j u
  proof (cases "u = i")
    case True
    then show ?thesis using e k'(2) by (auto simp: own_ok_def entry_live_def leave_conn_def)
  next
    case False
    then have "(j, u) \<in> owners (snd (sl_shared w))" using e k'(3) by (auto simp: foreign_def)
    then show ?thesis using False assms(1) by (auto simp: loop_inv_def entry_live_def leave_conn_def)
  qed
  then show ?thesis
    using live assms(1) k'(2) by (auto simp: loop_inv_def leave_conn_def own_ok_def)
qed

lemma read_conn_inv:
  assumes "header_first P" "loop_inv w"
  shows "loop_inv (read_conn E L P io rd i w)"
proof (cases "sl_conns w i")
  case (Some k)
  let ?k = "enter_conn (sl_shared w) k"
  have k: "conn_sink k = i" "conn_inv k" using assms(2) Some by (auto simp: loop_inv_def conn_live_def)
  have "conn_step ?k (read_cb E L P io rd ?k)"
    using enter_conn_ok [OF assms(2) Some] k by (intro read_cb_step) simp_all
  moreover have "conn_inv (read_cb E L P io rd ?k)" if "conn_open k"
    using read_cb_inv [OF assms(1), of ?k] k that by simp
  ultimately show ?thesis
    using leave_conn_inv [OF assms(2) Some] assms(2) Some by (simp add: read_conn_def)
qed (simp add: read_conn_def assms)

lemma accept_conn_inv: "loop_inv w \<Longrightarrow> loop_inv (accept_conn E P status accepted w)"
proof -
  let ?k = "on_new_connection E P (g_next_id w) (sl_shared w)"
  assume w: "loop_inv w"
  have fresh: "sl_conns w (g_next_id w) = None"
    using w by (cases "sl_conns w (g_next_id w)") (auto simp: loop_inv_def conn_live_def)
  then have unowned: "(j, g_next_id w) \<notin> owners (snd (sl_shared w))" for j
    using loop_inv_owner [OF w] by fastforce
  have k: "conn_live (g_next_id w) (g_next_id w + 1) (?k\<lparr>conn_open := a\<rparr>)" for a
    by (simp add: conn_live_def conn_inv_def on_new_connection_def xmpp_session_reset_def session_reset_def
        plain_states_def attempts_ok_def session0_def)
  have o: "owners (conn_server ?k) = owners (snd (sl_shared w))" "table_inv (conn_server ?k) = table_inv (snd (sl_shared w))"
    by (simp_all add: on_new_connection_def xmpp_session_reset_def owners_def table_inv_def)
  have old: "conn_live i n c \<Longrightarrow> conn_live i (Suc n) c" for i n and c :: "'a conn"
    by (auto simp: conn_live_def)
  show "loop_inv (accept_conn E P status accepted w)"
    using w k o old fresh unowned
    by (auto simp: loop_inv_def accept_conn_def leave_conn_def entry_live_def Let_def)
qed

lemma on_conn_close_owners:
  assumes "own_ok i (conn_server k)"
  shows "owners (conn_server (on_conn_close E k)) \<subseteq> foreign i (conn_server k)"
    "table_inv (conn_server (on_conn_close E k))"
proof -
  let ?j = "bound_jid (conn_ctx k)"
  have t: "table_inv (conn_server k)" using assms by (simp add: own_ok_def)
  note disconnect = presence_disconnect_owners [OF t, where E = E and j = ?j and b = "bare ?j"]
  show "table_inv (conn_server (on_conn_close E k))"
    using t presence_disconnect_table_inv by (simp add: on_conn_close_def Let_def)
  show "owners (conn_server (on_conn_close E k)) \<subseteq> foreign i (conn_server k)"
    using assms disconnect owners_nonempty [OF t]
    by (auto simp: own_ok_def foreign_def on_conn_close_def Let_def)
qed

lemma closed_conn_inv:
  assumes "loop_inv w"
  shows "loop_inv (closed_conn E i w)"
proof (cases "sl_conns w i")
  case (Some k)
  let ?s = "conn_server (on_conn_close E (enter_conn (sl_shared w) k))"
  note close = on_conn_close_owners [OF enter_conn_ok [OF assms Some], of E]
  have "(j, u) \<in> owners (snd (sl_shared w)) \<and> u \<noteq> i" if "(j, u) \<in> owners ?s" for j u
    using that close(1) by (auto simp: foreign_def)
  then show ?thesis
    using assms Some close(2) by (auto simp: loop_inv_def closed_conn_def entry_live_def)
qed (simp add: closed_conn_def assms)

lemma close_walk_inv:
  assumes "loop_inv w"
  shows "loop_inv (close_walk_cb i w)"
proof (cases "sl_conns w i")
  case (Some k)
  let ?w = "close_walk_cb i w"
  have "conn_live i n k \<Longrightarrow> conn_live i n (k\<lparr>conn_open := False\<rparr>)" for n
    by (auto simp: conn_live_def conn_inv_def)
  moreover have "entry_live w j u \<Longrightarrow> entry_live ?w j u" for j u
    using Some by (auto simp: close_walk_cb_def entry_live_def)
  ultimately show ?thesis
    using assms Some by (auto simp: close_walk_cb_def loop_inv_def)
qed (simp add: close_walk_cb_def assms)

lemma on_signal_inv: "loop_inv w \<Longrightarrow> loop_inv (on_signal handles w)"
  unfolding on_signal_def by (induction handles arbitrary: w) (simp_all add: close_walk_inv)

lemma loop_reachable_inv:
  assumes "header_first P" "loop_reachable L P w"
  shows "loop_inv w"
  using assms(2)
proof induction
  case (start sh)
  then show ?case by (simp add: loop_inv_def owners_def table_inv_def entries_ok_def)
qed (simp_all add: accept_conn_inv read_conn_inv [OF assms(1)] closed_conn_inv on_signal_inv)


subsection \<open>Shutting down\<close>

lemma close_walk_conns:
  "sl_conns (close_walk_cb i w) u =
     (if u = i then map_option (\<lambda>k. k\<lparr>conn_open := False\<rparr>) (sl_conns w u) else sl_conns w u)"
  by (simp add: close_walk_cb_def split: option.split)

lemma on_signal_conns:
  "sl_conns (on_signal handles w) u =
     (if u \<in> set handles then map_option (\<lambda>k. k\<lparr>conn_open := False\<rparr>) (sl_conns w u) else sl_conns w u)"
  unfolding on_signal_def
  by (induction handles arbitrary: w) (simp_all add: close_walk_conns option.map_comp comp_def)

lemma closed_conn_conns:
  "sl_conns (closed_conn E i w) u =
     (if u = i \<and> (\<exists>k. sl_conns w u = Some k \<and> \<not> conn_open k) then None else sl_conns w u)"
  by (auto simp: closed_conn_def split: option.split)

lemma all_closed:
  assumes "\<And>u k. sl_conns w u = Some k \<Longrightarrow> \<not> conn_open k \<and> u \<in> set order"
  shows "sl_conns (fold (closed_conn E) order w) = Map.empty"
  using assms
proof (induction order arbitrary: w)
  case Nil
  then show ?case by (metis (no_types, lifting) empty_iff ext fold_simps(1) list.set(1) not_None_eq)
next
  case (Cons i order)
  have "\<not> conn_open k \<and> u \<in> set order" if "sl_conns (closed_conn E i w) u = Some k" for u k
    using that Cons.prems [of u] by (auto simp: closed_conn_conns split: if_splits)
  with Cons.IH show ?case by simp
qed

lemma closed_order_inv: "loop_inv w \<Longrightarrow> loop_inv (fold (closed_conn E) order w)"
  by (induction order arbitrary: w) (simp_all add: closed_conn_inv)

lemma shutdown_clears:
  assumes "loop_inv w" "dom (sl_conns w) \<subseteq> set handles" "set handles \<subseteq> set order"
  shows "sl_conns (fold (closed_conn E) order (on_signal handles w)) = Map.empty"
    "g_sessions (snd (sl_shared (fold (closed_conn E) order (on_signal handles w)))) = []"
proof -
  let ?w = "fold (closed_conn E) order (on_signal handles w)"
  show c: "sl_conns ?w = Map.empty"
    by (rule all_closed) (use assms(2,3) in \<open>auto simp: on_signal_conns split: if_splits\<close>)
  have "loop_inv ?w" using assms(1) by (simp add: closed_order_inv on_signal_inv)
  then have "owners (snd (sl_shared ?w)) = {}" using c by (auto simp: loop_inv_def entry_live_def)
  then show "g_sessions (snd (sl_shared ?w)) = []" by (simp add: owners_def)
qed

lemma entry_connection:
  assumes "loop_inv w" "e \<in> set (g_sessions (snd (sl_shared w)))"
  shows "\<exists>k. sl_conns w (e_write_ud e) = Some k \<and> conn_sink k = e_write_ud e \<and>
    bound_jid (conn_ctx k) = e_jid e \<and> state (conn_ctx k) \<in> {ONLINE, CLOSING, CLOSED} \<and> tls_hs_done k"
proof -
  have e: "(e_jid e, e_write_ud e) \<in> owners (snd (sl_shared w))" using assms(2) by (simp add: owners_def)
  then obtain k where k: "sl_conns w (e_write_ud e) = Some k" "bound_jid (conn_ctx k) = e_jid e"
      "state (conn_ctx k) \<in> {ONLINE, CLOSING, CLOSED}"
    using assms(1) unfolding loop_inv_def entry_live_def by blast
  then have "conn_live (e_write_ud e) (g_next_id w) k" using assms(1) by (simp add: loop_inv_def)
  moreover have "e_jid e \<noteq> []" using owners_nonempty [OF _ e] assms(1) by (simp add: loop_inv_def)
  ultimately show ?thesis using k by (auto simp: conn_live_def conn_inv_def)
qed

subsection \<open>The connections of the loop\<close>

text \<open>Every connection the loop holds is one of the reachable connections of \<open>Connection\<close>, so all
  that holds of those holds of it.\<close>

lemma loop_conns_reachable:
  "loop_reachable L P w \<Longrightarrow> sl_conns w i = Some k \<Longrightarrow> reachable L P k"
proof (induction arbitrary: i k rule: loop_reachable.induct)
  case (accept w E status accepted)
  let ?k = "on_new_connection E P (g_next_id w) (sl_shared w)"
  have "reachable L P ?k" by (rule reachable.accept)
  then have "reachable L P (?k\<lparr>conn_open := accepted\<rparr>)"
    using reachable.closing [of L P ?k] by (cases accepted) (simp_all add: on_new_connection_def)
  with accept show ?case by (auto simp: accept_conn_def leave_conn_def Let_def split: if_splits)
next
  case (read w E io rd j)
  then show ?case
    by (auto simp: read_conn_def leave_conn_def reachable.others reachable.read
        split: option.splits if_splits)
next
  case (closed w E j)
  then show ?case by (auto simp: closed_conn_def split: option.splits if_splits)
next
  case (signal w handles)
  then show ?case by (auto simp: on_signal_conns reachable.closing split: if_splits)
qed simp

end
