(* ===== verification/Tls_Input.thy ===== *)
theory Tls_Input
  imports Prelude
begin

text \<open>
  The bytes a connection has received and mbedTLS has not yet asked for
  (\<^verbatim>\<open>tls_in_buf\<close>, \<^verbatim>\<open>tls_in_len\<close> and \<^verbatim>\<open>tls_in_pos\<close> of \<^verbatim>\<open>conn_t\<close> in
  \<^verbatim>\<open>server.c\<close>): an array with a read and a write position. \<^verbatim>\<open>read_cb\<close> moves what is
  unread to the front and appends, \<^verbatim>\<open>bio_recv\<close> hands bytes to mbedTLS. The locale
  \<open>byte_fifo\<close> says what a receive queue promises, and what follows for any sequence of
  operations; the buffer is an instance.
\<close>

subsection \<open>The contract of a receive queue\<close>

datatype fifo_op = Push cstr | Pull nat

text \<open>A sequence of operations, with everything that was accepted and everything handed out.\<close>

fun fifo_run :: "(cstr \<Rightarrow> 'b \<Rightarrow> bool \<times> 'b) \<Rightarrow> (nat \<Rightarrow> 'b \<Rightarrow> cstr option \<times> 'b) \<Rightarrow>
    fifo_op list \<Rightarrow> 'b \<Rightarrow> cstr \<times> cstr \<times> 'b" where
  "fifo_run push pull [] b = ([], [], b)"
| "fifo_run push pull (Push d # ops) b =
     (let (p, b1) = push d b; (i, out, b2) = fifo_run push pull ops b1
      in ((if p then d else []) @ i, out, b2))"
| "fifo_run push pull (Pull n # ops) b =
     (let (r, b1) = pull n b; (i, out, b2) = fifo_run push pull ops b1
      in (i, (case r of None \<Rightarrow> [] | Some d \<Rightarrow> d) @ out, b2))"

locale byte_fifo =
  fixes valid :: "'b \<Rightarrow> bool"
    and contents :: "'b \<Rightarrow> cstr"
    and push :: "cstr \<Rightarrow> 'b \<Rightarrow> bool \<times> 'b"
    and pull :: "nat \<Rightarrow> 'b \<Rightarrow> cstr option \<times> 'b"
    and cap :: nat
  assumes valid_bound: "valid b \<Longrightarrow> length (contents b) \<le> cap"
    and push_valid: "valid b \<Longrightarrow> valid (snd (push d b))"
    and pull_valid: "valid b \<Longrightarrow> valid (snd (pull n b))"
    and push_fits: "valid b \<Longrightarrow> fst (push d b) \<longleftrightarrow> length (contents b) + length d \<le> cap"
    and push_contents: "valid b \<Longrightarrow>
      contents (snd (push d b)) = (if fst (push d b) then contents b @ d else contents b)"
    and pull_result: "valid b \<Longrightarrow>
      fst (pull n b) = (if contents b = [] then None else Some (take n (contents b)))"
    and pull_contents: "valid b \<Longrightarrow> contents (snd (pull n b)) = drop n (contents b)"
begin

lemma fifo_run_valid: "valid b \<Longrightarrow> valid (snd (snd (fifo_run push pull ops b)))"
proof (induction ops arbitrary: b)
  case (Cons x ops)
  then show ?case
    using push_valid [of b] pull_valid [of b]
    by (cases x) (auto simp: split_beta Let_def)
qed simp

lemma pull_out: "valid b \<Longrightarrow> (case fst (pull n b) of None \<Rightarrow> [] | Some d \<Rightarrow> d) = take n (contents b)"
  by (simp add: pull_result)

lemma fifo_run_in_order:
  "valid b \<Longrightarrow>
     contents b @ fst (fifo_run push pull ops b) =
     fst (snd (fifo_run push pull ops b)) @ contents (snd (snd (fifo_run push pull ops b)))"
proof (induction ops arbitrary: b)
  case (Cons x ops)
  show ?case
  proof (cases x)
    case (Push d)
    then show ?thesis
      using Cons.IH [OF push_valid [OF Cons.prems, of d]] push_contents [OF Cons.prems, of d]
      by (auto simp: split_beta Let_def split: if_splits)
  next
    case (Pull n)
    let ?r = "fifo_run push pull ops (snd (pull n b))"
    have "contents b @ fst ?r = take n (contents b) @ contents (snd (pull n b)) @ fst ?r"
      by (simp add: pull_contents [OF Cons.prems] flip: append_assoc)
    also have "\<dots> = take n (contents b) @ fst (snd ?r) @ contents (snd (snd ?r))"
      using Cons.IH [OF pull_valid [OF Cons.prems, of n]] by simp
    finally show ?thesis
      using pull_out [OF Cons.prems, of n] Pull by (simp add: split_beta Let_def)
  qed
qed simp

lemma fifo_run_bound: "valid b \<Longrightarrow> length (contents (snd (snd (fifo_run push pull ops b)))) \<le> cap"
  by (rule valid_bound [OF fifo_run_valid])

end

subsection \<open>The buffer\<close>

abbreviation TLS_IN_BUF_SIZE :: nat where
  "TLS_IN_BUF_SIZE \<equiv> 16896"

record tls_buf =
  tls_in_buf :: cstr
  tls_in_len :: nat
  tls_in_pos :: nat

text \<open>\<^verbatim>\<open>memcpy(buf + off, data, n)\<close> and \<^verbatim>\<open>memmove\<close> on an array.\<close>

definition mem_write :: "nat \<Rightarrow> cstr \<Rightarrow> cstr \<Rightarrow> cstr" where
  "mem_write off data mem = take off mem @ data @ drop (off + length data) mem"

definition mem_read :: "nat \<Rightarrow> nat \<Rightarrow> cstr \<Rightarrow> cstr" where
  "mem_read off n mem = take n (drop off mem)"

text \<open>The reset of the two positions in \<^verbatim>\<open>conn_init_tls\<close>; the array keeps its bytes.\<close>

definition tls_in_reset :: "tls_buf \<Rightarrow> tls_buf" where
  "tls_in_reset b = b\<lparr>tls_in_len := 0, tls_in_pos := 0\<rparr>"

text \<open>Zeroed memory of \<^verbatim>\<open>calloc\<close>.\<close>

definition tls_in_new :: tls_buf where
  "tls_in_new = \<lparr> tls_in_buf = replicate TLS_IN_BUF_SIZE (CHR 0x00), tls_in_len = 0, tls_in_pos = 0 \<rparr>"

text \<open>\<^verbatim>\<open>bio_recv\<close>: \<^term>\<open>None\<close> is \<^verbatim>\<open>MBEDTLS_ERR_SSL_WANT_READ\<close>.\<close>

definition bio_recv :: "nat \<Rightarrow> tls_buf \<Rightarrow> cstr option \<times> tls_buf" where
  "bio_recv len b =
     (let avail = tls_in_len b - tls_in_pos b in
      if avail = 0 then (None, b)
      else
        (let n = (if avail < len then avail else len)
         in (Some (mem_read (tls_in_pos b) n (tls_in_buf b)), b\<lparr>tls_in_pos := tls_in_pos b + n\<rparr>)))"

text \<open>Moving the unread bytes to the front of the array.\<close>

definition tls_compact :: "tls_buf \<Rightarrow> tls_buf" where
  "tls_compact b =
     (if tls_in_pos b > 0 then
        (let rem = tls_in_len b - tls_in_pos b;
             mem = (if rem > 0 then mem_write 0 (mem_read (tls_in_pos b) rem (tls_in_buf b)) (tls_in_buf b)
                    else tls_in_buf b)
         in \<lparr> tls_in_buf = mem, tls_in_len = rem, tls_in_pos = 0 \<rparr>)
      else b)"

text \<open>Appending what was read; \<^term>\<open>False\<close> is the overflow that closes the connection.\<close>

definition tls_append :: "cstr \<Rightarrow> tls_buf \<Rightarrow> bool \<times> tls_buf" where
  "tls_append data b =
     (let b1 = tls_compact b in
      if tls_in_len b1 + length data > TLS_IN_BUF_SIZE then (False, b1)
      else (True, b1\<lparr>tls_in_buf := mem_write (tls_in_len b1) data (tls_in_buf b1),
                     tls_in_len := tls_in_len b1 + length data\<rparr>))"

subsection \<open>The buffer is a receive queue\<close>

definition tls_buf_ok :: "tls_buf \<Rightarrow> bool" where
  "tls_buf_ok b \<longleftrightarrow> length (tls_in_buf b) = TLS_IN_BUF_SIZE \<and> tls_in_pos b \<le> tls_in_len b \<and>
     tls_in_len b \<le> TLS_IN_BUF_SIZE"

definition unread :: "tls_buf \<Rightarrow> cstr" where
  "unread b = mem_read (tls_in_pos b) (tls_in_len b - tls_in_pos b) (tls_in_buf b)"

lemma length_mem_write [simp]:
  "off + length data \<le> length mem \<Longrightarrow> length (mem_write off data mem) = length mem"
  by (simp add: mem_write_def)

lemma length_mem_read [simp]: "off + n \<le> length mem \<Longrightarrow> length (mem_read off n mem) = n"
  by (simp add: mem_read_def)

lemma length_unread: "tls_buf_ok b \<Longrightarrow> length (unread b) = tls_in_len b - tls_in_pos b"
  by (simp add: unread_def tls_buf_ok_def)

lemma unread_empty: "tls_buf_ok b \<Longrightarrow> unread b = [] \<longleftrightarrow> tls_in_len b \<le> tls_in_pos b"
  using length_unread [of b] by (cases "unread b") auto

lemma mem_read_front: "mem_read 0 (length data) (mem_write 0 data mem) = data"
  by (simp add: mem_read_def mem_write_def)

lemma mem_read_written:
  "n \<le> length mem \<Longrightarrow> mem_read 0 (n + length data) (mem_write n data mem) = mem_read 0 n mem @ data"
  by (simp add: mem_read_def mem_write_def)

lemma tls_compact_ok:
  assumes "tls_buf_ok b"
  shows "tls_buf_ok (tls_compact b)" "unread (tls_compact b) = unread b" "tls_in_pos (tls_compact b) = 0"
proof -
  let ?r = "tls_in_len b - tls_in_pos b"
  have l: "length (mem_read (tls_in_pos b) ?r (tls_in_buf b)) = ?r"
    using assms by (simp add: tls_buf_ok_def)
  then show "tls_buf_ok (tls_compact b)"
    using assms by (auto simp: tls_buf_ok_def tls_compact_def Let_def)
  have "mem_read 0 ?r (mem_write 0 (mem_read (tls_in_pos b) ?r (tls_in_buf b)) (tls_in_buf b)) =
      mem_read (tls_in_pos b) ?r (tls_in_buf b)"
    using mem_read_front [of "mem_read (tls_in_pos b) ?r (tls_in_buf b)"] l by simp
  then show "unread (tls_compact b) = unread b"
    by (auto simp: unread_def tls_compact_def Let_def mem_read_def)
  show "tls_in_pos (tls_compact b) = 0"
    by (simp add: tls_compact_def Let_def)
qed

lemma tls_append_ok:
  assumes "tls_buf_ok b"
  shows "tls_buf_ok (snd (tls_append d b))"
    and "fst (tls_append d b) \<longleftrightarrow> length (unread b) + length d \<le> TLS_IN_BUF_SIZE"
    and "unread (snd (tls_append d b)) = (if fst (tls_append d b) then unread b @ d else unread b)"
proof -
  note c = tls_compact_ok [OF assms]
  have l: "tls_in_len (tls_compact b) = length (unread b)"
    using length_unread [OF c(1)] c(2,3) by simp
  show "fst (tls_append d b) \<longleftrightarrow> length (unread b) + length d \<le> TLS_IN_BUF_SIZE"
    using l by (simp add: tls_append_def Let_def)
  show "tls_buf_ok (snd (tls_append d b))"
    using c(1,3) by (auto simp: tls_append_def Let_def tls_buf_ok_def)
  have "mem_read 0 (tls_in_len (tls_compact b)) (tls_in_buf (tls_compact b)) = unread b"
    using c(2,3) by (simp add: unread_def)
  then show "unread (snd (tls_append d b)) = (if fst (tls_append d b) then unread b @ d else unread b)"
    using c l mem_read_written [of "tls_in_len (tls_compact b)" "tls_in_buf (tls_compact b)" d]
    by (auto simp: tls_append_def Let_def unread_def tls_buf_ok_def)
qed

lemma bio_recv_ok:
  assumes "tls_buf_ok b"
  shows "tls_buf_ok (snd (bio_recv n b))"
    and "fst (bio_recv n b) = (if unread b = [] then None else Some (take n (unread b)))"
    and "unread (snd (bio_recv n b)) = drop n (unread b)"
proof -
  show "tls_buf_ok (snd (bio_recv n b))"
    using assms by (auto simp: bio_recv_def Let_def tls_buf_ok_def)
  show "fst (bio_recv n b) = (if unread b = [] then None else Some (take n (unread b)))"
    using unread_empty [OF assms]
    by (auto simp: bio_recv_def Let_def unread_def mem_read_def min_def)
  show "unread (snd (bio_recv n b)) = drop n (unread b)"
    using assms by (auto simp: bio_recv_def Let_def unread_def mem_read_def tls_buf_ok_def drop_take add.commute)
qed

lemma tls_in_new_ok: "tls_buf_ok tls_in_new"
  by (simp add: tls_buf_ok_def tls_in_new_def)

lemma tls_in_reset_ok: "tls_buf_ok b \<Longrightarrow> tls_buf_ok (tls_in_reset b)"
  by (simp add: tls_buf_ok_def tls_in_reset_def)

lemma unread_reset [simp]: "unread (tls_in_reset b) = []"
  by (simp add: unread_def tls_in_reset_def mem_read_def)

interpretation tls_in: byte_fifo tls_buf_ok unread tls_append bio_recv TLS_IN_BUF_SIZE
proof
  show "tls_buf_ok b \<Longrightarrow> length (unread b) \<le> TLS_IN_BUF_SIZE" for b
    using length_unread [of b] by (auto simp: tls_buf_ok_def)
qed (rule tls_append_ok bio_recv_ok; assumption)+

text \<open>C11: the input buffer hands mbedTLS the received bytes in order, without loss or
  duplication: after any sequence of appends and reads of any sizes, what was unread followed
  by what was accepted is what was handed out followed by what is unread; the positions stay
  within the array.\<close>

theorem tls_bytes_in_order:
  assumes "tls_buf_ok b" "fifo_run tls_append bio_recv ops b = (accepted, out, b')"
  shows "unread b @ accepted = out @ unread b' \<and> tls_buf_ok b'"
  using tls_in.fifo_run_in_order [OF assms(1), of ops] tls_in.fifo_run_valid [OF assms(1), of ops] assms(2)
  by simp

theorem tls_bytes_in_order_witness:
  "\<exists>b'. fifo_run tls_append bio_recv [Push ''ab'', Pull 1, Push ''c'', Pull 5] tls_in_new =
     (''abc'', ''abc'', b') \<and> unread b' = [] \<and> tls_buf_ok b'"
proof -
  let ?r = "fifo_run tls_append bio_recv [Push ''ab'', Pull 1, Push ''c'', Pull 5] tls_in_new"
  have new: "unread tls_in_new = []" by (simp add: unread_def tls_in_new_def mem_read_def)
  have a: "fst ?r = ''abc''" and o: "fst (snd ?r) = ''abc''"
    using new by (simp_all add: split_beta Let_def tls_append_ok bio_recv_ok tls_in_new_ok)
  have "unread tls_in_new @ fst ?r = fst (snd ?r) @ unread (snd (snd ?r)) \<and> tls_buf_ok (snd (snd ?r))"
    by (rule tls_bytes_in_order [OF tls_in_new_ok, of "[Push ''ab'', Pull 1, Push ''c'', Pull 5]"])
      (simp only: prod.collapse)
  then have "unread (snd (snd ?r)) = []" "tls_buf_ok (snd (snd ?r))" using a o new by simp_all
  then show ?thesis using a o by (metis prod.collapse)
qed

end
