(* ===== verification/Tls_Connection.thy ===== *)
theory Tls_Connection
  imports Connection Tls_Input
begin

text \<open>
  The read callback of \<^verbatim>\<open>server.c\<close> in full: the input buffer, the loops around
  \<^verbatim>\<open>mbedtls_ssl_read\<close>, and the set-up of TLS on a connection.
  mbedTLS is the record \<open>ssl\<close> of its functions. A function that reads from the network sees
  the unread bytes of the input buffer, which it takes with \<^verbatim>\<open>bio_recv\<close>, and reports how
  many it took. Every step of this model is a step of the connection of \<open>Connection\<close> with the
  report (\<open>tls_reports\<close>) of what mbedTLS returned on the received bytes, so what holds there
  holds here.
\<close>

subsection \<open>mbedTLS\<close>

datatype ssl_result = Ssl_want_read | Ssl_want_write | Ssl_close_notify | Ssl_failed | Ssl_data cstr

text \<open>The result of \<^verbatim>\<open>mbedtls_ssl_setup\<close>, the handshake and reading, each with the number of
  bytes it consumed; whether the context holds a complete record; the context after the writes
  that feeding the stream made, given the log of all writes.\<close>

record 'e ssl =
  ssl_setup :: "'e option"
  ssl_handshake :: "'e \<Rightarrow> cstr \<Rightarrow> handshake \<times> nat \<times> 'e"
  ssl_read :: "'e \<Rightarrow> cstr \<Rightarrow> ssl_result \<times> nat \<times> 'e"
  ssl_check_pending :: "'e \<Rightarrow> bool"
  ssl_written :: "(sink \<times> cstr) list \<Rightarrow> 'e \<Rightarrow> 'e"

text \<open>
  Reading conserves bytes: it takes no more than the buffer has, what it returns was held in
  the context or taken from the buffer (a record is longer than its payload), and writing
  does not make it hold more. \<open>held\<close> counts the bytes in the context that were taken from the
  buffer and not yet returned.
\<close>

definition ssl_conserves :: "'e ssl \<Rightarrow> ('e \<Rightarrow> nat) \<Rightarrow> bool" where
  "ssl_conserves S held \<longleftrightarrow>
     (\<forall>e inp r n e'. ssl_read S e inp = (r, n, e') \<longrightarrow>
        n \<le> length inp \<and> (\<forall>d. r = Ssl_data d \<longrightarrow> held e' + length d \<le> held e + n)) \<and>
     (\<forall>log e. held (ssl_written S log e) \<le> held e)"

subsection \<open>The connection with its buffer and TLS context\<close>

record ('p, 'e) tls_conn =
  tc_conn :: "'p conn"
  tc_in :: tls_buf
  tc_ssl :: 'e

definition tls_read :: "'e ssl \<Rightarrow> ('p, 'e) tls_conn \<Rightarrow> ssl_result \<times> ('p, 'e) tls_conn" where
  "tls_read S k =
     (let r = ssl_read S (tc_ssl k) (unread (tc_in k))
      in (fst r, k\<lparr>tc_in := snd (bio_recv (fst (snd r)) (tc_in k)), tc_ssl := snd (snd r)\<rparr>))"

definition tls_feed :: "env \<Rightarrow> 's strophe \<Rightarrow> ('p, 's) xml_parser \<Rightarrow> 'e ssl \<Rightarrow> cstr \<Rightarrow> ('p, 'e) tls_conn \<Rightarrow>
    int \<times> ('p, 'e) tls_conn" where
  "tls_feed E L P S data k =
     (let r = conn_feed E L P data (tc_conn k)
      in (fst r, k\<lparr>tc_conn := snd r,
                   tc_ssl := ssl_written S (sent (snd (conn_stream (snd r)))) (tc_ssl k)\<rparr>))"

text \<open>The loop of \<^verbatim>\<open>drain_pending_tls\<close>.\<close>

definition drain_body :: "env \<Rightarrow> 's strophe \<Rightarrow> ('p, 's) xml_parser \<Rightarrow> 'e ssl \<Rightarrow>
    ('p, 'e) tls_conn \<Rightarrow> ('p, 'e) tls_conn + ('p, 'e) tls_conn" where
  "drain_body E L P S k =
     (let x = tls_read S k in
      case fst x of
        Ssl_data d \<Rightarrow> if d = [] then Inr (snd x) else Inl (snd (tls_feed E L P S d (snd x)))
      | _ \<Rightarrow> Inr (snd x))"

definition drain_loop :: "env \<Rightarrow> 's strophe \<Rightarrow> ('p, 's) xml_parser \<Rightarrow> 'e ssl \<Rightarrow>
    ('p, 'e) tls_conn \<Rightarrow> ('p, 'e) tls_conn option" where
  "drain_loop E L P S = iterate (drain_body E L P S)"

definition tls_drain :: "env \<Rightarrow> 's strophe \<Rightarrow> ('p, 's) xml_parser \<Rightarrow> 'e ssl \<Rightarrow>
    ('p, 'e) tls_conn \<Rightarrow> ('p, 'e) tls_conn option" where
  "tls_drain E L P S k =
     (if \<not> is_tls (tc_conn k) \<or> \<not> tls_hs_done (tc_conn k) then Some k else drain_loop E L P S k)"

definition tls_close :: "env \<Rightarrow> 's strophe \<Rightarrow> ('p, 's) xml_parser \<Rightarrow> 'e ssl \<Rightarrow>
    ('p, 'e) tls_conn \<Rightarrow> ('p, 'e) tls_conn option" where
  "tls_close E L P S k =
     (if \<not> conn_open (tc_conn k) then Some k
      else map_option (\<lambda>k1. k1\<lparr>tc_conn := (tc_conn k1)\<lparr>conn_open := False\<rparr>\<rparr>)
             (tls_drain E L P S k))"

definition tls_drain_close :: "env \<Rightarrow> 's strophe \<Rightarrow> ('p, 's) xml_parser \<Rightarrow> 'e ssl \<Rightarrow>
    ('p, 'e) tls_conn \<Rightarrow> ('p, 'e) tls_conn option" where
  "tls_drain_close E L P S k = Option.bind (tls_drain E L P S k) (tls_close E L P S)"

text \<open>How the loop over the records of one read callback ends.\<close>

datatype loop_end = Loop_wait | Loop_close | Loop_ended

definition read_body :: "env \<Rightarrow> 's strophe \<Rightarrow> ('p, 's) xml_parser \<Rightarrow> 'e ssl \<Rightarrow>
    ('p, 'e) tls_conn \<Rightarrow> ('p, 'e) tls_conn + (loop_end \<times> ('p, 'e) tls_conn)" where
  "read_body E L P S k =
     (let x = tls_read S k in
      case fst x of
        Ssl_want_read \<Rightarrow> Inr (Loop_wait, snd x)
      | Ssl_data d \<Rightarrow>
          if d = [] then Inr (Loop_ended, snd x)
          else
            (let f = tls_feed E L P S d (snd x); k2 = snd f in
             if fst f \<noteq> 0 then Inr (Loop_close, k2)
             else if ssl_check_pending S (tc_ssl k2) \<or> tls_in_len (tc_in k2) > tls_in_pos (tc_in k2)
             then Inl k2
             else Inr (Loop_wait, k2))
      | _ \<Rightarrow> Inr (Loop_ended, snd x))"

definition read_loop :: "env \<Rightarrow> 's strophe \<Rightarrow> ('p, 's) xml_parser \<Rightarrow> 'e ssl \<Rightarrow>
    ('p, 'e) tls_conn \<Rightarrow> (loop_end \<times> ('p, 'e) tls_conn) option" where
  "read_loop E L P S = iterate (read_body E L P S)"

definition tls_records :: "env \<Rightarrow> 's strophe \<Rightarrow> ('p, 's) xml_parser \<Rightarrow> 'e ssl \<Rightarrow>
    ('p, 'e) tls_conn \<Rightarrow> ('p, 'e) tls_conn option" where
  "tls_records E L P S k =
     Option.bind (read_loop E L P S k) (\<lambda>x.
       case fst x of
         Loop_wait \<Rightarrow> Some (snd x)
       | Loop_close \<Rightarrow> tls_close E L P S (snd x)
       | Loop_ended \<Rightarrow> tls_drain_close E L P S (snd x))"

definition tls_encrypted :: "env \<Rightarrow> 's strophe \<Rightarrow> ('p, 's) xml_parser \<Rightarrow> 'e ssl \<Rightarrow> cstr \<Rightarrow>
    ('p, 'e) tls_conn \<Rightarrow> ('p, 'e) tls_conn option" where
  "tls_encrypted E L P S data k =
     (let a = tls_append data (tc_in k); k1 = k\<lparr>tc_in := snd a\<rparr> in
      if \<not> fst a then tls_close E L P S k1
      else if tls_hs_done (tc_conn k1) then tls_records E L P S k1
      else
        (let h = ssl_handshake S (tc_ssl k1) (unread (tc_in k1));
             k2 = k1\<lparr>tc_in := snd (bio_recv (fst (snd h)) (tc_in k1)), tc_ssl := snd (snd h)\<rparr>
         in case fst h of
              Hs_wait \<Rightarrow> Some k2
            | Hs_failed \<Rightarrow> tls_close E L P S k2
            | Hs_ok \<Rightarrow> tls_records E L P S
                (k2\<lparr>tc_conn := upd_conn tls_handshake_done ((tc_conn k2)\<lparr>tls_hs_done := True\<rparr>)\<rparr>)))"

text \<open>\<^verbatim>\<open>conn_init_tls\<close>; \<^term>\<open>None\<close> when \<^verbatim>\<open>mbedtls_ssl_setup\<close> fails.\<close>

definition conn_init_tls :: "'e ssl \<Rightarrow> ('p, 'e) tls_conn \<Rightarrow> ('p, 'e) tls_conn option" where
  "conn_init_tls S k =
     (case ssl_setup S of
        None \<Rightarrow> None
      | Some e \<Rightarrow> Some (k\<lparr>tc_conn := (tc_conn k)\<lparr>is_tls := True, tls_hs_done := False\<rparr>,
          tc_in := tls_in_reset (tc_in k), tc_ssl := e\<rparr>))"

definition tls_plaintext :: "env \<Rightarrow> 's strophe \<Rightarrow> ('p, 's) xml_parser \<Rightarrow> 'e ssl \<Rightarrow> bool \<Rightarrow> cstr \<Rightarrow>
    ('p, 'e) tls_conn \<Rightarrow> ('p, 'e) tls_conn option" where
  "tls_plaintext E L P S ctx_ready data k =
     (let r = conn_feed E L P data (tc_conn k); k1 = k\<lparr>tc_conn := snd r\<rparr> in
      if fst r \<noteq> 0 then tls_close E L P S k1
      else if needs_starttls_proceed (conn_ctx (tc_conn k1)) \<and> \<not> is_tls (tc_conn k1) then
        (let k2 = k1\<lparr>tc_conn := upd_conn tls_handshake_started (tc_conn k1)\<rparr> in
         if \<not> ctx_ready then tls_close E L P S k2
         else (case conn_init_tls S k2 of
                 None \<Rightarrow> tls_close E L P S k2
               | Some k3 \<Rightarrow> Some k3))
      else Some k1)"

definition tls_read_cb :: "env \<Rightarrow> 's strophe \<Rightarrow> ('p, 's) xml_parser \<Rightarrow> 'e ssl \<Rightarrow> bool \<Rightarrow> cstr option \<Rightarrow>
    ('p, 'e) tls_conn \<Rightarrow> ('p, 'e) tls_conn option" where
  "tls_read_cb E L P S ctx_ready rd k =
     (case rd of
        None \<Rightarrow> tls_drain_close E L P S k
      | Some data \<Rightarrow>
          if data = [] then Some k
          else if is_tls (tc_conn k) then tls_encrypted E L P S data k
          else tls_plaintext E L P S ctx_ready data k)"

subsection \<open>What mbedTLS returns\<close>

text \<open>
  The connection without its buffer: the stream, the received bytes that mbedTLS has not taken
  yet, and the context. Here is what successive calls of \<^verbatim>\<open>mbedtls_ssl_read\<close> return on
  these bytes, each taking some of them, when the data of each call is fed to the stream.
\<close>

type_synonym ('p, 'e) tls_view = "'p conn \<times> cstr \<times> 'e"

definition tls_view :: "('p, 'e) tls_conn \<Rightarrow> ('p, 'e) tls_view" where
  "tls_view k = (tc_conn k, unread (tc_in k), tc_ssl k)"

fun next_read :: "'e ssl \<Rightarrow> ('p, 'e) tls_view \<Rightarrow> ssl_result" where
  "next_read S (c, bs, e) = fst (ssl_read S e bs)"

fun after_read :: "'e ssl \<Rightarrow> ('p, 'e) tls_view \<Rightarrow> ('p, 'e) tls_view" where
  "after_read S (c, bs, e) = (c, drop (fst (snd (ssl_read S e bs))) bs, snd (snd (ssl_read S e bs)))"

fun fed :: "env \<Rightarrow> 's strophe \<Rightarrow> ('p, 's) xml_parser \<Rightarrow> 'e ssl \<Rightarrow> cstr \<Rightarrow> ('p, 'e) tls_view \<Rightarrow>
    int \<times> ('p, 'e) tls_view" where
  "fed E L P S d (c, bs, e) =
     (let r = conn_feed E L P d c in (fst r, snd r, bs, ssl_written S (sent (snd (conn_stream (snd r)))) e))"

fun more_input :: "'e ssl \<Rightarrow> ('p, 'e) tls_view \<Rightarrow> bool" where
  "more_input S (c, bs, e) \<longleftrightarrow> ssl_check_pending S e \<or> bs \<noteq> []"

text \<open>Reading until there is no more data, whatever the stream makes of it.\<close>

inductive drains :: "env \<Rightarrow> 's strophe \<Rightarrow> ('p, 's) xml_parser \<Rightarrow> 'e ssl \<Rightarrow> cstr list \<Rightarrow>
    ('p, 'e) tls_view \<Rightarrow> ('p, 'e) tls_view \<Rightarrow> bool"
  for E :: env and L :: "'s strophe" and P :: "('p, 's) xml_parser" and S :: "'e ssl" where
  dry: "\<forall>d. next_read S v = Ssl_data d \<longrightarrow> d = [] \<Longrightarrow> drains E L P S [] v (after_read S v)"
| again: "next_read S v = Ssl_data d \<Longrightarrow> d \<noteq> [] \<Longrightarrow> drains E L P S ds (snd (fed E L P S d (after_read S v))) v' \<Longrightarrow>
    drains E L P S (d # ds) v v'"

text \<open>Reading for the stream: until it asks to close, the TLS session ends, or the input is used up.\<close>

inductive receives :: "env \<Rightarrow> 's strophe \<Rightarrow> ('p, 's) xml_parser \<Rightarrow> 'e ssl \<Rightarrow> cstr list \<Rightarrow> loop_end \<Rightarrow>
    ('p, 'e) tls_view \<Rightarrow> ('p, 'e) tls_view \<Rightarrow> bool"
  for E :: env and L :: "'s strophe" and P :: "('p, 's) xml_parser" and S :: "'e ssl" where
  waits: "next_read S v = Ssl_want_read \<Longrightarrow> receives E L P S [] Loop_wait v (after_read S v)"
| ends: "next_read S v \<in> {Ssl_want_write, Ssl_close_notify, Ssl_failed, Ssl_data []} \<Longrightarrow>
    receives E L P S [] Loop_ended v (after_read S v)"
| asked: "next_read S v = Ssl_data d \<Longrightarrow> d \<noteq> [] \<Longrightarrow> fed E L P S d (after_read S v) = (rc, v1) \<Longrightarrow> rc \<noteq> 0 \<Longrightarrow>
    receives E L P S [d] Loop_close v v1"
| used_up: "next_read S v = Ssl_data d \<Longrightarrow> d \<noteq> [] \<Longrightarrow> fed E L P S d (after_read S v) = (0, v1) \<Longrightarrow> \<not> more_input S v1 \<Longrightarrow>
    receives E L P S [d] Loop_wait v v1"
| continues: "next_read S v = Ssl_data d \<Longrightarrow> d \<noteq> [] \<Longrightarrow> fed E L P S d (after_read S v) = (0, v1) \<Longrightarrow> more_input S v1 \<Longrightarrow>
    receives E L P S ds how v1 v' \<Longrightarrow> receives E L P S (d # ds) how v v'"

text \<open>The report of a read callback: every field is what mbedTLS returned.\<close>

definition drained_by :: "env \<Rightarrow> 's strophe \<Rightarrow> ('p, 's) xml_parser \<Rightarrow> 'e ssl \<Rightarrow> cstr list \<Rightarrow>
    ('p, 'e) tls_view \<Rightarrow> ('p, 'e) tls_view \<Rightarrow> bool" where
  "drained_by E L P S ds v v' \<longleftrightarrow>
     (if is_tls (fst v) \<and> tls_hs_done (fst v) then drains E L P S ds v v' else ds = [] \<and> v' = v)"

definition closes_by :: "env \<Rightarrow> 's strophe \<Rightarrow> ('p, 's) xml_parser \<Rightarrow> 'e ssl \<Rightarrow> cstr list \<Rightarrow> ('p, 'e) tls_view \<Rightarrow> bool" where
  "closes_by E L P S ds v \<longleftrightarrow> (if conn_open (fst v) then \<exists>v'. drained_by E L P S ds v v' else ds = [])"

definition drain_closes_by :: "env \<Rightarrow> 's strophe \<Rightarrow> ('p, 's) xml_parser \<Rightarrow> 'e ssl \<Rightarrow> cstr list \<Rightarrow> cstr list \<Rightarrow>
    ('p, 'e) tls_view \<Rightarrow> bool" where
  "drain_closes_by E L P S ds es v \<longleftrightarrow> (\<exists>v1. drained_by E L P S ds v v1 \<and> closes_by E L P S es v1)"

definition reports_records :: "env \<Rightarrow> 's strophe \<Rightarrow> ('p, 's) xml_parser \<Rightarrow> 'e ssl \<Rightarrow> ('p, 'e) tls_view \<Rightarrow> tls_io \<Rightarrow> bool" where
  "reports_records E L P S v io \<longleftrightarrow>
     (\<exists>how v1. receives E L P S (io_records io) how v v1 \<and> (io_ended io \<longleftrightarrow> how = Loop_ended) \<and>
        (case how of
           Loop_wait \<Rightarrow> True
         | Loop_close \<Rightarrow> closes_by E L P S (io_drained io) v1
         | Loop_ended \<Rightarrow> drain_closes_by E L P S (io_drained io) (io_redrained io) v1))"

definition reports_encrypted :: "env \<Rightarrow> 's strophe \<Rightarrow> ('p, 's) xml_parser \<Rightarrow> 'e ssl \<Rightarrow> cstr \<Rightarrow> ('p, 'e) tls_view \<Rightarrow> tls_io \<Rightarrow> bool" where
  "reports_encrypted E L P S data v io \<longleftrightarrow>
     (let (c, old, e) = v; bs = old @ data; (hs, n, e1) = ssl_handshake S e bs in
      (io_overflow io \<longleftrightarrow> TLS_IN_BUF_SIZE < length bs) \<and>
      (if io_overflow io then closes_by E L P S (io_drained io) v
       else if tls_hs_done c then reports_records E L P S (c, bs, e) io
       else io_handshake io = hs \<and>
         (hs = Hs_ok \<longrightarrow> reports_records E L P S (upd_conn tls_handshake_done (c\<lparr>tls_hs_done := True\<rparr>), drop n bs, e1) io)))"

definition tls_reports :: "env \<Rightarrow> 's strophe \<Rightarrow> ('p, 's) xml_parser \<Rightarrow> 'e ssl \<Rightarrow> bool \<Rightarrow> cstr option \<Rightarrow>
    ('p, 'e) tls_view \<Rightarrow> tls_io \<Rightarrow> bool" where
  "tls_reports E L P S ready rd v io \<longleftrightarrow> io_ctx_ready io = ready \<and> io_setup_ok io = (ssl_setup S \<noteq> None) \<and>
     (case rd of
        None \<Rightarrow> drain_closes_by E L P S (io_drained io) (io_redrained io) v
      | Some data \<Rightarrow> data \<noteq> [] \<and> is_tls (fst v) \<longrightarrow> reports_encrypted E L P S data v io)"

subsection \<open>The loops on the buffer\<close>

definition tls_conn_ok :: "('p, 'e) tls_conn \<Rightarrow> bool" where
  "tls_conn_ok k \<longleftrightarrow> tls_buf_ok (tc_in k)"

lemma conn_ok: "tls_conn_ok k \<Longrightarrow> tls_conn_ok (k\<lparr>tc_conn := c\<rparr>)"
  by (simp add: tls_conn_ok_def)

lemma fst_view [simp]: "fst (tls_view k) = tc_conn k"
  by (simp add: tls_view_def)

lemma tls_read_view:
  assumes "tls_conn_ok k"
  shows "fst (tls_read S k) = next_read S (tls_view k)" "tls_view (snd (tls_read S k)) = after_read S (tls_view k)"
    "tls_conn_ok (snd (tls_read S k))"
  using assms by (simp_all add: tls_read_def tls_view_def Let_def tls_conn_ok_def bio_recv_ok)

lemma tls_read_conn [simp]: "tc_conn (snd (tls_read S k)) = tc_conn k"
  by (simp add: tls_read_def Let_def)

lemma tls_feed_conn [simp]:
  "fst (tls_feed E L P S d k) = fst (conn_feed E L P d (tc_conn k))"
  "tc_conn (snd (tls_feed E L P S d k)) = snd (conn_feed E L P d (tc_conn k))"
  "tc_in (snd (tls_feed E L P S d k)) = tc_in k"
  by (simp_all add: tls_feed_def Let_def)

lemma tls_feed_view:
  "fed E L P S d (tls_view k) = (fst (tls_feed E L P S d k), tls_view (snd (tls_feed E L P S d k)))"
  by (simp add: tls_feed_def tls_view_def Let_def)

lemma tls_feed_ok: "tls_conn_ok k \<Longrightarrow> tls_conn_ok (snd (tls_feed E L P S d k))"
  by (simp add: tls_conn_ok_def)

lemma more_input_view:
  "tls_conn_ok k \<Longrightarrow> more_input S (tls_view k) \<longleftrightarrow> ssl_check_pending S (tc_ssl k) \<or> tls_in_len (tc_in k) > tls_in_pos (tc_in k)"
  using unread_empty [of "tc_in k"] by (auto simp: tls_view_def tls_conn_ok_def)

lemma drain_loop_drains:
  "drain_loop E L P S k = Some k' \<Longrightarrow> tls_conn_ok k \<Longrightarrow>
     tls_conn_ok k' \<and> (\<exists>ds. drains E L P S ds (tls_view k) (tls_view k'))"
  unfolding drain_loop_def
proof (induction rule: iterate_induct)
  case (leave k k')
  note v = tls_read_view [OF leave(2), of S]
  have "k' = snd (tls_read S k)" "\<forall>d. next_read S (tls_view k) = Ssl_data d \<longrightarrow> d = []"
    using leave(1) v(1) by (auto simp: drain_body_def Let_def split: ssl_result.splits if_splits)
  then show ?case using v drains.dry [of S "tls_view k" E L P] by auto
next
  case (again k k1 k')
  note v = tls_read_view [OF again(3), of S]
  obtain d where d: "next_read S (tls_view k) = Ssl_data d" "d \<noteq> []" "k1 = snd (tls_feed E L P S d (snd (tls_read S k)))"
    using again(1) v(1) by (auto simp: drain_body_def Let_def split: ssl_result.splits if_splits)
  have k1: "tls_view k1 = snd (fed E L P S d (after_read S (tls_view k)))"
    using tls_feed_view [of E L P S d "snd (tls_read S k)"] v(2) d(3) by simp
  from again(2) tls_feed_ok [OF v(3)] obtain ds where "tls_conn_ok k'" "drains E L P S ds (tls_view k1) (tls_view k')"
    using d(3) by blast
  then show ?case using drains.again [OF d(1,2), of E L P ds "tls_view k'"] k1 by auto
qed

lemma read_loop_receives:
  "read_loop E L P S k = Some y \<Longrightarrow> tls_conn_ok k \<Longrightarrow>
     tls_conn_ok (snd y) \<and> (\<exists>ds. receives E L P S ds (fst y) (tls_view k) (tls_view (snd y)))"
  unfolding read_loop_def
proof (induction rule: iterate_induct)
  case (leave k y)
  note v = tls_read_view [OF leave(2), of S]
  let ?v = "tls_view k"
  show ?case
  proof (cases "\<exists>d. next_read S ?v = Ssl_data d \<and> d \<noteq> []")
    case True
    then obtain d where d: "next_read S ?v = Ssl_data d" "d \<noteq> []" by blast
    let ?f = "tls_feed E L P S d (snd (tls_read S k))"
    have f: "fed E L P S d (after_read S ?v) = (fst ?f, tls_view (snd ?f))"
      using tls_feed_view [of E L P S d "snd (tls_read S k)"] v(2) by simp
    have more: "more_input S (tls_view (snd ?f)) \<longleftrightarrow>
        ssl_check_pending S (tc_ssl (snd ?f)) \<or> tls_in_len (tc_in (snd ?f)) > tls_in_pos (tc_in (snd ?f))"
      by (rule more_input_view [OF tls_feed_ok [OF v(3)]])
    have "y = (if fst ?f \<noteq> 0 then (Loop_close, snd ?f) else (Loop_wait, snd ?f)) \<and>
        (fst ?f = 0 \<longrightarrow> \<not> more_input S (tls_view (snd ?f)))"
      using leave(1) v(1) d unfolding more
      by (auto simp: read_body_def Let_def simp del: tls_feed_conn split: if_splits)
    then show ?thesis
      using receives.asked [OF d f] receives.used_up [OF d, of E L P "tls_view (snd ?f)"] f tls_feed_ok [OF v(3), of E L P S d]
      by (cases "fst ?f = 0") (auto simp del: tls_feed_conn split_paired_All more_input.simps)
  next
    case False
    then have "y = (Loop_wait, snd (tls_read S k)) \<and> next_read S ?v = Ssl_want_read \<or>
        y = (Loop_ended, snd (tls_read S k)) \<and> next_read S ?v \<in> {Ssl_want_write, Ssl_close_notify, Ssl_failed, Ssl_data []}"
      using leave(1) v(1) by (auto simp: read_body_def Let_def split: ssl_result.splits if_splits)
    then show ?thesis
      using receives.waits [of S ?v E L P] receives.ends [of S ?v E L P] v(2,3) by (elim disjE conjE) auto
  qed
next
  case (again k k1 y)
  note v = tls_read_view [OF again(3), of S]
  let ?v = "tls_view k"
  obtain d where d: "next_read S ?v = Ssl_data d" "d \<noteq> []" "k1 = snd (tls_feed E L P S d (snd (tls_read S k)))"
    and rc: "fst (tls_feed E L P S d (snd (tls_read S k))) = 0"
    and m: "ssl_check_pending S (tc_ssl k1) \<or> tls_in_len (tc_in k1) > tls_in_pos (tc_in k1)"
    using again(1) v(1) by (auto simp: read_body_def Let_def simp del: tls_feed_conn split: ssl_result.splits if_splits)
  have ok1: "tls_conn_ok k1" unfolding d(3) by (rule tls_feed_ok [OF v(3)])
  have f: "fed E L P S d (after_read S ?v) = (0, tls_view k1)"
    using tls_feed_view [of E L P S d "snd (tls_read S k)"] v(2) d(3) rc by simp
  from again(2) ok1 obtain ds where "tls_conn_ok (snd y)" "receives E L P S ds (fst y) (tls_view k1) (tls_view (snd y))" by blast
  then show ?case using receives.continues [OF d(1,2) f, of ds] m more_input_view [OF ok1] by blast
qed

text \<open>What the stream of the connection model makes of these records.\<close>

lemma fst_after_read [simp]: "fst (after_read S v) = fst v"
  by (cases v) simp

lemma fst_fed: "fed E L P S d v = (rc, v1) \<Longrightarrow> conn_feed E L P d (fst v) = (rc, fst v1)"
  by (cases v) (auto simp: Let_def)

lemma drains_conn: "drains E L P S ds v v' \<Longrightarrow> fst v' = fold (\<lambda>d c. snd (conn_feed E L P d c)) ds (fst v)"
proof (induction rule: drains.induct)
  case (again v d ds v')
  then show ?case using fst_fed [of E L P S d "after_read S v"] by (cases "fed E L P S d (after_read S v)") auto
qed simp

lemma receives_conn:
  "receives E L P S ds how v v' \<Longrightarrow> feed_records E L P ds (fst v) = (how = Loop_close, fst v')"
proof (induction rule: receives.induct)
  case (asked v d rc v1)
  then show ?case using fst_fed [OF asked(3)] by (simp add: Let_def)
next
  case (used_up v d v1)
  then show ?case using fst_fed [OF used_up(3)] by (simp add: Let_def)
next
  case (continues v d v1 ds how v')
  then show ?case using fst_fed [OF continues(3)] by (simp add: Let_def)
qed simp_all

subsection \<open>Refinement\<close>

lemma tls_drain_refines:
  assumes "tls_drain E L P S k = Some k'" "tls_conn_ok k"
  shows "tls_conn_ok k' \<and> (\<exists>ds. drained_by E L P S ds (tls_view k) (tls_view k') \<and>
    tc_conn k' = drain_pending_tls E L P ds (tc_conn k))"
proof (cases "is_tls (tc_conn k) \<and> tls_hs_done (tc_conn k)")
  case True
  then obtain ds where "tls_conn_ok k'" and ds: "drains E L P S ds (tls_view k) (tls_view k')"
    using drain_loop_drains [of E L P S k k'] assms by (auto simp: tls_drain_def)
  then show ?thesis using True drains_conn [OF ds]
    by (intro conjI exI [of _ ds]) (simp_all add: drained_by_def drain_pending_tls_def)
next
  case False
  then show ?thesis using assms by (intro conjI exI [of _ "[]"]) (auto simp: tls_drain_def drained_by_def drain_pending_tls_def)
qed

lemma tls_close_refines:
  assumes "tls_close E L P S k = Some k'" "tls_conn_ok k"
  shows "tls_conn_ok k' \<and> (\<exists>ds. closes_by E L P S ds (tls_view k) \<and> tc_conn k' = close_conn E L P ds (tc_conn k))"
proof (cases "conn_open (tc_conn k)")
  case True
  then obtain k1 where k1: "tls_drain E L P S k = Some k1" "k' = k1\<lparr>tc_conn := (tc_conn k1)\<lparr>conn_open := False\<rparr>\<rparr>"
    using assms(1) by (auto simp: tls_close_def)
  from tls_drain_refines [OF k1(1) assms(2)] obtain ds where
    "tls_conn_ok k1" "drained_by E L P S ds (tls_view k) (tls_view k1)" "tc_conn k1 = drain_pending_tls E L P ds (tc_conn k)" by blast
  then show ?thesis using True k1(2)
    by (intro conjI exI [of _ ds]) (auto simp: closes_by_def close_conn_def conn_ok simp del: split_paired_Ex)
next
  case False
  then show ?thesis using assms by (intro conjI exI [of _ "[]"]) (auto simp: tls_close_def closes_by_def close_conn_def)
qed

lemma tls_drain_close_refines:
  assumes "tls_drain_close E L P S k = Some k'" "tls_conn_ok k"
  shows "tls_conn_ok k' \<and> (\<exists>ds es. drain_closes_by E L P S ds es (tls_view k) \<and>
    tc_conn k' = close_conn E L P es (drain_pending_tls E L P ds (tc_conn k)))"
proof -
  obtain k1 where k1: "tls_drain E L P S k = Some k1" and k': "tls_close E L P S k1 = Some k'"
    using assms(1) by (auto simp: tls_drain_close_def bind_eq_Some_conv)
  from tls_drain_refines [OF k1 assms(2)] obtain ds where
    ds: "tls_conn_ok k1" "drained_by E L P S ds (tls_view k) (tls_view k1)" "tc_conn k1 = drain_pending_tls E L P ds (tc_conn k)" by blast
  from tls_close_refines [OF k' ds(1)] obtain es where
    "tls_conn_ok k'" "closes_by E L P S es (tls_view k1)" "tc_conn k' = close_conn E L P es (tc_conn k1)" by blast
  then show ?thesis using ds(2,3) by (metis drain_closes_by_def)
qed

text \<open>A report with given fields.\<close>

definition tls_report :: "bool \<Rightarrow> handshake \<Rightarrow> cstr list \<Rightarrow> bool \<Rightarrow> cstr list \<Rightarrow> cstr list \<Rightarrow> bool \<Rightarrow> bool \<Rightarrow> tls_io" where
  "tls_report overflow hs records ended drained redrained ready setup =
     \<lparr> io_overflow = overflow, io_handshake = hs, io_records = records, io_ended = ended,
       io_drained = drained, io_redrained = redrained, io_ctx_ready = ready, io_setup_ok = setup \<rparr>"

lemma tls_report_simps [simp]:
  "io_overflow (tls_report ov hs ds en dr re rd su) = ov" "io_handshake (tls_report ov hs ds en dr re rd su) = hs"
  "io_records (tls_report ov hs ds en dr re rd su) = ds" "io_ended (tls_report ov hs ds en dr re rd su) = en"
  "io_drained (tls_report ov hs ds en dr re rd su) = dr" "io_redrained (tls_report ov hs ds en dr re rd su) = re"
  "io_ctx_ready (tls_report ov hs ds en dr re rd su) = rd" "io_setup_ok (tls_report ov hs ds en dr re rd su) = su"
  by (simp_all add: tls_report_def)

lemma tls_records_refines:
  assumes "tls_records E L P S k = Some k'" "tls_conn_ok k"
  shows "tls_conn_ok k' \<and> (\<exists>ds ended dr re. \<forall>hs rd su.
    reports_records E L P S (tls_view k) (tls_report False hs ds ended dr re rd su) \<and>
    tc_conn k' = read_tls E L P (tls_report False hs ds ended dr re rd su) (tc_conn k))"
proof -
  obtain y where y: "read_loop E L P S k = Some y"
    and k': "(case fst y of Loop_wait \<Rightarrow> Some (snd y) | Loop_close \<Rightarrow> tls_close E L P S (snd y)
       | Loop_ended \<Rightarrow> tls_drain_close E L P S (snd y)) = Some k'"
    using assms(1) by (auto simp: tls_records_def bind_eq_Some_conv)
  obtain ds where ok: "tls_conn_ok (snd y)" and ds: "receives E L P S ds (fst y) (tls_view k) (tls_view (snd y))"
    using read_loop_receives [OF y assms(2)] by blast
  have feed: "feed_records E L P ds (tc_conn k) = (fst y = Loop_close, tc_conn (snd y))"
    using receives_conn [OF ds] by simp
  show ?thesis
  proof (cases "fst y")
    case Loop_wait
    then show ?thesis using k' ds feed ok
      by (intro conjI exI [of _ ds] exI [of _ False] exI [of _ "[]"] allI)
        (auto simp: read_tls_def reports_records_def simp del: split_paired_Ex intro!: exI [of _ Loop_wait])
  next
    case Loop_close
    then obtain dr where "tls_conn_ok k'" "closes_by E L P S dr (tls_view (snd y))" "tc_conn k' = close_conn E L P dr (tc_conn (snd y))"
      using k' tls_close_refines [OF _ ok] by fastforce
    then show ?thesis using Loop_close ds feed
      by (intro conjI exI [of _ ds] exI [of _ False] exI [of _ dr])
        (auto simp: read_tls_def reports_records_def simp del: split_paired_Ex intro!: exI [of _ Loop_close])
  next
    case Loop_ended
    then obtain dr re where "tls_conn_ok k'" "drain_closes_by E L P S dr re (tls_view (snd y))"
        "tc_conn k' = close_conn E L P re (drain_pending_tls E L P dr (tc_conn (snd y)))"
      using k' tls_drain_close_refines [OF _ ok] by fastforce
    then show ?thesis using Loop_ended ds feed
      by (intro conjI exI [of _ ds] exI [of _ True] exI [of _ dr] exI [of _ re])
        (auto simp: read_tls_def drain_and_close_def reports_records_def simp del: split_paired_Ex intro!: exI [of _ Loop_ended])
  qed
qed

lemma append_view:
  assumes "tls_conn_ok k"
  shows "tls_conn_ok (k\<lparr>tc_in := snd (tls_append d (tc_in k))\<rparr>)"
    "tls_view (k\<lparr>tc_in := snd (tls_append d (tc_in k))\<rparr>) =
      (tc_conn k, (if fst (tls_append d (tc_in k)) then unread (tc_in k) @ d else unread (tc_in k)), tc_ssl k)"
    "fst (tls_append d (tc_in k)) \<longleftrightarrow> length (unread (tc_in k) @ d) \<le> TLS_IN_BUF_SIZE"
  using assms by (simp_all add: tls_view_def tls_conn_ok_def tls_append_ok)

lemma tls_encrypted_refines:
  fixes k :: "('p, 'e) tls_conn"
  assumes "tls_encrypted E L P S data k = Some k'" "tls_conn_ok k" "data \<noteq> []" "is_tls (tc_conn k)"
  shows "tls_conn_ok k' \<and> (\<exists>io. io_ctx_ready io = ready \<and> io_setup_ok io = setup \<and>
    reports_encrypted E L P S data (tls_view k) io \<and> tc_conn k' = read_cb E L P io (Some data) (tc_conn k))"
proof -
  let ?a = "tls_append data (tc_in k)" and ?bs = "unread (tc_in k) @ data"
  let ?k1 = "k\<lparr>tc_in := snd ?a\<rparr>"
  note k' = assms(1) [unfolded tls_encrypted_def Let_def]
  note app = append_view [OF assms(2), of data]
  have v: "tls_view k = (tc_conn k, unread (tc_in k), tc_ssl k)" by (simp add: tls_view_def)
  consider (overflow) "\<not> fst ?a" | (secured) "fst ?a" "tls_hs_done (tc_conn k)"
    | (handshake) "fst ?a" "\<not> tls_hs_done (tc_conn k)" by blast
  then show ?thesis
  proof cases
    case overflow
    then obtain dr where "tls_conn_ok k'" "closes_by E L P S dr (tls_view k)" "tc_conn k' = close_conn E L P dr (tc_conn k)"
      using k' tls_close_refines [OF _ app(1), of E L P S k'] app(2) v by auto
    then show ?thesis using assms(3,4) overflow app(3) v
      by (intro conjI exI [of _ "tls_report True Hs_ok [] False dr [] ready setup"])
        (auto simp: read_cb_def reports_encrypted_def split: prod.split)
  next
    case secured
    then have "tls_records E L P S ?k1 = Some k'" using k' by simp
    from tls_records_refines [OF this app(1)] obtain ds ended dr re where
      "tls_conn_ok k'" "\<forall>hs rd su. reports_records E L P S (tls_view ?k1) (tls_report False hs ds ended dr re rd su) \<and>
        tc_conn k' = read_tls E L P (tls_report False hs ds ended dr re rd su) (tc_conn k)"
      by auto
    then show ?thesis using assms(3,4) secured app(2,3) v
      by (intro conjI exI [of _ "tls_report False Hs_ok ds ended dr re ready setup"])
        (auto simp: read_cb_def reports_encrypted_def split: prod.split)
  next
    case handshake
    obtain hs n e1 where h: "ssl_handshake S (tc_ssl k) ?bs = (hs, n, e1)" by (metis prod_cases3)
    have bs: "unread (snd ?a) = ?bs" using app(2) handshake by (simp add: tls_view_def)
    let ?k2 = "?k1\<lparr>tc_in := snd (bio_recv n (snd ?a)), tc_ssl := e1\<rparr>"
    have ok2: "tls_conn_ok ?k2" using app(1) by (simp add: tls_conn_ok_def bio_recv_ok)
    have v2: "tls_view (?k2\<lparr>tc_conn := c\<rparr>) = (c, drop n ?bs, e1)" for c
      using app(1) bs by (simp add: tls_view_def tls_conn_ok_def bio_recv_ok)
    have run: "(case hs of Hs_wait \<Rightarrow> Some ?k2 | Hs_failed \<Rightarrow> tls_close E L P S ?k2
        | Hs_ok \<Rightarrow> tls_records E L P S (?k2\<lparr>tc_conn := upd_conn tls_handshake_done ((tc_conn k)\<lparr>tls_hs_done := True\<rparr>)\<rparr>)) = Some k'"
      using k' handshake h bs by (cases hs) simp_all
    have len: "length ?bs \<le> TLS_IN_BUF_SIZE" using app(3) handshake by simp
    have report: "reports_encrypted E L P S data (tls_view k) io \<longleftrightarrow> \<not> io_overflow io \<and> io_handshake io = hs \<and>
        (hs = Hs_ok \<longrightarrow> reports_records E L P S
          (upd_conn tls_handshake_done ((tc_conn k)\<lparr>tls_hs_done := True\<rparr>), drop n ?bs, e1) io)" for io
      using len h handshake(2) by (auto simp: reports_encrypted_def v)
    show ?thesis
    proof (cases hs)
      case Hs_wait
      then show ?thesis using run handshake assms(3,4) ok2 report
        by (intro conjI exI [of _ "tls_report False Hs_wait [] False [] [] ready setup"]) (auto simp: read_cb_def)
    next
      case Hs_failed
      then obtain dr where "tls_conn_ok k'" "tc_conn k' = close_conn E L P dr (tc_conn k)"
        using run tls_close_refines [OF _ ok2, of E L P S k'] by auto
      then show ?thesis using assms(3,4) handshake Hs_failed report
        by (intro conjI exI [of _ "tls_report False Hs_failed [] False dr [] ready setup"]) (auto simp: read_cb_def)
    next
      case Hs_ok
      let ?k3 = "?k2\<lparr>tc_conn := upd_conn tls_handshake_done ((tc_conn k)\<lparr>tls_hs_done := True\<rparr>)\<rparr>"
      have "tls_records E L P S ?k3 = Some k'" using run Hs_ok by simp
      from tls_records_refines [OF this conn_ok [OF ok2]] obtain ds ended dr re where
        "tls_conn_ok k'" "\<forall>hs rd su. reports_records E L P S (tls_view ?k3) (tls_report False hs ds ended dr re rd su) \<and>
          tc_conn k' = read_tls E L P (tls_report False hs ds ended dr re rd su) (tc_conn ?k3)"
        by blast
      then show ?thesis using assms(3,4) handshake Hs_ok report
        by (intro conjI exI [of _ "tls_report False Hs_ok ds ended dr re ready setup"])
          (simp_all add: read_cb_def, simp add: v2 [simplified])
    qed
  qed
qed

lemma tls_plaintext_refines:
  assumes "tls_plaintext E L P S ready data k = Some k'" "tls_conn_ok k" "data \<noteq> []" "\<not> is_tls (tc_conn k)"
  shows "tls_conn_ok k' \<and> (\<exists>io. io_ctx_ready io = ready \<and> io_setup_ok io = (ssl_setup S \<noteq> None) \<and>
    tc_conn k' = read_cb E L P io (Some data) (tc_conn k))"
proof -
  let ?r = "conn_feed E L P data (tc_conn k)"
  let ?k1 = "k\<lparr>tc_conn := snd ?r\<rparr>"
  let ?k2 = "?k1\<lparr>tc_conn := upd_conn tls_handshake_started (snd ?r)\<rparr>"
  let ?io = "\<lambda>dr. tls_report False Hs_ok [] False dr [] ready (ssl_setup S \<noteq> None)"
  note k' = assms(1) [unfolded tls_plaintext_def Let_def]
  have io: "tls_conn_ok k' \<Longrightarrow> tc_conn k' = read_plain E L P (?io dr) data (tc_conn k) \<Longrightarrow> ?thesis" for dr
    using assms(3,4) by (intro conjI exI [of _ "?io dr"]) (simp_all add: read_cb_def)
  consider (asked) "fst ?r \<noteq> 0"
    | (stay) "fst ?r = 0" "\<not> (needs_starttls_proceed (conn_ctx (snd ?r)) \<and> \<not> is_tls (snd ?r))"
    | (start) "fst ?r = 0" "needs_starttls_proceed (conn_ctx (snd ?r)) \<and> \<not> is_tls (snd ?r)" by blast
  then show ?thesis
  proof cases
    case asked
    then obtain dr where "tls_conn_ok k'" "tc_conn k' = close_conn E L P dr (snd ?r)"
      using k' tls_close_refines [OF _ conn_ok [OF assms(2)], of E L P S "snd ?r" k'] by auto
    then show ?thesis using asked by (intro io [of dr]) (simp_all add: read_plain_def)
  next
    case stay
    then show ?thesis using k' conn_ok [OF assms(2)] by (intro io [of "[]"]) (auto simp: read_plain_def)
  next
    case start
    show ?thesis
    proof (cases "ready \<and> ssl_setup S \<noteq> None")
      case True
      then show ?thesis using k' start assms(2)
        by (intro io [of "[]"])
          (auto simp: read_plain_def conn_init_tls_def tls_conn_ok_def tls_in_reset_ok)
    next
      case False
      then have "tls_close E L P S ?k2 = Some k'"
        using k' start by (auto simp: conn_init_tls_def split: if_splits option.splits)
      from tls_close_refines [OF this] obtain dr where
        "tls_conn_ok k'" "tc_conn k' = close_conn E L P dr (upd_conn tls_handshake_started (snd ?r))"
        using conn_ok [OF assms(2)] by auto
      then show ?thesis using start False by (intro io [of dr]) (auto simp: read_plain_def Let_def)
    qed
  qed
qed

lemma tls_read_cb_refines:
  assumes "tls_read_cb E L P S ready rd k = Some k'" "tls_conn_ok k"
  shows "tls_conn_ok k' \<and> (\<exists>io. tls_reports E L P S ready rd (tls_view k) io \<and> tc_conn k' = read_cb E L P io rd (tc_conn k))"
proof (cases rd)
  case None
  then obtain dr re where "tls_conn_ok k'" "drain_closes_by E L P S dr re (tls_view k)"
      "tc_conn k' = close_conn E L P re (drain_pending_tls E L P dr (tc_conn k))"
    using assms tls_drain_close_refines by (fastforce simp: tls_read_cb_def)
  then show ?thesis using None
    by (intro conjI exI [of _ "tls_report False Hs_ok [] False dr re ready (ssl_setup S \<noteq> None)"])
      (simp_all add: read_cb_def drain_and_close_def tls_reports_def)
next
  case (Some data)
  consider (empty) "data = []" | (tls) "data \<noteq> []" "is_tls (tc_conn k)" | (plain) "data \<noteq> []" "\<not> is_tls (tc_conn k)" by blast
  then show ?thesis
  proof cases
    case empty
    then show ?thesis using assms Some
      by (intro conjI exI [of _ "tls_report False Hs_ok [] False [] [] ready (ssl_setup S \<noteq> None)"])
        (auto simp: tls_read_cb_def read_cb_def tls_reports_def)
  next
    case tls
    then have "tls_encrypted E L P S data k = Some k'" using assms(1) Some by (simp add: tls_read_cb_def)
    from tls_encrypted_refines [OF this assms(2) tls, of ready "ssl_setup S \<noteq> None"] show ?thesis
      using Some by (auto simp: tls_reports_def)
  next
    case plain
    then have "tls_plaintext E L P S ready data k = Some k'" using assms(1) Some by (simp add: tls_read_cb_def)
    from tls_plaintext_refines [OF this assms(2) plain] show ?thesis using plain Some by (auto simp: tls_reports_def)
  qed
qed

subsection \<open>Every callback returns\<close>

abbreviation pending_bytes :: "('e \<Rightarrow> nat) \<Rightarrow> ('p, 'e) tls_conn \<Rightarrow> nat" where
  "pending_bytes held k \<equiv> held (tc_ssl k) + length (unread (tc_in k))"

lemma tls_read_ok: "tls_conn_ok k \<Longrightarrow> tls_conn_ok (snd (tls_read S k))"
  by (simp add: tls_read_def Let_def tls_conn_ok_def bio_recv_ok)

lemma tls_read_conserves:
  assumes "ssl_conserves S held" "tls_conn_ok k" "fst (tls_read S k) = Ssl_data d" "d \<noteq> []"
  shows "pending_bytes held (snd (tls_feed E L P S d (snd (tls_read S k)))) < pending_bytes held k"
proof -
  obtain r n e where x: "ssl_read S (tc_ssl k) (unread (tc_in k)) = (r, n, e)" by (metis prod_cases3)
  have r: "r = Ssl_data d" using assms(3) x by (simp add: tls_read_def Let_def)
  have n: "n \<le> length (unread (tc_in k))" "held e + length d \<le> held (tc_ssl k) + n"
    using assms(1) x r unfolding ssl_conserves_def by blast+
  have "held (tc_ssl (snd (tls_feed E L P S d (snd (tls_read S k))))) \<le> held e"
    using assms(1) x unfolding ssl_conserves_def by (simp add: tls_feed_def tls_read_def Let_def)
  moreover have "length (unread (tc_in (snd (tls_read S k)))) = length (unread (tc_in k)) - n"
    using assms(2) x by (simp add: tls_read_def Let_def tls_conn_ok_def bio_recv_ok)
  moreover have "0 < length d" using assms(4) by simp
  ultimately show ?thesis using n unfolding tls_feed_conn(3) by linarith
qed

lemma drain_loop_returns:
  fixes k :: "('p, 'e) tls_conn"
  assumes "ssl_conserves S held" "tls_conn_ok k"
  shows "\<exists>k'. drain_loop E L P S k = Some k' \<and> tls_conn_ok k'"
  unfolding drain_loop_def
proof (rule iterate_returns [where I = tls_conn_ok and m = "pending_bytes held"])
  fix k k1 :: "('p, 'e) tls_conn"
  assume k: "tls_conn_ok k"
  show "drain_body E L P S k = Inr k1 \<Longrightarrow> tls_conn_ok k1"
    using tls_read_ok [OF k, of S] by (auto simp: drain_body_def Let_def split: ssl_result.splits if_splits)
  assume "drain_body E L P S k = Inl k1"
  then obtain d where "fst (tls_read S k) = Ssl_data d" "d \<noteq> []"
      "k1 = snd (tls_feed E L P S d (snd (tls_read S k)))"
    by (auto simp: drain_body_def Let_def split: ssl_result.splits if_splits)
  then show "tls_conn_ok k1 \<and> pending_bytes held k1 < pending_bytes held k"
    using tls_read_conserves [OF assms(1) k] tls_feed_ok [OF tls_read_ok [OF k]] by blast
qed (fact assms(2))

lemma read_loop_returns:
  fixes k :: "('p, 'e) tls_conn"
  assumes "ssl_conserves S held" "tls_conn_ok k"
  shows "\<exists>y. read_loop E L P S k = Some y \<and> tls_conn_ok (snd y)"
  unfolding read_loop_def
proof (rule iterate_returns [where I = tls_conn_ok and m = "pending_bytes held"])
  fix k k1 :: "('p, 'e) tls_conn" and y
  assume k: "tls_conn_ok k"
  show "read_body E L P S k = Inr y \<Longrightarrow> tls_conn_ok (snd y)"
    using tls_read_ok [OF k, of S] tls_feed_ok [OF tls_read_ok [OF k, of S]]
    by (auto simp: read_body_def Let_def simp del: tls_feed_conn split: ssl_result.splits if_splits)
  assume "read_body E L P S k = Inl k1"
  then obtain d where "fst (tls_read S k) = Ssl_data d" "d \<noteq> []"
      "k1 = snd (tls_feed E L P S d (snd (tls_read S k)))"
    by (auto simp: read_body_def Let_def simp del: tls_feed_conn split: ssl_result.splits if_splits)
  then show "tls_conn_ok k1 \<and> pending_bytes held k1 < pending_bytes held k"
    using tls_read_conserves [OF assms(1) k] tls_feed_ok [OF tls_read_ok [OF k]] by blast
qed (fact assms(2))

lemma tls_drain_returns:
  "ssl_conserves S held \<Longrightarrow> tls_conn_ok k \<Longrightarrow> \<exists>k'. tls_drain E L P S k = Some k' \<and> tls_conn_ok k'"
  using drain_loop_returns by (auto simp: tls_drain_def)

lemma tls_close_returns:
  "ssl_conserves S held \<Longrightarrow> tls_conn_ok k \<Longrightarrow> \<exists>k'. tls_close E L P S k = Some k' \<and> tls_conn_ok k'"
  using tls_drain_returns [of S held k E L P] by (auto simp: tls_close_def tls_conn_ok_def)

lemma tls_drain_close_returns:
  "ssl_conserves S held \<Longrightarrow> tls_conn_ok k \<Longrightarrow> \<exists>k'. tls_drain_close E L P S k = Some k' \<and> tls_conn_ok k'"
  using tls_drain_returns [of S held k E L P] tls_close_returns [of S held]
  by (fastforce simp: tls_drain_close_def)

lemma tls_records_returns:
  assumes "ssl_conserves S held" "tls_conn_ok k"
  shows "\<exists>k'. tls_records E L P S k = Some k' \<and> tls_conn_ok k'"
proof -
  obtain y where y: "read_loop E L P S k = Some y" "tls_conn_ok (snd y)"
    using read_loop_returns [OF assms] by blast
  then show ?thesis
    using tls_close_returns [OF assms(1) y(2)] tls_drain_close_returns [OF assms(1) y(2)]
    by (cases "fst y") (simp_all add: tls_records_def)
qed

lemma conn_init_tls_ok: "tls_conn_ok k \<Longrightarrow> conn_init_tls S k = Some k1 \<Longrightarrow> tls_conn_ok k1"
  by (auto simp: conn_init_tls_def tls_conn_ok_def tls_in_reset_ok split: option.splits)

lemma tls_encrypted_returns:
  fixes k :: "('p, 'e) tls_conn"
  assumes "ssl_conserves S held" "tls_conn_ok k"
  shows "\<exists>k'. tls_encrypted E L P S data k = Some k' \<and> tls_conn_ok k'"
proof -
  let ?k1 = "k\<lparr>tc_in := snd (tls_append data (tc_in k))\<rparr>"
  have k1: "tls_conn_ok ?k1" using assms(2) by (simp add: tls_conn_ok_def tls_append_ok)
  have k2: "tls_conn_ok (?k1\<lparr>tc_in := snd (bio_recv n (tc_in ?k1)), tc_ssl := e\<rparr>)" for n e
    using k1 by (simp add: tls_conn_ok_def bio_recv_ok)
  show ?thesis
    unfolding tls_encrypted_def Let_def
    using tls_close_returns [OF assms(1) k1] tls_records_returns [OF assms(1) k1]
      tls_close_returns [OF assms(1) k2] tls_records_returns [OF assms(1) conn_ok [OF k2]] k2
    by (auto simp del: tls_conn.simps split: handshake.split)
qed

lemma tls_plaintext_returns:
  fixes k :: "('p, 'e) tls_conn"
  assumes "ssl_conserves S held" "tls_conn_ok k"
  shows "\<exists>k'. tls_plaintext E L P S ready data k = Some k' \<and> tls_conn_ok k'"
proof -
  note k1 = conn_ok [OF assms(2)]
  show ?thesis
    using tls_close_returns [OF assms(1) k1] k1 conn_init_tls_ok [OF k1, of S]
    by (auto simp: tls_plaintext_def Let_def split: option.split)
qed

lemma tls_read_cb_returns:
  assumes "ssl_conserves S held" "tls_conn_ok k"
  shows "\<exists>k'. tls_read_cb E L P S ready rd k = Some k' \<and> tls_conn_ok k'"
  using tls_drain_close_returns [OF assms] tls_encrypted_returns [OF assms] tls_plaintext_returns [OF assms] assms(2)
  by (cases rd) (auto simp: tls_read_cb_def)

subsection \<open>Reachable connections\<close>

inductive tls_reachable :: "'s strophe \<Rightarrow> ('p, 's) xml_parser \<Rightarrow> 'e ssl \<Rightarrow> ('p, 'e) tls_conn \<Rightarrow> bool"
  for L :: "'s strophe" and P :: "('p, 's) xml_parser" and S :: "'e ssl" where
  accept: "tls_reachable L P S \<lparr> tc_conn = on_new_connection E P u rs, tc_in = tls_in_new, tc_ssl = e \<rparr>"
| read: "tls_reachable L P S k \<Longrightarrow> conn_open (tc_conn k) \<Longrightarrow>
    tls_read_cb E L P S ready rd k = Some k' \<Longrightarrow> tls_reachable L P S k'"
| others: "tls_reachable L P S k \<Longrightarrow>
    tls_reachable L P S (k\<lparr>tc_conn := enter_conn sh (tc_conn k), tc_ssl := ssl_written S out (tc_ssl k)\<rparr>)"
| closing: "tls_reachable L P S k \<Longrightarrow> tls_reachable L P S (k\<lparr>tc_conn := (tc_conn k)\<lparr>conn_open := False\<rparr>\<rparr>)"

lemma tls_reachable_abs: "tls_reachable L P S k \<Longrightarrow> reachable L P (tc_conn k) \<and> tls_conn_ok k"
proof (induction rule: tls_reachable.induct)
  case (read k E ready rd k')
  then obtain io where "tls_conn_ok k'" "tc_conn k' = read_cb E L P io rd (tc_conn k)"
    using tls_read_cb_refines by blast
  with read show ?case by (simp add: reachable.read)
qed (simp_all add: reachable.accept reachable.others reachable.closing tls_conn_ok_def tls_in_new_ok)

subsection \<open>A TLS library that does not encrypt, for concrete runs\<close>

definition null_ssl :: "unit ssl" where
  "null_ssl = \<lparr> ssl_setup = Some (), ssl_handshake = (\<lambda>e inp. (Hs_ok, 0, ())),
     ssl_read = (\<lambda>e inp. if inp = [] then (Ssl_want_read, 0, ()) else (Ssl_data inp, length inp, ())),
     ssl_check_pending = (\<lambda>e. False), ssl_written = (\<lambda>log e. e) \<rparr>"

lemma null_ssl_conserves: "ssl_conserves null_ssl (\<lambda>e. 0)"
  by (auto simp: ssl_conserves_def null_ssl_def split: if_splits)

definition quiet_parser :: "(unit, xml) xml_parser" where
  "quiet_parser = \<lparr> parser_new = (), parser_feed = (\<lambda>p data. (p, [], True)) \<rparr>"

definition quiet_conn :: "bool \<Rightarrow> (unit, unit) tls_conn" where
  "quiet_conn tls = \<lparr> tc_conn = (on_new_connection env0 quiet_parser 1 (iq_registry0, server0))\<lparr>is_tls := tls, tls_hs_done := tls\<rparr>,
     tc_in = tls_in_new, tc_ssl = () \<rparr>"

lemma quiet_conn_ok: "tls_conn_ok (quiet_conn tls)"
  by (simp add: quiet_conn_def tls_conn_ok_def tls_in_new_ok)

subsection \<open>Properties\<close>

text \<open>C9: the read callback with its input buffer and its loops around mbedTLS implements the
  read callback of the connection model: it takes the step the model takes on the report of what
  mbedTLS returned on the unread bytes followed by the new ones, namely the outcome of the
  handshake, exactly the records of the successive reads, in order and until the stream asks
  to close, the session ends or the input is used up, whether the session ended, and the records
  of the drains before a close; the buffer overflows exactly when the bytes do not fit.\<close>

theorem read_callback_refines:
  assumes "tls_conn_ok k" "tls_read_cb E L P S ready rd k = Some k'"
  shows "\<exists>io. tls_reports E L P S ready rd (tc_conn k, unread (tc_in k), tc_ssl k) io \<and>
    tc_conn k' = read_cb E L P io rd (tc_conn k)"
  using tls_read_cb_refines [OF assms(2,1)] by (simp add: tls_view_def)

definition failing_ssl :: "unit ssl" where
  "failing_ssl = null_ssl\<lparr>ssl_handshake := (\<lambda>e inp. (Hs_failed, length inp, ()))\<rparr>"

definition starting_conn :: "(unit, unit) tls_conn" where
  "starting_conn = (quiet_conn True)\<lparr>tc_conn := (tc_conn (quiet_conn True))\<lparr>tls_hs_done := False\<rparr>\<rparr>"

text \<open>A failed handshake: the report says so, and the connection is closed.\<close>

theorem read_callback_refines_witness:
  "\<exists>k' io. tls_read_cb env0 xml_strophe quiet_parser failing_ssl True (Some ''x'') starting_conn = Some k' \<and>
     io_handshake io = Hs_failed \<and> tc_conn k' = read_cb env0 xml_strophe quiet_parser io (Some ''x'') (tc_conn starting_conn) \<and>
     \<not> conn_open (tc_conn k') \<and> \<not> tls_hs_done (tc_conn k')"
proof -
  have c: "is_tls (tc_conn starting_conn)" "\<not> tls_hs_done (tc_conn starting_conn)"
    by (simp_all add: starting_conn_def quiet_conn_def)
  have ok: "tls_conn_ok starting_conn" using quiet_conn_ok [of True] by (simp add: starting_conn_def tls_conn_ok_def)
  have cons: "ssl_conserves failing_ssl (\<lambda>e. 0)"
    using null_ssl_conserves by (simp add: ssl_conserves_def failing_ssl_def)
  obtain k' where k': "tls_read_cb env0 xml_strophe quiet_parser failing_ssl True (Some ''x'') starting_conn = Some k'"
    using tls_read_cb_returns [OF cons ok] by blast
  obtain io where io: "tls_reports env0 xml_strophe quiet_parser failing_ssl True (Some ''x'') (tls_view starting_conn) io"
      "tc_conn k' = read_cb env0 xml_strophe quiet_parser io (Some ''x'') (tc_conn starting_conn)"
    using read_callback_refines [OF ok k'] by (auto simp: tls_view_def)
  have "unread (tc_in starting_conn) = []"
    by (simp add: starting_conn_def quiet_conn_def unread_def tls_in_new_def mem_read_def)
  then have "\<not> io_overflow io" "io_handshake io = Hs_failed"
    using io(1) c by (auto simp: tls_reports_def reports_encrypted_def tls_view_def failing_ssl_def split: if_splits)
  then show ?thesis using k' io(2) c by (intro exI [of _ k'] exI [of _ io]) (simp add: read_cb_def)
qed

text \<open>C10: every read callback returns. As long as reading from mbedTLS conserves bytes, the loops
  over the pending records end, for every data and on every path including the drains before a
  close, and the input buffer stays well-formed.\<close>

theorem read_callback_returns:
  assumes "ssl_conserves S held" "tls_conn_ok k"
  shows "\<exists>k'. tls_read_cb E L P S ready rd k = Some k' \<and> tls_conn_ok k'"
  using assms by (rule tls_read_cb_returns)

theorem read_callback_returns_witness:
  "\<exists>k'. tls_read_cb env0 xml_strophe quiet_parser null_ssl True (Some ''x'') (quiet_conn True) = Some k' \<and>
     tls_conn_ok k'"
  by (rule read_callback_returns [OF null_ssl_conserves quiet_conn_ok])

end
