(* ===== verification/Tls_Loop.thy ===== *)
theory Tls_Loop
  imports Server_Loop Tls_Connection
begin

text \<open>
  The event loop with the connections in full: each has its input buffer and its TLS context,
  and what one connection writes to others passes through their contexts. Every step of it is a
  step of \<open>Server_Loop\<close>, and every callback returns.
\<close>

record ('p, 'e) tls_loop =
  tl_conns :: "sink \<Rightarrow> ('p, 'e) tls_conn option"
  tl_shared :: stream
  tl_next_id :: nat

text \<open>\<^verbatim>\<open>conn_write\<close> encrypts with the context of the connection it writes to.\<close>

definition wrote_to :: "'e ssl \<Rightarrow> stream \<Rightarrow> ('p, 'e) tls_conn \<Rightarrow> ('p, 'e) tls_conn" where
  "wrote_to S sh k = k\<lparr>tc_ssl := ssl_written S (sent (snd sh)) (tc_ssl k)\<rparr>"

definition tl_enter :: "stream \<Rightarrow> ('p, 'e) tls_conn \<Rightarrow> ('p, 'e) tls_conn" where
  "tl_enter sh k = k\<lparr>tc_conn := enter_conn sh (tc_conn k)\<rparr>"

definition tl_leave :: "'e ssl \<Rightarrow> sink \<Rightarrow> ('p, 'e) tls_conn option \<Rightarrow> stream \<Rightarrow> ('p, 'e) tls_loop \<Rightarrow> ('p, 'e) tls_loop" where
  "tl_leave S i k sh w =
     w\<lparr>tl_conns := (\<lambda>j. if j = i then k else map_option (wrote_to S sh) (tl_conns w j)), tl_shared := sh\<rparr>"

definition tl_accept :: "env \<Rightarrow> ('p, 's) xml_parser \<Rightarrow> 'e ssl \<Rightarrow> 'e \<Rightarrow> int \<Rightarrow> bool \<Rightarrow> ('p, 'e) tls_loop \<Rightarrow> ('p, 'e) tls_loop" where
  "tl_accept E P S e status accepted w =
     (if status < 0 then w
      else let i = tl_next_id w; k = on_new_connection E P i (tl_shared w) in
        tl_leave S i (Some \<lparr> tc_conn = k\<lparr>conn_open := accepted\<rparr>, tc_in = tls_in_new, tc_ssl = e \<rparr>) (conn_stream k)
          (w\<lparr>tl_next_id := i + 1\<rparr>))"

definition tl_read :: "env \<Rightarrow> 's strophe \<Rightarrow> ('p, 's) xml_parser \<Rightarrow> 'e ssl \<Rightarrow> bool \<Rightarrow> cstr option \<Rightarrow> sink \<Rightarrow>
    ('p, 'e) tls_loop \<Rightarrow> ('p, 'e) tls_loop option" where
  "tl_read E L P S ready rd i w =
     (case tl_conns w i of
        None \<Rightarrow> Some w
      | Some k \<Rightarrow>
          if \<not> conn_open (tc_conn k) then Some w
          else map_option (\<lambda>k'. tl_leave S i (Some k') (conn_stream (tc_conn k')) w)
                 (tls_read_cb E L P S ready rd (tl_enter (tl_shared w) k)))"

definition tl_closed :: "env \<Rightarrow> 'e ssl \<Rightarrow> sink \<Rightarrow> ('p, 'e) tls_loop \<Rightarrow> ('p, 'e) tls_loop" where
  "tl_closed E S i w =
     (case tl_conns w i of
        None \<Rightarrow> w
      | Some k \<Rightarrow>
          if conn_open (tc_conn k) then w
          else tl_leave S i None (conn_stream (on_conn_close E (enter_conn (tl_shared w) (tc_conn k)))) w)"

definition tl_close_walk :: "sink \<Rightarrow> ('p, 'e) tls_loop \<Rightarrow> ('p, 'e) tls_loop" where
  "tl_close_walk i w =
     (case tl_conns w i of
        None \<Rightarrow> w
      | Some k \<Rightarrow> w\<lparr>tl_conns := (tl_conns w)(i \<mapsto> k\<lparr>tc_conn := (tc_conn k)\<lparr>conn_open := False\<rparr>\<rparr>)\<rparr>)"

definition tl_signal :: "sink list \<Rightarrow> ('p, 'e) tls_loop \<Rightarrow> ('p, 'e) tls_loop" where
  "tl_signal handles w = fold tl_close_walk handles w"

inductive tl_reachable :: "'s strophe \<Rightarrow> ('p, 's) xml_parser \<Rightarrow> 'e ssl \<Rightarrow> ('p, 'e) tls_loop \<Rightarrow> bool"
  for L :: "'s strophe" and P :: "('p, 's) xml_parser" and S :: "'e ssl" where
  start: "g_sessions (snd sh) = [] \<Longrightarrow>
    tl_reachable L P S \<lparr> tl_conns = Map.empty, tl_shared = sh, tl_next_id = 1 \<rparr>"
| accept: "tl_reachable L P S w \<Longrightarrow> tl_reachable L P S (tl_accept E P S e status accepted w)"
| read: "tl_reachable L P S w \<Longrightarrow> tl_read E L P S ready rd i w = Some w' \<Longrightarrow> tl_reachable L P S w'"
| closed: "tl_reachable L P S w \<Longrightarrow> tl_reachable L P S (tl_closed E S i w)"
| signal: "tl_reachable L P S w \<Longrightarrow> tl_reachable L P S (tl_signal handles w)"

subsection \<open>The loop refines the loop without buffers\<close>

definition loop_abs :: "('p, 'e) tls_loop \<Rightarrow> 'p server_loop" where
  "loop_abs w = \<lparr> sl_conns = (\<lambda>i. map_option tc_conn (tl_conns w i)), sl_shared = tl_shared w, g_next_id = tl_next_id w \<rparr>"

lemma tc_conn_wrote_to [simp]: "tc_conn (wrote_to S sh k) = tc_conn k"
  by (simp add: wrote_to_def)

lemma loop_abs_simps [simp]:
  "sl_conns (loop_abs w) i = map_option tc_conn (tl_conns w i)" "sl_shared (loop_abs w) = tl_shared w"
  "g_next_id (loop_abs w) = tl_next_id w"
  by (simp_all add: loop_abs_def)

lemma tl_leave_abs:
  "loop_abs (tl_leave S i k sh w) =
     (loop_abs w)\<lparr>sl_conns := (sl_conns (loop_abs w))(i := map_option tc_conn k), sl_shared := sh\<rparr>"
  by (auto simp: loop_abs_def tl_leave_def option.map_comp comp_def)

lemma tl_accept_abs: "loop_abs (tl_accept E P S e status accepted w) = accept_conn E P status accepted (loop_abs w)"
  by (simp add: tl_accept_def accept_conn_def tl_leave_abs leave_conn_def Let_def)
    (simp add: loop_abs_def on_new_connection_def)

definition buffers_ok :: "('p, 'e) tls_loop \<Rightarrow> bool" where
  "buffers_ok w \<longleftrightarrow> (\<forall>i k. tl_conns w i = Some k \<longrightarrow> tls_conn_ok k)"

lemma tl_enter_ok: "buffers_ok w \<Longrightarrow> tl_conns w i = Some k \<Longrightarrow> tls_conn_ok (tl_enter sh k)"
  by (simp add: buffers_ok_def tl_enter_def tls_conn_ok_def)

lemma tl_leave_buffers:
  assumes "buffers_ok w" "\<And>k'. k = Some k' \<Longrightarrow> tls_conn_ok k'"
  shows "buffers_ok (tl_leave S i k sh w)"
  using assms by (auto simp: buffers_ok_def tl_leave_def wrote_to_def tls_conn_ok_def)

lemma tl_close_walk_buffers: "buffers_ok w \<Longrightarrow> buffers_ok (tl_close_walk i w)"
  by (auto simp: tl_close_walk_def buffers_ok_def tls_conn_ok_def split: option.split)

lemma tl_signal_buffers: "buffers_ok w \<Longrightarrow> buffers_ok (tl_signal handles w)"
  unfolding tl_signal_def by (induction handles arbitrary: w) (simp_all add: tl_close_walk_buffers)

lemma tl_read_abs:
  assumes "tl_read E L P S ready rd i w = Some w'" "buffers_ok w"
  shows "buffers_ok w' \<and> (\<exists>io. loop_abs w' = read_conn E L P io rd i (loop_abs w))"
proof (cases "\<exists>k. tl_conns w i = Some k \<and> conn_open (tc_conn k)")
  case True
  then obtain k k' where k: "tl_conns w i = Some k" "conn_open (tc_conn k)"
      "tls_read_cb E L P S ready rd (tl_enter (tl_shared w) k) = Some k'"
      "w' = tl_leave S i (Some k') (conn_stream (tc_conn k')) w"
    using assms(1) by (auto simp: tl_read_def)
  obtain io where "tls_conn_ok k'" "tc_conn k' = read_cb E L P io rd (enter_conn (tl_shared w) (tc_conn k))"
    using tls_read_cb_refines [OF k(3) tl_enter_ok [OF assms(2) k(1)]] by (auto simp: tl_enter_def)
  with k show ?thesis using tl_leave_buffers [OF assms(2), of "Some k'"]
    by (intro conjI exI [of _ io]) (simp_all add: read_conn_def tl_leave_abs leave_conn_def fun_upd_def)
next
  case False
  then have "w' = w" using assms(1) by (auto simp: tl_read_def split: option.splits if_splits)
  then show ?thesis using False assms(2) by (auto simp: read_conn_def split: option.split)
qed

lemma tl_closed_abs: "loop_abs (tl_closed E S i w) = closed_conn E i (loop_abs w)"
  by (simp add: tl_closed_def closed_conn_def tl_leave_abs split: option.split)

lemma tl_close_walk_abs: "loop_abs (tl_close_walk i w) = close_walk_cb i (loop_abs w)"
  by (auto simp: tl_close_walk_def close_walk_cb_def loop_abs_def split: option.split)

lemma tl_signal_abs: "loop_abs (tl_signal handles w) = on_signal handles (loop_abs w)"
  unfolding tl_signal_def on_signal_def
  by (induction handles arbitrary: w) (simp_all add: tl_close_walk_abs)

lemma tl_reachable_buffers: "tl_reachable L P S w \<Longrightarrow> buffers_ok w"
proof (induction rule: tl_reachable.induct)
  case (read w E ready rd i w')
  then show ?case using tl_read_abs by blast
qed (auto simp: tl_accept_def tl_closed_def Let_def tl_signal_buffers tls_conn_ok_def tls_in_new_ok
    intro!: tl_leave_buffers split: option.split, simp_all add: buffers_ok_def)

lemma tl_reachable_abs: "tl_reachable L P S w \<Longrightarrow> loop_reachable L P (loop_abs w)"
proof (induction rule: tl_reachable.induct)
  case (start sh)
  then show ?case using loop_reachable.start [OF start, of L P] by (simp add: loop_abs_def)
next
  case (read w E ready rd i w')
  obtain io where "loop_abs w' = read_conn E L P io rd i (loop_abs w)"
    using tl_read_abs [OF read(2) tl_reachable_buffers [OF read(1)]] by blast
  with read.IH show ?case by (simp add: loop_reachable.read)
qed (simp_all add: tl_accept_abs tl_closed_abs tl_signal_abs loop_reachable.intros)

subsection \<open>Every callback returns\<close>

lemma tl_read_returns:
  assumes "ssl_conserves S held" "buffers_ok w"
  shows "\<exists>w'. tl_read E L P S ready rd i w = Some w'"
proof (cases "\<exists>k. tl_conns w i = Some k \<and> conn_open (tc_conn k)")
  case True
  then obtain k where k: "tl_conns w i = Some k" "conn_open (tc_conn k)" by blast
  then obtain k' where "tls_read_cb E L P S ready rd (tl_enter (tl_shared w) k) = Some k'"
    using tls_read_cb_returns [OF assms(1) tl_enter_ok [OF assms(2)]] by blast
  with k show ?thesis by (simp add: tl_read_def)
next
  case False
  then show ?thesis by (auto simp: tl_read_def split: option.split)
qed

end
