(* ===== verification/Write_Path.thy ===== *)
theory Write_Path
  imports Tls_Connection
begin

text \<open>
  The way out of \<^verbatim>\<open>server.c\<close>: \<^verbatim>\<open>conn_write\<close> over mbedTLS or in the clear, and the write requests
  that \<^verbatim>\<open>uv_conn_write\<close> and \<^verbatim>\<open>bio_send\<close> allocate, hand to libuv and that \<^verbatim>\<open>write_cb\<close> frees. The
  outcomes of \<^verbatim>\<open>malloc\<close> and \<^verbatim>\<open>uv_write\<close> are arguments, \<^verbatim>\<open>mbedtls_ssl_write\<close> is the argument \<open>W\<close>.
\<close>

subsection \<open>Write requests\<close>

text \<open>The requests in the heap are numbered as they are allocated: those that libuv holds, with
  the bytes it was given and in the order it was given them, and those that are freed.\<close>

record write_queue =
  wq_next :: nat
  wq_live :: "(nat \<times> cstr) list"
  wq_freed :: "nat list"

definition write_queue0 :: write_queue where
  "write_queue0 = \<lparr> wq_next = 0, wq_live = [], wq_freed = [] \<rparr>"

text \<open>\<^verbatim>\<open>uv_buf_init\<close> takes the length as an \<^verbatim>\<open>unsigned int\<close>.\<close>

definition uv_buf :: "cstr \<Rightarrow> cstr" where
  "uv_buf data = take (unat (of_nat (length data) :: 32 word)) data"

text \<open>The body of \<^verbatim>\<open>uv_conn_write\<close> and of \<^verbatim>\<open>bio_send\<close>, which differ in what they report. \<open>mem\<close> tells
  whether the allocation succeeds, \<open>r\<close> is the result of \<^verbatim>\<open>uv_write\<close>.\<close>

definition queue_write :: "bool \<Rightarrow> int \<Rightarrow> cstr \<Rightarrow> write_queue \<Rightarrow> bool \<times> write_queue" where
  "queue_write mem r data q =
     (if \<not> mem then (False, q)
      else if r < 0 then (False, q\<lparr>wq_next := Suc (wq_next q), wq_freed := wq_next q # wq_freed q\<rparr>)
      else (True, q\<lparr>wq_next := Suc (wq_next q), wq_live := wq_live q @ [(wq_next q, uv_buf data)]\<rparr>))"

definition uv_conn_write :: "bool \<Rightarrow> int \<Rightarrow> cstr \<Rightarrow> write_queue \<Rightarrow> int \<times> write_queue" where
  "uv_conn_write mem r data q = (let w = queue_write mem r data q in (if fst w then 0 else - 1, snd w))"

definition MBEDTLS_ERR_NET_SEND_FAILED :: int where
  "MBEDTLS_ERR_NET_SEND_FAILED = - 78"

definition bio_send :: "bool \<Rightarrow> int \<Rightarrow> cstr \<Rightarrow> write_queue \<Rightarrow> int \<times> write_queue" where
  "bio_send mem r buf q =
     (let w = queue_write mem r buf q in
      (if fst w then sint (of_nat (length buf) :: 32 word) else MBEDTLS_ERR_NET_SEND_FAILED, snd w))"

text \<open>libuv calls \<^verbatim>\<open>write_cb\<close> once for each request it holds, whether the write worked or not.\<close>

definition write_cb :: "nat \<Rightarrow> write_queue \<Rightarrow> write_queue" where
  "write_cb a q = q\<lparr>wq_live := filter (\<lambda>w. fst w \<noteq> a) (wq_live q), wq_freed := a # wq_freed q\<rparr>"

subsection \<open>Writing\<close>

text \<open>\<^verbatim>\<open>conn_write\<close>: over TLS, \<^verbatim>\<open>mbedtls_ssl_write\<close> is called until it has taken all bytes; the
  result is kept with the bytes it took. In the clear the bytes are queued in one piece.\<close>

datatype ssl_wrote = Wrote nat | Write_again | Write_failed

definition write_body :: "('e \<Rightarrow> cstr \<Rightarrow> ssl_wrote \<times> 'e) \<Rightarrow> 'e \<times> cstr \<times> cstr \<Rightarrow>
    ('e \<times> cstr \<times> cstr) + (int \<times> 'e \<times> cstr)" where
  "write_body W x =
     (case x of (e, p, taken) \<Rightarrow>
        if p = [] then Inr (0, e, taken)
        else (let w = W e p in
              case fst w of
                Write_again \<Rightarrow> Inl (snd w, p, taken)
              | Write_failed \<Rightarrow> Inr (- 1, snd w, taken)
              | Wrote n \<Rightarrow> if n = 0 then Inr (- 1, snd w, taken)
                           else Inl (snd w, drop n p, taken @ take n p)))"

definition conn_write :: "('e \<times> write_queue \<Rightarrow> cstr \<Rightarrow> ssl_wrote \<times> 'e \<times> write_queue) \<Rightarrow> bool \<Rightarrow> int \<Rightarrow> cstr \<Rightarrow>
    ('p, 'e) tls_conn \<Rightarrow> write_queue \<Rightarrow> (int \<times> ('e \<times> write_queue) \<times> cstr) option" where
  "conn_write W mem r data k q =
     (if is_tls (tc_conn k) \<and> tls_hs_done (tc_conn k) then iterate (write_body W) ((tc_ssl k, q), data, [])
      else (let u = uv_conn_write mem r data q in
            Some (fst u, (tc_ssl k, snd u), if fst u = 0 then uv_buf data else [])))"

text \<open>What is relied on of \<^verbatim>\<open>mbedtls_ssl_write\<close>. As \<open>bio_send\<close> takes everything or fails, mbedTLS never
  asks to write again; it never takes more than it was given; and it sends with \<open>bio_send\<close> only.\<close>

definition ssl_writes :: "('e \<Rightarrow> cstr \<Rightarrow> ssl_wrote \<times> 'e) \<Rightarrow> bool" where
  "ssl_writes W \<longleftrightarrow> (\<forall>e p. fst (W e p) \<noteq> Write_again \<and> (\<forall>n. fst (W e p) = Wrote n \<longrightarrow> n \<le> length p))"

inductive sends :: "write_queue \<Rightarrow> write_queue \<Rightarrow> bool" for q :: write_queue where
  none: "sends q q"
| send: "sends q q' \<Longrightarrow> sends q (snd (bio_send mem r buf q'))"

definition ssl_sends :: "('e \<times> write_queue \<Rightarrow> cstr \<Rightarrow> ssl_wrote \<times> 'e \<times> write_queue) \<Rightarrow> bool" where
  "ssl_sends W \<longleftrightarrow> (\<forall>e q p. sends q (snd (snd (W (e, q) p))))"

text \<open>The life of a connection's write requests: mbedTLS sends in the handshake, in reads and in
  writes, the server writes in the clear, and libuv reports each write it has done with.\<close>

inductive wq_reachable :: "write_queue \<Rightarrow> bool" where
  start: "wq_reachable write_queue0"
| sent: "wq_reachable q \<Longrightarrow> sends q q' \<Longrightarrow> wq_reachable q'"
| plain: "wq_reachable q \<Longrightarrow> wq_reachable (snd (uv_conn_write mem r data q))"
| written: "wq_reachable q \<Longrightarrow> a \<in> fst ` set (wq_live q) \<Longrightarrow> wq_reachable (write_cb a q)"

subsection \<open>Requests\<close>

lemma uv_buf_all: "length data < 2 ^ 32 \<Longrightarrow> uv_buf data = data"
  by (simp add: uv_buf_def unat_of_nat)

lemma bio_send_all:
  assumes "length buf < 2 ^ 31"
  shows "fst (bio_send mem r buf q) = (if mem \<and> r \<ge> 0 then int (length buf) else MBEDTLS_ERR_NET_SEND_FAILED)"
proof -
  have "sint (of_nat (length buf) :: 32 word) = int (length buf)"
    using assms by (simp add: signed_of_nat signed_take_bit_int_eq_self)
  then show ?thesis by (simp add: bio_send_def queue_write_def)
qed

lemma write_effect:
  "snd (uv_conn_write mem r data q) = snd (queue_write mem r data q)"
  "snd (bio_send mem r data q) = snd (queue_write mem r data q)"
  by (simp_all add: uv_conn_write_def bio_send_def Let_def)

definition requests_ok :: "write_queue \<Rightarrow> bool" where
  "requests_ok q \<longleftrightarrow> distinct (wq_freed q @ map fst (wq_live q)) \<and>
     set (wq_freed q @ map fst (wq_live q)) = {..<wq_next q}"

lemma queue_write_ok: "requests_ok q \<Longrightarrow> requests_ok (snd (queue_write mem r data q))"
  by (auto simp: requests_ok_def queue_write_def lessThan_Suc)

lemma sends_ok: "sends q q' \<Longrightarrow> requests_ok q \<Longrightarrow> requests_ok q'"
  by (induction rule: sends.induct) (simp_all add: write_effect queue_write_ok)

lemma map_fst_filter: "map fst (filter (\<lambda>w. fst w \<noteq> a) ws) = filter (\<lambda>b. b \<noteq> a) (map fst ws)"
  by (simp add: filter_map o_def)

lemma write_cb_ok:
  assumes "requests_ok q" "a \<in> fst ` set (wq_live q)"
  shows "requests_ok (write_cb a q)"
proof -
  have "map fst (wq_live (write_cb a q)) = filter (\<lambda>b. b \<noteq> a) (map fst (wq_live q))"
    "wq_freed (write_cb a q) = a # wq_freed q" "wq_next (write_cb a q) = wq_next q"
    by (simp_all add: write_cb_def map_fst_filter)
  then show ?thesis using assms by (auto simp: requests_ok_def simp del: map_map)
qed

lemma wq_reachable_ok: "wq_reachable q \<Longrightarrow> requests_ok q"
  by (induction rule: wq_reachable.induct)
    (simp_all add: write_effect sends_ok queue_write_ok write_cb_ok, simp add: requests_ok_def write_queue0_def)

lemma sends_trans: "sends q' q'' \<Longrightarrow> sends q q' \<Longrightarrow> sends q q''"
  by (induction rule: sends.induct) (auto intro: sends.send)

lemma ssl_sends_step: "ssl_sends W \<Longrightarrow> sends q q' \<Longrightarrow> sends q (snd (snd (W (e, q') p)))"
  using sends_trans [of q' _ q] by (simp add: ssl_sends_def)

subsection \<open>The write loop\<close>

lemma write_loop_returns:
  assumes "ssl_writes W"
  shows "\<exists>y. iterate (write_body W) (e, p, taken) = Some y \<and>
    (fst y = 0 \<and> snd (snd y) = taken @ p \<or> fst y = - 1 \<and> (\<exists>n<length p. snd (snd y) = taken @ take n p))"
proof -
  let ?I = "\<lambda>x. \<exists>n\<le>length p. fst (snd x) = drop n p \<and> snd (snd x) = taken @ take n p"
  have step: "?I x1 \<and> length (fst (snd x1)) < length (fst (snd x))"
    if inv: "?I x" and again: "write_body W x = Inl x1" for x x1
  proof -
    obtain n where n: "n \<le> length p" "fst (snd x) = drop n p" "snd (snd x) = taken @ take n p"
      using inv by blast
    obtain m e1 where m: "fst (W (fst x) (fst (snd x))) = Wrote m" "m \<noteq> 0" "fst (snd x) \<noteq> []"
        "x1 = (e1, drop m (fst (snd x)), snd (snd x) @ take m (fst (snd x)))"
      using again assms unfolding ssl_writes_def write_body_def
      by (auto simp: Let_def split: prod.splits ssl_wrote.splits if_splits)
    have "m \<le> length (fst (snd x))" using assms m(1) unfolding ssl_writes_def by blast
    then have "n + m \<le> length p" using n by simp
    moreover have "fst (snd x1) = drop (n + m) p" using n m by (simp add: add.commute)
    moreover have "snd (snd x1) = taken @ take (n + m) p" using n m by (simp add: take_add)
    ultimately show ?thesis using n m by auto
  qed
  have leave: "fst y = 0 \<and> snd (snd y) = taken @ p \<or> fst y = - 1 \<and> (\<exists>n<length p. snd (snd y) = taken @ take n p)"
    if inv: "?I x" and stop: "write_body W x = Inr y" for x y
  proof -
    obtain n where n: "n \<le> length p" "fst (snd x) = drop n p" "snd (snd x) = taken @ take n p"
      using inv by blast
    have "fst y = (if fst (snd x) = [] then 0 else - 1) \<and> snd (snd y) = snd (snd x)"
      using stop by (auto simp: write_body_def Let_def split: prod.splits ssl_wrote.splits if_splits)
    then show ?thesis using n by (cases "n = length p") (auto intro!: exI [of _ n])
  qed
  show ?thesis
    by (rule iterate_returns [where I = ?I and m = "\<lambda>x. length (fst (snd x))"]) (use step leave in auto)
qed

lemma write_loop_sends:
  assumes "iterate (write_body W) x = Some y" "ssl_sends W" "sends q (snd (fst x))"
  shows "sends q (snd (fst (snd y)))"
  using assms
proof (induction rule: iterate_induct)
  case (leave x y)
  then show ?case
    by (auto simp: write_body_def Let_def split: prod.splits ssl_wrote.splits if_splits intro: ssl_sends_step)
next
  case (again x x' y)
  have "sends q (snd (fst x'))"
    using again
    by (auto simp: write_body_def Let_def split: prod.splits ssl_wrote.splits if_splits intro: ssl_sends_step)
  then show ?case using again by simp
qed

subsection \<open>Properties\<close>

text \<open>C35: a write returns, and it reports success exactly when all bytes were taken, in order; on
  failure a proper prefix was taken (over TLS) or nothing (in the clear). In the clear the bytes are
  one request at the end of libuv's queue; over TLS everything that reaches libuv was sent with
  \<open>bio_send\<close>.\<close>

theorem conn_write_all:
  assumes "ssl_writes W" "ssl_sends W" "data \<noteq> []" "length data < 2 ^ 32"
    and "tls = (is_tls (tc_conn k) \<and> tls_hs_done (tc_conn k))"
  shows "\<exists>rc e q' taken. conn_write W mem r data k q = Some (rc, (e, q'), taken) \<and>
    (rc = 0 \<and> taken = data \<or> rc = - 1 \<and> (\<exists>n<length data. taken = take n data)) \<and>
    (tls \<longrightarrow> sends q q') \<and>
    (\<not> tls \<longrightarrow> wq_live q' = wq_live q @ (if rc = 0 then [(wq_next q, data)] else []))"
proof (cases tls)
  case True
  obtain y where y: "iterate (write_body W) ((tc_ssl k, q), data, []) = Some y"
      "fst y = 0 \<and> snd (snd y) = data \<or> fst y = - 1 \<and> (\<exists>n<length data. snd (snd y) = take n data)"
    using write_loop_returns [OF assms(1), of "(tc_ssl k, q)" data "[]", unfolded append_Nil] by blast
  moreover have "sends q (snd (fst (snd y)))"
    using write_loop_sends [OF y(1) assms(2), of q] by (simp add: sends.none)
  ultimately show ?thesis using True assms(5)
    by (intro exI [of _ "fst y"] exI [of _ "fst (fst (snd y))"] exI [of _ "snd (fst (snd y))"] exI [of _ "snd (snd y)"])
      (simp add: conn_write_def)
next
  case False
  then show ?thesis using assms(3-5)
    by (auto simp: conn_write_def uv_conn_write_def queue_write_def uv_buf_all Let_def intro: exI [of _ 0])
qed

text \<open>An mbedTLS that takes at most two bytes at a time and sends them as they are.\<close>

definition two_bytes :: "unit \<times> write_queue \<Rightarrow> cstr \<Rightarrow> ssl_wrote \<times> unit \<times> write_queue" where
  "two_bytes x p = (Wrote (min 2 (length p)), (), snd (bio_send True 0 (take 2 p) (snd x)))"

lemma two_bytes_ok: "ssl_writes two_bytes" "ssl_sends two_bytes"
  by (auto simp: ssl_writes_def ssl_sends_def two_bytes_def intro: sends.intros)

theorem conn_write_all_witness:
  "\<exists>rc e q' taken. conn_write two_bytes True 0 ''abc'' (quiet_conn True) write_queue0 = Some (rc, (e, q'), taken) \<and>
     (rc = 0 \<and> taken = ''abc'' \<or> rc = - 1 \<and> (\<exists>n<length ''abc''. taken = take n ''abc''))"
proof -
  have "length ''abc'' < 2 ^ 32" by simp
  from conn_write_all [OF two_bytes_ok list.distinct(2) this refl, where k = "quiet_conn True" and mem = True and r = 0 and q = write_queue0]
  show ?thesis by blast
qed

text \<open>C36: every write request is freed exactly once. Whatever the connection sends, however
  allocations and \<^verbatim>\<open>uv_write\<close> fail, and in whatever order libuv reports the writes, each request
  ever allocated is either held by libuv or freed, and freed once; when libuv holds none, all are
  freed.\<close>

theorem requests_freed_once:
  assumes "wq_reachable q"
  shows "distinct (wq_freed q) \<and> distinct (map fst (wq_live q)) \<and>
    set (wq_freed q) \<inter> fst ` set (wq_live q) = {} \<and>
    set (wq_freed q) \<union> fst ` set (wq_live q) = {..<wq_next q}"
  using wq_reachable_ok [OF assms] by (auto simp: requests_ok_def)

theorem requests_freed_once_witness:
  "set (wq_freed (write_cb 1 (snd (uv_conn_write True 0 ''b'' (snd (bio_send True (- 4) ''a'' write_queue0)))))) = {0, 1}"
proof -
  let ?q = "snd (uv_conn_write True 0 ''b'' (snd (bio_send True (- 4) ''a'' write_queue0)))"
  have "wq_reachable ?q" by (intro wq_reachable.plain wq_reachable.sent [OF wq_reachable.start] sends.intros)
  then have "wq_reachable (write_cb 1 ?q)" by (rule wq_reachable.written) (simp add: write_effect queue_write_def write_queue0_def)
  from requests_freed_once [OF this]
  have "set (wq_freed (write_cb 1 ?q)) = {..<wq_next (write_cb 1 ?q)}"
    by (simp add: write_effect write_cb_def queue_write_def write_queue0_def)
  moreover have "wq_next (write_cb 1 ?q) = Suc (Suc 0)"
    by (simp add: write_effect write_cb_def queue_write_def write_queue0_def)
  ultimately show ?thesis by (simp only:) (simp add: lessThan_Suc insert_commute)
qed

end
