(* ===== verification/Conn_Memory.thy ===== *)
theory Conn_Memory
  imports Prelude
begin

text \<open>
  The memory of the connections: what \<^verbatim>\<open>on_new_connection\<close>, \<^verbatim>\<open>xmpp_session_reset\<close>, \<^verbatim>\<open>reset_parser\<close> and
  \<^verbatim>\<open>conn_init_tls\<close> allocate, and what \<^verbatim>\<open>xmpp_session_cleanup\<close> and \<^verbatim>\<open>on_conn_close\<close> free. This is the part of
  these functions that the theories of the connection leave out. An object of the heap is a number;
  the outcome of each allocation is an argument.
\<close>

subsection \<open>The heap\<close>

text \<open>\<open>h_bad\<close> records that something was freed that is not allocated.\<close>

record heap =
  h_next :: nat
  h_live :: "nat set"
  h_bad :: bool

definition heap0 :: heap where
  "heap0 = \<lparr> h_next = 0, h_live = {}, h_bad = False \<rparr>"

definition new_obj :: "bool \<Rightarrow> heap \<Rightarrow> nat option \<times> heap" where
  "new_obj ok h =
     (if ok then (Some (h_next h), h\<lparr>h_next := Suc (h_next h), h_live := insert (h_next h) (h_live h)\<rparr>) else (None, h))"

definition free_obj :: "nat \<Rightarrow> heap \<Rightarrow> heap" where
  "free_obj a h = h\<lparr>h_live := h_live h - {a}, h_bad := h_bad h \<or> a \<notin> h_live h\<rparr>"

definition free_if :: "nat option \<Rightarrow> heap \<Rightarrow> heap" where
  "free_if x h = (case x of None \<Rightarrow> h | Some a \<Rightarrow> free_obj a h)"

subsection \<open>The objects of a connection\<close>

text \<open>The \<^verbatim>\<open>conn_t\<close> itself, the parser and the context of libstrophe, the contents of the TLS context,
  and the flag \<^verbatim>\<open>is_tls\<close>.\<close>

record conn_objects =
  o_conn :: nat
  o_parser :: "nat option"
  o_strophe :: "nat option"
  o_ssl :: "nat option"
  o_is_tls :: bool

definition xmpp_session_cleanup :: "conn_objects \<times> heap \<Rightarrow> conn_objects \<times> heap" where
  "xmpp_session_cleanup x =
     ((fst x)\<lparr>o_parser := None, o_strophe := None\<rparr>, free_if (o_strophe (fst x)) (free_if (o_parser (fst x)) (snd x)))"

definition session_objects :: "bool \<Rightarrow> bool \<Rightarrow> conn_objects \<times> heap \<Rightarrow> conn_objects \<times> heap" where
  "session_objects sc_ok parser_ok x =
     (let x1 = xmpp_session_cleanup x; sc = new_obj sc_ok (snd x1); p = new_obj parser_ok (snd sc)
      in ((fst x1)\<lparr>o_strophe := fst sc, o_parser := fst p\<rparr>, snd p))"

definition reset_parser :: "bool \<Rightarrow> conn_objects \<times> heap \<Rightarrow> conn_objects \<times> heap" where
  "reset_parser parser_ok x =
     (let p = new_obj parser_ok (free_if (o_parser (fst x)) (snd x)) in ((fst x)\<lparr>o_parser := fst p\<rparr>, snd p))"

text \<open>\<^verbatim>\<open>mbedtls_ssl_init\<close> and \<^verbatim>\<open>mbedtls_ssl_setup\<close>, whose failure frees the context again.\<close>

definition tls_objects :: "bool \<Rightarrow> conn_objects \<times> heap \<Rightarrow> conn_objects \<times> heap" where
  "tls_objects setup_ok x =
     (let a = new_obj True (snd x) in
      if \<not> setup_ok then (fst x, free_if (fst a) (snd a)) else ((fst x)\<lparr>o_ssl := fst a, o_is_tls := True\<rparr>, snd a))"

definition accept_objects :: "bool \<Rightarrow> bool \<Rightarrow> bool \<Rightarrow> heap \<Rightarrow> (conn_objects \<times> heap) option" where
  "accept_objects mem sc_ok parser_ok h =
     (case new_obj mem h of
        (None, _) \<Rightarrow> None
      | (Some a, h1) \<Rightarrow>
          Some (session_objects sc_ok parser_ok
            (\<lparr> o_conn = a, o_parser = None, o_strophe = None, o_ssl = None, o_is_tls = False \<rparr>, h1)))"

definition free_conn :: "conn_objects \<times> heap \<Rightarrow> heap" where
  "free_conn x =
     free_obj (o_conn (fst x))
       (snd (xmpp_session_cleanup (fst x, if o_is_tls (fst x) then free_if (o_ssl (fst x)) (snd x) else snd x)))"

text \<open>The life of all connections: the read callback may replace the parser at any time and starts
  TLS on a connection that has none, and each connection is freed once, by its close callback.\<close>

inductive mem_reachable :: "(nat \<rightharpoonup> conn_objects) \<Rightarrow> heap \<Rightarrow> bool" where
  start: "mem_reachable Map.empty heap0"
| accept: "mem_reachable C h \<Longrightarrow> C i = None \<Longrightarrow> accept_objects mem sc_ok parser_ok h = Some (ob, h') \<Longrightarrow>
    mem_reachable (C(i \<mapsto> ob)) h'"
| restart: "mem_reachable C h \<Longrightarrow> C i = Some ob \<Longrightarrow> reset_parser parser_ok (ob, h) = (ob', h') \<Longrightarrow>
    mem_reachable (C(i \<mapsto> ob')) h'"
| starttls: "mem_reachable C h \<Longrightarrow> C i = Some ob \<Longrightarrow> \<not> o_is_tls ob \<Longrightarrow> tls_objects setup_ok (ob, h) = (ob', h') \<Longrightarrow>
    mem_reachable (C(i \<mapsto> ob')) h'"
| closed: "mem_reachable C h \<Longrightarrow> C i = Some ob \<Longrightarrow> mem_reachable (C(i := None)) (free_conn (ob, h))"

subsection \<open>One connection\<close>

definition objs :: "conn_objects \<Rightarrow> nat set" where
  "objs ob = insert (o_conn ob) (set_option (o_parser ob) \<union> set_option (o_strophe ob) \<union> set_option (o_ssl ob))"

text \<open>No object is held twice, and there is a TLS context exactly when \<^verbatim>\<open>is_tls\<close> is set.\<close>

definition objects_ok :: "conn_objects \<Rightarrow> bool" where
  "objects_ok ob \<longleftrightarrow> o_conn ob \<notin> set_option (o_parser ob) \<union> set_option (o_strophe ob) \<union> set_option (o_ssl ob) \<and>
     set_option (o_parser ob) \<inter> set_option (o_strophe ob) = {} \<and> set_option (o_parser ob) \<inter> set_option (o_ssl ob) = {} \<and>
     set_option (o_strophe ob) \<inter> set_option (o_ssl ob) = {} \<and>
     (o_is_tls ob \<longleftrightarrow> o_ssl ob \<noteq> None)"

definition heap_ok :: "heap \<Rightarrow> bool" where
  "heap_ok h \<longleftrightarrow> \<not> h_bad h \<and> (\<forall>a\<in>h_live h. a < h_next h)"

text \<open>What a step of one connection does to the heap: its old objects are replaced by its new ones,
  and what it gains is fresh.\<close>

definition exchanges :: "nat set \<Rightarrow> heap \<Rightarrow> nat set \<Rightarrow> heap \<Rightarrow> bool" where
  "exchanges A h A' h' \<longleftrightarrow> heap_ok h' \<and> h_live h' = h_live h - A \<union> A' \<and> A' \<subseteq> A \<union> (- {..<h_next h})"

lemmas object_defs = objs_def objects_ok_def heap_ok_def exchanges_def new_obj_def free_obj_def free_if_def
  Let_def

lemma reset_parser_exchanges:
  assumes "heap_ok h" "objects_ok ob" "objs ob \<subseteq> h_live h" "reset_parser ok (ob, h) = (ob', h')"
  shows "objects_ok ob' \<and> exchanges (objs ob) h (objs ob') h'"
  using assms
  by (cases "o_parser ob"; cases ok)
    (auto simp: object_defs reset_parser_def less_Suc_eq split: if_splits)

lemma tls_objects_exchanges:
  assumes "heap_ok h" "objects_ok ob" "objs ob \<subseteq> h_live h" "\<not> o_is_tls ob" "tls_objects ok (ob, h) = (ob', h')"
  shows "objects_ok ob' \<and> exchanges (objs ob) h (objs ob') h'"
  using assms
  by (cases "o_parser ob"; cases "o_strophe ob"; cases "o_ssl ob")
    (auto simp: object_defs tls_objects_def less_Suc_eq split: if_splits)

lemma accept_objects_exchanges:
  assumes "heap_ok h" "accept_objects mem sc_ok parser_ok h = Some (ob, h')"
  shows "objects_ok ob \<and> exchanges {} h (objs ob) h'"
  using assms
  by (auto simp: object_defs accept_objects_def session_objects_def xmpp_session_cleanup_def less_Suc_eq split: if_splits)

lemma free_conn_exchanges:
  assumes "heap_ok h" "objects_ok ob" "objs ob \<subseteq> h_live h"
  shows "exchanges (objs ob) h {} (free_conn (ob, h))"
  using assms
  by (cases "o_parser ob"; cases "o_strophe ob"; cases "o_ssl ob")
    (auto simp: object_defs free_conn_def xmpp_session_cleanup_def less_Suc_eq split: if_splits)

subsection \<open>All connections\<close>

definition objs_of :: "conn_objects option \<Rightarrow> nat set" where
  "objs_of x = (case x of None \<Rightarrow> {} | Some ob \<Rightarrow> objs ob)"

definition memory_ok :: "(nat \<rightharpoonup> conn_objects) \<Rightarrow> heap \<Rightarrow> bool" where
  "memory_ok C h \<longleftrightarrow> heap_ok h \<and> h_live h = (\<Union>i. objs_of (C i)) \<and>
     (\<forall>i j. i \<noteq> j \<longrightarrow> objs_of (C i) \<inter> objs_of (C j) = {}) \<and> (\<forall>i ob. C i = Some ob \<longrightarrow> objects_ok ob)"

lemma memory_okD:
  assumes "memory_ok C h" "C i = Some ob"
  shows "heap_ok h" "objects_ok ob" "objs ob \<subseteq> h_live h"
  using assms unfolding memory_ok_def by (auto simp: objs_of_def split: option.split intro!: exI [of _ i])

lemma memory_ok_update:
  assumes ok: "memory_ok C h" and ex: "exchanges (objs_of (C i)) h (objs_of x) h'"
    and new: "\<And>ob. x = Some ob \<Longrightarrow> objects_ok ob"
  shows "memory_ok (C(i := x)) h'"
proof -
  have below: "objs_of (C j) \<subseteq> {..<h_next h}" for j using ok by (auto simp: memory_ok_def heap_ok_def)
  have apart: "objs_of (C j) \<inter> objs_of (C i) = {}" if "j \<noteq> i" for j using ok that by (auto simp: memory_ok_def)
  have apart': "objs_of (C j) \<inter> objs_of x = {}" if "j \<noteq> i" for j
    using ex apart [OF that] below [of j] unfolding exchanges_def by blast
  have "h_live h' = (\<Union>j. objs_of (C j)) - objs_of (C i) \<union> objs_of x" using ok ex by (simp add: memory_ok_def exchanges_def)
  also have "(\<Union>j. objs_of (C j)) - objs_of (C i) = (\<Union>j\<in>- {i}. objs_of (C j))" using apart by blast
  also have "\<dots> \<union> objs_of x = (\<Union>j. objs_of ((C(i := x)) j))" by (auto split: if_splits)
  finally have "h_live h' = (\<Union>j. objs_of ((C(i := x)) j))" .
  then show ?thesis
    using ok ex new apart' unfolding memory_ok_def exchanges_def by (simp add: inf_commute)
qed

lemma mem_reachable_ok: "mem_reachable C h \<Longrightarrow> memory_ok C h"
proof (induction rule: mem_reachable.induct)
  case start
  show ?case by (simp add: memory_ok_def heap_ok_def heap0_def objs_of_def)
next
  case (accept C h i mem sc_ok parser_ok ob h')
  then show ?case
    using accept_objects_exchanges [of h mem sc_ok parser_ok ob h']
    by (intro memory_ok_update [of C h]) (auto simp: memory_ok_def objs_of_def)
next
  case (restart C h i ob parser_ok ob' h')
  then show ?case
    using reset_parser_exchanges [OF memory_okD [OF restart.IH restart.hyps(2)] restart.hyps(3)]
    by (intro memory_ok_update [of C h]) (auto simp: objs_of_def)
next
  case (starttls C h i ob setup_ok ob' h')
  then show ?case
    using tls_objects_exchanges [OF memory_okD [OF starttls.IH starttls.hyps(2)] starttls.hyps(3,4)]
    by (intro memory_ok_update [of C h]) (auto simp: objs_of_def)
next
  case (closed C h i ob)
  then show ?case
    using free_conn_exchanges [OF memory_okD [OF closed.IH closed.hyps(2)]]
    by (intro memory_ok_update [of C h]) (auto simp: objs_of_def)
qed

subsection \<open>Properties\<close>

text \<open>C37: the memory of connections. Whatever the connections do and whichever allocations fail, nothing is
  freed that is not allocated, exactly the objects of the existing connections are allocated, and no
  two connections share one; so nothing is left when all connections are closed.\<close>

theorem connection_memory_safe:
  assumes "mem_reachable C h"
  shows "\<not> h_bad h \<and> h_live h = \<Union> (objs ` ran C) \<and>
    (\<forall>i j a b. C i = Some a \<longrightarrow> C j = Some b \<longrightarrow> i \<noteq> j \<longrightarrow> objs a \<inter> objs b = {}) \<and>
    (dom C = {} \<longrightarrow> h_live h = {})"
proof -
  have ok: "memory_ok C h" using mem_reachable_ok [OF assms] .
  have "(\<Union>i. objs_of (C i)) = \<Union> (objs ` ran C)"
    by (force simp: objs_of_def ran_def split: option.splits)
  moreover have "objs a \<inter> objs b = {}" if "C i = Some a" "C j = Some b" "i \<noteq> j" for i j a b
  proof -
    have "objs_of (C i) \<inter> objs_of (C j) = {}" using ok that(3) by (simp add: memory_ok_def)
    then show ?thesis using that by (simp add: objs_of_def)
  qed
  ultimately show ?thesis using ok by (auto simp: memory_ok_def heap_ok_def ran_def)
qed

theorem connection_memory_safe_witness:
  "case accept_objects True True True heap0 of
     None \<Rightarrow> False | Some x \<Rightarrow> h_live (free_conn (tls_objects True (reset_parser True x))) = {}"
proof -
  obtain ob h where a: "accept_objects True True True heap0 = Some (ob, h)"
    by (simp add: accept_objects_def new_obj_def) (metis surj_pair)
  obtain ob1 h1 where r: "reset_parser True (ob, h) = (ob1, h1)" by fastforce
  obtain ob2 h2 where t: "tls_objects True (ob1, h1) = (ob2, h2)" by fastforce
  have "\<not> o_is_tls ob1"
    using a r by (auto simp: accept_objects_def new_obj_def session_objects_def xmpp_session_cleanup_def reset_parser_def Let_def)
  have "mem_reachable (Map.empty(0 \<mapsto> ob)) h" by (rule mem_reachable.accept [OF mem_reachable.start _ a]) simp
  then have "mem_reachable (Map.empty(0 \<mapsto> ob1)) h1" using mem_reachable.restart [OF _ _ r, of _ 0] by fastforce
  then have "mem_reachable (Map.empty(0 \<mapsto> ob2)) h2"
    using mem_reachable.starttls [OF _ _ \<open>\<not> o_is_tls ob1\<close> t, of _ 0] by fastforce
  then have "mem_reachable Map.empty (free_conn (ob2, h2))" using mem_reachable.closed [of _ h2 0 ob2] by fastforce
  from connection_memory_safe [OF this] show ?thesis using a r t by simp
qed

end
