(* ===== verification/Config.thy ===== *)
theory Config
  imports Prelude
begin

text \<open>
  Configuration and start-up (\<^verbatim>\<open>config.c\<close>, the option handling of \<^verbatim>\<open>main.c\<close>, and the
  creation of directories in \<^verbatim>\<open>tls.c\<close> and \<^verbatim>\<open>db.c\<close>).

  libconfig is the argument that turns the text of a file into the settings it defines; the
  embedded text of the default file is generated at build time and an argument as well. The
  file system is the set of its directories and the map of its files; \<open>may\<close> says which paths
  the process may create.
\<close>

subsection \<open>Directories and files\<close>

record filesystem =
  dirs :: "cstr set"
  files :: "cstr \<rightharpoonup> cstr"
  may :: "cstr \<Rightarrow> bool"

text \<open>The text before the last slash, if there is one: \<^verbatim>\<open>strrchr\<close> and overwriting the slash.\<close>

definition cut_last :: "cstr \<Rightarrow> cstr option" where
  "cut_last path =
     (if CHR ''/'' \<in> set path then Some (rev (tl (dropWhile (\<lambda>c. c \<noteq> CHR ''/'') (rev path)))) else None)"

text \<open>A file or directory can be made where its parent is a directory; the current directory
  and the root always are.\<close>

definition has_parent :: "cstr \<Rightarrow> filesystem \<Rightarrow> bool" where
  "has_parent path fs = (case cut_last path of None \<Rightarrow> True | Some d \<Rightarrow> d = [] \<or> d \<in> dirs fs)"

text \<open>\<^verbatim>\<open>mkdir(dir) != 0 && errno != EEXIST\<close> negated.\<close>

definition mkdir :: "cstr \<Rightarrow> filesystem \<Rightarrow> bool \<times> filesystem" where
  "mkdir d fs =
     (if d \<in> dirs fs \<or> d \<in> dom (files fs) then (True, fs)
      else if d \<noteq> [] \<and> has_parent d fs \<and> may fs d then (True, fs\<lparr>dirs := insert d (dirs fs)\<rparr>)
      else (False, fs))"

definition fopen_write :: "cstr \<Rightarrow> cstr \<Rightarrow> filesystem \<Rightarrow> bool \<times> filesystem" where
  "fopen_write path txt fs =
     (if path \<noteq> [] \<and> path \<notin> dirs fs \<and> has_parent path fs \<and> may fs path
      then (True, fs\<lparr>files := (files fs)(path \<mapsto> txt)\<rparr>) else (False, fs))"

text \<open>The loop over the characters of a directory name: at each slash after the first
  character the name up to it is created.\<close>

fun slash_prefixes :: "cstr \<Rightarrow> cstr \<Rightarrow> cstr list" where
  "slash_prefixes pre [] = []"
| "slash_prefixes pre (c # cs) =
     (if c = CHR ''/'' then [pre] else []) @ slash_prefixes (pre @ [c]) cs"

fun mkdir_all :: "cstr list \<Rightarrow> filesystem \<Rightarrow> bool \<times> filesystem" where
  "mkdir_all [] fs = (True, fs)"
| "mkdir_all (d # ds) fs =
     (let r = mkdir d fs in if fst r then mkdir_all ds (snd r) else (False, snd r))"

definition create_parents :: "nat \<Rightarrow> cstr \<Rightarrow> filesystem \<Rightarrow> bool \<times> filesystem" where
  "create_parents cap path fs =
     (case cut_last (snprintf cap path) of
        None \<Rightarrow> (True, fs)
      | Some d \<Rightarrow> mkdir_all (slash_prefixes (take 1 d) (drop 1 d) @ [d]) fs)"

text \<open>\<^verbatim>\<open>ensure_parent_dir\<close> of \<^verbatim>\<open>tls.c\<close> and \<^verbatim>\<open>ensure_directory\<close> of \<^verbatim>\<open>db.c\<close>, which makes the
  direct parent only.\<close>

definition ensure_parent_dir :: "cstr \<Rightarrow> filesystem \<Rightarrow> int \<times> filesystem" where
  "ensure_parent_dir path fs =
     (let r = create_parents 1024 path fs in (if fst r then 0 else - 1, snd r))"

definition ensure_directory :: "cstr \<Rightarrow> filesystem \<Rightarrow> int \<times> filesystem" where
  "ensure_directory path fs =
     (case cut_last path of
        None \<Rightarrow> (0, fs)
      | Some d \<Rightarrow> (let r = mkdir d fs in (if fst r then 0 else - 1, snd r)))"

subsection \<open>Settings\<close>

record server_config =
  db_path :: cstr
  log_level :: cstr
  bind_host :: cstr
  bind_port :: int
  tls_cert_file :: cstr
  tls_key_file :: cstr

definition LOG_LEVELS :: "cstr list" where
  "LOG_LEVELS = [''TRACE'', ''DEBUG'', ''INFO'', ''WARN'', ''ERROR'', ''FATAL'']"

definition to_lower :: "char \<Rightarrow> char" where
  "to_lower c = (let n = of_char c :: nat in if 65 \<le> n \<and> n \<le> 90 then char_of (n + 32) else c)"

definition strcasecmp_eq :: "cstr \<Rightarrow> cstr \<Rightarrow> bool" where
  "strcasecmp_eq a b \<longleftrightarrow> map to_lower a = map to_lower b"

definition config_set_db_path :: "cstr option \<Rightarrow> server_config \<Rightarrow> int \<times> server_config" where
  "config_set_db_path path cfg =
     (case path of
        None \<Rightarrow> (- 1, cfg)
      | Some p \<Rightarrow> if p = [] then (- 1, cfg) else (0, cfg\<lparr>db_path := snprintf 512 p\<rparr>))"

definition config_set_log_level :: "cstr \<Rightarrow> server_config \<Rightarrow> int \<times> server_config" where
  "config_set_log_level level cfg =
     (case find (strcasecmp_eq level) LOG_LEVELS of
        Some l \<Rightarrow> (0, cfg\<lparr>log_level := snprintf 16 l\<rparr>)
      | None \<Rightarrow> (- 1, cfg))"

definition config_set_bind_host :: "cstr option \<Rightarrow> server_config \<Rightarrow> int \<times> server_config" where
  "config_set_bind_host host cfg =
     (case host of
        None \<Rightarrow> (- 1, cfg)
      | Some h \<Rightarrow> if h = [] then (- 1, cfg) else (0, cfg\<lparr>bind_host := snprintf 64 h\<rparr>))"

definition config_set_bind_port :: "int \<Rightarrow> server_config \<Rightarrow> int \<times> server_config" where
  "config_set_bind_port port cfg =
     (if port < 1 \<or> port > 65535 then (- 1, cfg) else (0, cfg\<lparr>bind_port := port\<rparr>))"

definition config_set_tls_cert_file :: "cstr option \<Rightarrow> server_config \<Rightarrow> int \<times> server_config" where
  "config_set_tls_cert_file path cfg =
     (0, cfg\<lparr>tls_cert_file := (case path of None \<Rightarrow> [] | Some p \<Rightarrow> snprintf 512 p)\<rparr>)"

definition config_set_tls_key_file :: "cstr option \<Rightarrow> server_config \<Rightarrow> int \<times> server_config" where
  "config_set_tls_key_file path cfg =
     (0, cfg\<lparr>tls_key_file := (case path of None \<Rightarrow> [] | Some p \<Rightarrow> snprintf 512 p)\<rparr>)"

text \<open>The settings of a parsed file: \<^verbatim>\<open>config_lookup_string\<close> and \<^verbatim>\<open>config_lookup_int\<close>.\<close>

record settings =
  lookup_string :: "cstr \<Rightarrow> cstr option"
  lookup_int :: "cstr \<Rightarrow> int option"

text \<open>\<^verbatim>\<open>lookup(...) && set(...) != 0\<close>: go on with the result of a setter, or stop.\<close>

definition apply_setting :: "'v option \<Rightarrow> ('v \<Rightarrow> server_config \<Rightarrow> int \<times> server_config) \<Rightarrow>
    int \<times> server_config \<Rightarrow> int \<times> server_config" where
  "apply_setting v set_value r =
     (if fst r \<noteq> 0 then r
      else (case v of
              None \<Rightarrow> r
            | Some x \<Rightarrow> (let r1 = set_value x (snd r) in if fst r1 \<noteq> 0 then (- 1, snd r1) else r1)))"

definition config_parse_cfg :: "settings \<Rightarrow> server_config \<Rightarrow> int \<times> server_config" where
  "config_parse_cfg s cfg =
     apply_setting (lookup_string s ''tls_key_file'') (\<lambda>v. config_set_tls_key_file (Some v))
     (apply_setting (lookup_string s ''tls_cert_file'') (\<lambda>v. config_set_tls_cert_file (Some v))
     (apply_setting (lookup_int s ''bind_port'') config_set_bind_port
     (apply_setting (lookup_string s ''bind_host'') (\<lambda>v. config_set_bind_host (Some v))
     (apply_setting (lookup_string s ''log_level'') config_set_log_level
     (apply_setting (lookup_string s ''db_path'') (\<lambda>v. config_set_db_path (Some v)) (0, cfg))))))"

definition zero_config :: server_config where
  "zero_config = \<lparr> db_path = [], log_level = [], bind_host = [], bind_port = 0,
     tls_cert_file = [], tls_key_file = [] \<rparr>"

text \<open>\<^verbatim>\<open>config_parse_default_config\<close>; \<^term>\<open>None\<close> is the exit for an invalid embedded file.\<close>

definition config_parse_default_config :: "(cstr \<Rightarrow> settings option) \<Rightarrow> cstr \<Rightarrow> server_config option" where
  "config_parse_default_config parse content =
     (case parse content of
        None \<Rightarrow> None
      | Some s \<Rightarrow>
          (let r = config_parse_cfg s zero_config in
           if fst r \<noteq> 0 \<or> db_path (snd r) = [] \<or> log_level (snd r) = [] \<or>
              bind_host (snd r) = [] \<or> bind_port (snd r) = 0
           then None else Some (snd r)))"

definition config_create_default :: "cstr \<Rightarrow> cstr \<Rightarrow> filesystem \<Rightarrow> int \<times> filesystem" where
  "config_create_default content path fs =
     (let r = create_parents 256 path fs in
      if \<not> fst r then (- 1, snd r)
      else (let w = fopen_write path content (snd r) in (if fst w then 0 else - 1, snd w)))"

text \<open>\<^verbatim>\<open>config_load\<close>: the global configuration starts from the defaults, and keeps what was set
  before a setting was found invalid.\<close>

definition config_load :: "(cstr \<Rightarrow> settings option) \<Rightarrow> server_config \<Rightarrow> cstr \<Rightarrow> filesystem \<Rightarrow>
    server_config \<Rightarrow> int \<times> server_config" where
  "config_load parse defaults path fs cfg =
     (case Option.bind (files fs path) parse of
        None \<Rightarrow> (- 1, cfg)
      | Some s \<Rightarrow> (let r = config_parse_cfg s defaults in (if fst r \<noteq> 0 then - 1 else 0, snd r)))"

subsection \<open>The command line\<close>

text \<open>What \<^verbatim>\<open>getopt_long\<close> returns for the options of \<^verbatim>\<open>main\<close>; \<open>Opt_log_level None\<close> is
  \<^verbatim>\<open>-l\<close>, which the option string declares without an argument.\<close>

datatype cli_option =
  Opt_config cstr | Opt_db_path cstr | Opt_log_level "cstr option" | Opt_version | Opt_help | Opt_unknown

record cli =
  config_path :: cstr
  cli_config :: bool
  cli_db_path :: "cstr option"
  cli_log_level :: "cstr option"

definition DEFAULT_CONFIG :: cstr where
  "DEFAULT_CONFIG = ''config/ppmxmpp.conf''"

definition cli0 :: cli where
  "cli0 = \<lparr> config_path = DEFAULT_CONFIG, cli_config = False, cli_db_path = None, cli_log_level = None \<rparr>"

text \<open>The option loop: the exit code, or the collected options.\<close>

fun parse_options :: "cli_option list \<Rightarrow> cli \<Rightarrow> int + cli" where
  "parse_options [] c = Inr c"
| "parse_options (Opt_config p # os) c = parse_options os (c\<lparr>config_path := p, cli_config := True\<rparr>)"
| "parse_options (Opt_db_path p # os) c = parse_options os (c\<lparr>cli_db_path := Some p\<rparr>)"
| "parse_options (Opt_log_level l # os) c = parse_options os (c\<lparr>cli_log_level := l\<rparr>)"
| "parse_options (Opt_version # os) c = Inl 0"
| "parse_options (Opt_help # os) c = Inl 0"
| "parse_options (Opt_unknown # os) c = Inl 1"

text \<open>What \<^verbatim>\<open>print_version\<close> is built with: the versions the libraries report, and where they come from.\<close>

record third_party =
  version_of :: "cstr \<Rightarrow> cstr"
  link_of :: "cstr \<Rightarrow> cstr"
  cmocka_built :: bool

abbreviation newline :: cstr where
  "newline \<equiv> [CHR 0x0A]"

definition version_line :: "third_party \<Rightarrow> cstr \<Rightarrow> cstr \<Rightarrow> cstr \<Rightarrow> cstr" where
  "version_line V lib pad ver = ''  '' @ lib @ '':'' @ pad @ ver @ ''  ('' @ link_of V lib @ '')'' @ newline"

definition print_version :: "third_party \<Rightarrow> cstr" where
  "print_version V =
     ''ppmxmpp dev build'' @ newline @ newline @ ''Third-party library versions:'' @ newline @
     version_line V ''mbedtls'' ''    '' (version_of V ''mbedtls'') @
     version_line V ''libuv'' ''      '' (version_of V ''libuv'') @
     version_line V ''libstrophe'' '' '' ''0.14.0'' @
     version_line V ''sqlite'' ''     '' (version_of V ''sqlite'') @
     version_line V ''stumpless'' ''  '' (version_of V ''stumpless'') @
     version_line V ''cmocka'' ''     '' (if cmocka_built V then version_of V ''cmocka'' else ''not built'') @
     version_line V ''libconfig'' ''  '' (version_of V ''libconfig'')"

definition print_help :: "cstr \<Rightarrow> server_config \<Rightarrow> cstr" where
  "print_help progname cfg =
     ''Usage: '' @ progname @ '' [OPTIONS]'' @ newline @ newline @ ''Options:'' @ newline @
     ''  --config <file>       Configuration file path (default: '' @ DEFAULT_CONFIG @ '')'' @ newline @
     ''  --db-path <path>      Database file path (default: '' @ db_path cfg @ '')'' @ newline @
     ''  --log-level <level>   Log level: TRACE, DEBUG, INFO, WARN, ERROR, FATAL'' @ newline @
     ''  --version             Show version and third-party library versions'' @ newline @
     ''  --help                Show this help message'' @ newline"

text \<open>What the option loop prints; the configuration is still the default one.\<close>

fun options_output :: "third_party \<Rightarrow> cstr \<Rightarrow> server_config \<Rightarrow> cli_option list \<Rightarrow> cstr" where
  "options_output V progname cfg [] = []"
| "options_output V progname cfg (Opt_version # os) = print_version V"
| "options_output V progname cfg (Opt_help # os) = print_help progname cfg"
| "options_output V progname cfg (Opt_unknown # os) = print_help progname cfg"
| "options_output V progname cfg (_ # os) = options_output V progname cfg os"

text \<open>The option loop prints something exactly when it ends the process.\<close>

lemma options_output_exits: "options_output V progname cfg os \<noteq> [] \<longleftrightarrow> (\<exists>rc. parse_options os c = Inl rc)"
  by (induction V progname cfg os arbitrary: c rule: options_output.induct) (simp_all add: print_version_def print_help_def)

text \<open>The start of \<^verbatim>\<open>main\<close>, up to the configuration the server runs with.\<close>

definition load_configuration :: "(cstr \<Rightarrow> settings option) \<Rightarrow> server_config \<Rightarrow> cli \<Rightarrow> filesystem \<Rightarrow>
    int + server_config" where
  "load_configuration parse defaults c fs =
     (let r = config_load parse defaults (config_path c) fs defaults in
      if fst r \<noteq> 0 then Inl 1
      else
        (let l = (case cli_log_level c of None \<Rightarrow> (0, snd r) | Some v \<Rightarrow> config_set_log_level v (snd r)) in
         if fst l \<noteq> 0 then Inl 1
         else
           (let d = (case cli_db_path c of None \<Rightarrow> (0, snd l) | Some v \<Rightarrow> config_set_db_path (Some v) (snd l)) in
            if fst d \<noteq> 0 then Inl 1 else Inr (snd d))))"

definition main_configure :: "(cstr \<Rightarrow> settings option) \<Rightarrow> cstr \<Rightarrow> cli_option list \<Rightarrow> filesystem \<Rightarrow>
    (int + server_config) \<times> filesystem" where
  "main_configure parse content options fs =
     (case config_parse_default_config parse content of
        None \<Rightarrow> (Inl 1, fs)
      | Some defaults \<Rightarrow>
          (case parse_options options cli0 of
             Inl rc \<Rightarrow> (Inl rc, fs)
           | Inr c \<Rightarrow>
               if config_path c \<in> dirs fs \<or> config_path c \<in> dom (files fs)
               then (load_configuration parse defaults c fs, fs)
               else if cli_config c then (Inl 1, fs)
               else
                 (let w = config_create_default content (config_path c) fs in
                  if fst w \<noteq> 0 then (Inl 1, snd w)
                  else (load_configuration parse defaults c (snd w), snd w))))"

subsection \<open>Every configuration is valid\<close>

definition config_ok :: "server_config \<Rightarrow> bool" where
  "config_ok c \<longleftrightarrow> db_path c \<noteq> [] \<and> length (db_path c) < 512 \<and> log_level c \<in> set LOG_LEVELS \<and>
     bind_host c \<noteq> [] \<and> length (bind_host c) < 64 \<and> 1 \<le> bind_port c \<and> bind_port c \<le> 65535 \<and>
     length (tls_cert_file c) < 512 \<and> length (tls_key_file c) < 512"

text \<open>The same with fields that may not be set yet.\<close>

definition config_partial :: "server_config \<Rightarrow> bool" where
  "config_partial c \<longleftrightarrow> length (db_path c) < 512 \<and> (log_level c = [] \<or> log_level c \<in> set LOG_LEVELS) \<and>
     length (bind_host c) < 64 \<and> (bind_port c = 0 \<or> 1 \<le> bind_port c \<and> bind_port c \<le> 65535) \<and>
     length (tls_cert_file c) < 512 \<and> length (tls_key_file c) < 512"

lemma apply_setting_keeps:
  assumes "Q (snd r)" "\<And>x c. Q c \<Longrightarrow> Q (snd (set_value x c))"
  shows "Q (snd (apply_setting v set_value r))"
  using assms by (auto simp: apply_setting_def Let_def split: option.splits)

lemma log_level_short: "l \<in> set LOG_LEVELS \<Longrightarrow> snprintf 16 l = l"
  by (auto simp: LOG_LEVELS_def)

lemma log_level_set: "find (strcasecmp_eq level) LOG_LEVELS = Some l \<Longrightarrow> l \<in> set LOG_LEVELS"
  by (auto simp: find_Some_iff)

lemma snprintf_nonempty: "1 < cap \<Longrightarrow> p \<noteq> [] \<Longrightarrow> snprintf cap p \<noteq> []"
  by (cases p) (auto simp: snprintf_def take_Cons' )

lemmas setter_defs = config_set_db_path_def config_set_log_level_def config_set_bind_host_def
  config_set_bind_port_def config_set_tls_cert_file_def config_set_tls_key_file_def

lemma setters_keep_ok:
  "config_ok c \<Longrightarrow> config_ok (snd (config_set_db_path p c))"
  "config_ok c \<Longrightarrow> config_ok (snd (config_set_log_level l c))"
  "config_ok c \<Longrightarrow> config_ok (snd (config_set_bind_host p c))"
  "config_ok c \<Longrightarrow> config_ok (snd (config_set_bind_port n c))"
  "config_ok c \<Longrightarrow> config_ok (snd (config_set_tls_cert_file p c))"
  "config_ok c \<Longrightarrow> config_ok (snd (config_set_tls_key_file p c))"
  by (auto simp: setter_defs config_ok_def snprintf_length snprintf_nonempty log_level_short
      dest: log_level_set split: option.splits)

lemma setters_keep_partial:
  "config_partial c \<Longrightarrow> config_partial (snd (config_set_db_path p c))"
  "config_partial c \<Longrightarrow> config_partial (snd (config_set_log_level l c))"
  "config_partial c \<Longrightarrow> config_partial (snd (config_set_bind_host p c))"
  "config_partial c \<Longrightarrow> config_partial (snd (config_set_bind_port n c))"
  "config_partial c \<Longrightarrow> config_partial (snd (config_set_tls_cert_file p c))"
  "config_partial c \<Longrightarrow> config_partial (snd (config_set_tls_key_file p c))"
  by (auto simp: setter_defs config_partial_def snprintf_length log_level_short
      dest: log_level_set split: option.splits)

lemma parse_cfg_keeps_ok: "config_ok c \<Longrightarrow> config_ok (snd (config_parse_cfg s c))"
  unfolding config_parse_cfg_def
  by (intro apply_setting_keeps [where Q = config_ok]) (simp_all add: setters_keep_ok)

lemma parse_cfg_keeps_partial: "config_partial c \<Longrightarrow> config_partial (snd (config_parse_cfg s c))"
  unfolding config_parse_cfg_def
  by (intro apply_setting_keeps [where Q = config_partial]) (simp_all add: setters_keep_partial)

lemma default_config_ok:
  assumes "config_parse_default_config parse content = Some c"
  shows "config_ok c"
proof -
  obtain s where "c = snd (config_parse_cfg s zero_config)" "db_path c \<noteq> []" "log_level c \<noteq> []"
      "bind_host c \<noteq> []" "bind_port c \<noteq> 0"
    using assms by (auto simp: config_parse_default_config_def Let_def split: option.splits if_splits)
  moreover have "config_partial zero_config" by (simp add: config_partial_def zero_config_def)
  ultimately show ?thesis
    using parse_cfg_keeps_partial [of zero_config s] by (auto simp: config_partial_def config_ok_def)
qed

lemma load_configuration_ok:
  assumes "config_ok defaults" "load_configuration parse defaults c fs = Inr cfg"
  shows "config_ok cfg"
proof -
  let ?r = "config_load parse defaults (config_path c) fs defaults"
  have "config_ok (snd ?r)"
    using assms(1) parse_cfg_keeps_ok [OF assms(1)] by (auto simp: config_load_def Let_def split: option.splits)
  moreover have "config_ok (snd (case v of None \<Rightarrow> (0, x) | Some l \<Rightarrow> config_set_log_level l x))"
      "config_ok (snd (case v of None \<Rightarrow> (0, x) | Some l \<Rightarrow> config_set_db_path (Some l) x))"
    if "config_ok x" for v x
    using that setters_keep_ok(1,2) by (auto split: option.split)
  ultimately show ?thesis
    using assms(2) by (auto simp: load_configuration_def Let_def split: if_splits)
qed

subsection \<open>Precedence\<close>

lemma apply_setting_rc: "fst (apply_setting v f r) = 0 \<Longrightarrow> fst r = 0"
  by (auto simp: apply_setting_def split: if_splits)

text \<open>A field after a setting, once the whole file was accepted.\<close>

lemma apply_setting_other:
  assumes "\<And>x c. g (snd (f x c)) = g c"
  shows "g (snd (apply_setting v f r)) = g (snd r)"
  using assms by (auto simp: apply_setting_def Let_def split: option.splits)

lemma apply_setting_own:
  assumes "fst (apply_setting v f r) = 0" "\<And>x c. fst (f x c) = 0 \<Longrightarrow> g (snd (f x c)) = h x"
  shows "g (snd (apply_setting v f r)) = (case v of None \<Rightarrow> g (snd r) | Some x \<Rightarrow> h x)"
  using assms by (auto simp: apply_setting_def Let_def split: option.splits if_splits)

lemma setters_other [simp]:
  "log_level (snd (config_set_db_path p c)) = log_level c"
  "bind_host (snd (config_set_db_path p c)) = bind_host c"
  "bind_port (snd (config_set_db_path p c)) = bind_port c"
  "tls_cert_file (snd (config_set_db_path p c)) = tls_cert_file c"
  "tls_key_file (snd (config_set_db_path p c)) = tls_key_file c"
  "db_path (snd (config_set_log_level l c)) = db_path c"
  "bind_host (snd (config_set_log_level l c)) = bind_host c"
  "bind_port (snd (config_set_log_level l c)) = bind_port c"
  "tls_cert_file (snd (config_set_log_level l c)) = tls_cert_file c"
  "tls_key_file (snd (config_set_log_level l c)) = tls_key_file c"
  "db_path (snd (config_set_bind_host h c)) = db_path c"
  "log_level (snd (config_set_bind_host h c)) = log_level c"
  "bind_port (snd (config_set_bind_host h c)) = bind_port c"
  "tls_cert_file (snd (config_set_bind_host h c)) = tls_cert_file c"
  "tls_key_file (snd (config_set_bind_host h c)) = tls_key_file c"
  "db_path (snd (config_set_bind_port n c)) = db_path c"
  "log_level (snd (config_set_bind_port n c)) = log_level c"
  "bind_host (snd (config_set_bind_port n c)) = bind_host c"
  "tls_cert_file (snd (config_set_bind_port n c)) = tls_cert_file c"
  "tls_key_file (snd (config_set_bind_port n c)) = tls_key_file c"
  "db_path (snd (config_set_tls_cert_file p c)) = db_path c"
  "log_level (snd (config_set_tls_cert_file p c)) = log_level c"
  "bind_host (snd (config_set_tls_cert_file p c)) = bind_host c"
  "bind_port (snd (config_set_tls_cert_file p c)) = bind_port c"
  "tls_key_file (snd (config_set_tls_cert_file p c)) = tls_key_file c"
  "db_path (snd (config_set_tls_key_file p c)) = db_path c"
  "log_level (snd (config_set_tls_key_file p c)) = log_level c"
  "bind_host (snd (config_set_tls_key_file p c)) = bind_host c"
  "bind_port (snd (config_set_tls_key_file p c)) = bind_port c"
  "tls_cert_file (snd (config_set_tls_key_file p c)) = tls_cert_file c"
  by (simp_all add: setter_defs split: option.split)

text \<open>The log level a name stands for.\<close>

definition level_named :: "cstr \<Rightarrow> cstr" where
  "level_named l = (case find (strcasecmp_eq l) LOG_LEVELS of Some k \<Rightarrow> k | None \<Rightarrow> [])"

lemma setters_own:
  "fst (config_set_db_path (Some p) c) = 0 \<Longrightarrow> db_path (snd (config_set_db_path (Some p) c)) = snprintf 512 p"
  "fst (config_set_log_level l c) = 0 \<Longrightarrow> log_level (snd (config_set_log_level l c)) = level_named l"
  "fst (config_set_bind_host (Some h) c) = 0 \<Longrightarrow> bind_host (snd (config_set_bind_host (Some h) c)) = snprintf 64 h"
  "fst (config_set_bind_port n c) = 0 \<Longrightarrow> bind_port (snd (config_set_bind_port n c)) = n"
  "tls_cert_file (snd (config_set_tls_cert_file (Some p) c)) = snprintf 512 p"
  "tls_key_file (snd (config_set_tls_key_file (Some p) c)) = snprintf 512 p"
  by (auto simp: setter_defs level_named_def log_level_short dest: log_level_set split: option.splits if_splits)

text \<open>An accepted file, as an update of the configuration it is applied to.\<close>

definition overlay :: "settings \<Rightarrow> server_config \<Rightarrow> server_config" where
  "overlay s c =
     \<lparr> db_path = (case lookup_string s ''db_path'' of None \<Rightarrow> db_path c | Some p \<Rightarrow> snprintf 512 p),
       log_level = (case lookup_string s ''log_level'' of None \<Rightarrow> log_level c | Some l \<Rightarrow> level_named l),
       bind_host = (case lookup_string s ''bind_host'' of None \<Rightarrow> bind_host c | Some h \<Rightarrow> snprintf 64 h),
       bind_port = (case lookup_int s ''bind_port'' of None \<Rightarrow> bind_port c | Some n \<Rightarrow> n),
       tls_cert_file = (case lookup_string s ''tls_cert_file'' of None \<Rightarrow> tls_cert_file c | Some p \<Rightarrow> snprintf 512 p),
       tls_key_file = (case lookup_string s ''tls_key_file'' of None \<Rightarrow> tls_key_file c | Some p \<Rightarrow> snprintf 512 p) \<rparr>"

lemma parse_cfg_overlay:
  assumes "fst (config_parse_cfg s c) = 0"
  shows "snd (config_parse_cfg s c) = overlay s c"
proof -
  let ?r1 = "apply_setting (lookup_string s ''db_path'') (\<lambda>v. config_set_db_path (Some v)) (0, c)"
  let ?r2 = "apply_setting (lookup_string s ''log_level'') config_set_log_level ?r1"
  let ?r3 = "apply_setting (lookup_string s ''bind_host'') (\<lambda>v. config_set_bind_host (Some v)) ?r2"
  let ?r4 = "apply_setting (lookup_int s ''bind_port'') config_set_bind_port ?r3"
  let ?r5 = "apply_setting (lookup_string s ''tls_cert_file'') (\<lambda>v. config_set_tls_cert_file (Some v)) ?r4"
  let ?r6 = "apply_setting (lookup_string s ''tls_key_file'') (\<lambda>v. config_set_tls_key_file (Some v)) ?r5"
  have r: "config_parse_cfg s c = ?r6" by (simp add: config_parse_cfg_def)
  have z6: "fst ?r6 = 0" using assms r by simp
  note z5 = apply_setting_rc [OF z6] and z4 = apply_setting_rc [OF apply_setting_rc [OF z6]]
  note z3 = apply_setting_rc [OF z4] and z2 = apply_setting_rc [OF apply_setting_rc [OF z4]]
  note z1 = apply_setting_rc [OF z2]
  note own = apply_setting_own [OF z1, of db_path "snprintf 512"] apply_setting_own [OF z2, of log_level level_named]
    apply_setting_own [OF z3, of bind_host "snprintf 64"] apply_setting_own [OF z4, of bind_port id]
    apply_setting_own [OF z5, of tls_cert_file "snprintf 512"] apply_setting_own [OF z6, of tls_key_file "snprintf 512"]
  show ?thesis
    unfolding r by (rule server_config.equality)
      (simp_all add: overlay_def own setters_own apply_setting_other cong: option.case_cong)
qed

lemma apply_setting_rc_cong:
  assumes "fst r = fst r'" "\<And>x c c'. fst (f x c) = fst (f x c')"
  shows "fst (apply_setting v f r) = fst (apply_setting v f r')"
  using assms(1) assms(2) [of _ "snd r" "snd r'"] by (auto simp: apply_setting_def Let_def split: option.split)

lemma parse_cfg_rc: "fst (config_parse_cfg s c) = fst (config_parse_cfg s c')"
  unfolding config_parse_cfg_def
  by (intro apply_setting_rc_cong) (simp_all add: setter_defs split: option.split)

lemma overlay_twice: "overlay s (overlay s c) = overlay s c"
  by (simp add: overlay_def split: option.split)

subsection \<open>Directories\<close>

text \<open>The directories a path lies in.\<close>

definition ancestors :: "cstr \<Rightarrow> cstr set" where
  "ancestors path = {a. a \<noteq> [] \<and> (\<exists>q. path = a @ CHR ''/'' # q)}"

lemma cut_last_Some: "cut_last path = Some d \<Longrightarrow> \<exists>r. path = d @ CHR ''/'' # r \<and> CHR ''/'' \<notin> set r"
proof -
  assume "cut_last path = Some d"
  then have mem: "CHR ''/'' \<in> set (rev path)" and d: "d = rev (tl (dropWhile (\<lambda>c. c \<noteq> CHR ''/'') (rev path)))"
    by (auto simp: cut_last_def split: if_splits)
  let ?t = "takeWhile (\<lambda>c. c \<noteq> CHR ''/'') (rev path)" and ?d = "dropWhile (\<lambda>c. c \<noteq> CHR ''/'') (rev path)"
  have ne: "?d \<noteq> []" using mem by (auto simp: dropWhile_eq_Nil_conv)
  then have "?d = CHR ''/'' # tl ?d" using hd_dropWhile [OF ne] by (cases ?d) auto
  then have "rev path = ?t @ CHR ''/'' # tl ?d" by (metis takeWhile_dropWhile_id)
  then have "path = d @ CHR ''/'' # rev ?t" unfolding d by (metis rev_append rev_rev_ident rev.simps(2) append.assoc append_Cons append_Nil)
  moreover have "CHR ''/'' \<notin> set (rev ?t)" by (auto dest: set_takeWhileD)
  ultimately show ?thesis by blast
qed

lemma ancestors_snoc:
  "ancestors (p @ [c]) = ancestors p \<union> (if c = CHR ''/'' \<and> p \<noteq> [] then {p} else {})"
proof -
  have "p @ [c] = a @ CHR ''/'' # q \<longleftrightarrow> (\<exists>q'. q = q' @ [c] \<and> p = a @ CHR ''/'' # q') \<or> q = [] \<and> c = CHR ''/'' \<and> p = a" for a q
    by (cases q rule: rev_cases) auto
  then show ?thesis by (auto simp: ancestors_def)
qed

lemma ancestors_plain: "CHR ''/'' \<notin> set r \<Longrightarrow> ancestors (p @ r) = ancestors p"
  by (induction r arbitrary: p rule: rev_induct)
    (auto simp: ancestors_snoc simp flip: append_assoc)

lemma ancestors_cut:
  assumes "cut_last path = Some d" "d \<noteq> []"
  shows "ancestors path = insert d (ancestors d)"
proof -
  obtain r where "path = (d @ [CHR ''/'']) @ r" "CHR ''/'' \<notin> set r" using cut_last_Some [OF assms(1)] by auto
  then show ?thesis using assms(2) ancestors_plain [of r "d @ [CHR ''/'']"] by (simp add: ancestors_snoc)
qed

lemma ancestors_has_parent: "ancestors path \<subseteq> dirs fs \<Longrightarrow> has_parent path fs"
  using cut_last_Some [of path] by (fastforce simp: has_parent_def ancestors_def split: option.split)

lemma mkdir_made:
  assumes "ancestors d \<subseteq> dirs fs" "d \<noteq> []" "may fs d" "d \<notin> dom (files fs)"
  shows "mkdir d fs = (True, fs\<lparr>dirs := insert d (dirs fs)\<rparr>)"
  using assms ancestors_has_parent [OF assms(1)] by (auto simp: mkdir_def insert_absorb)

lemma mkdir_all_append:
  "mkdir_all (xs @ ys) fs = (let r = mkdir_all xs fs in if fst r then mkdir_all ys (snd r) else r)"
  by (induction xs arbitrary: fs) (auto simp: Let_def)

lemma prefixes_made:
  assumes "pre \<noteq> []" "ancestors pre \<subseteq> dirs fs" "\<And>p. may fs p" "\<And>p q. p @ q = pre @ rest \<Longrightarrow> p \<notin> dom (files fs)"
  shows "\<exists>ds. mkdir_all (slash_prefixes pre rest) fs = (True, fs\<lparr>dirs := ds\<rparr>) \<and>
    dirs fs \<subseteq> ds \<and> ancestors (pre @ rest) \<subseteq> ds"
  using assms
proof (induction rest arbitrary: pre fs)
  case Nil
  then show ?case by (intro exI [of _ "dirs fs"]) simp
next
  case (Cons c cs)
  have files: "\<And>p q. p @ q = (pre @ [c]) @ cs \<Longrightarrow> p \<notin> dom (files fs)" using Cons.prems(4) by simp
  show ?case
  proof (cases "c = CHR ''/''")
    case True
    let ?fs = "fs\<lparr>dirs := insert pre (dirs fs)\<rparr>"
    have m: "mkdir pre fs = (True, ?fs)"
      using Cons.prems(4) [of pre "c # cs"] by (intro mkdir_made Cons.prems) simp
    have "ancestors (pre @ [c]) \<subseteq> dirs ?fs" using Cons.prems(1,2) True by (auto simp: ancestors_snoc)
    with Cons.IH [of "pre @ [c]" ?fs] files Cons.prems(3) obtain ds where
      "mkdir_all (slash_prefixes (pre @ [c]) cs) ?fs = (True, fs\<lparr>dirs := ds\<rparr>)" "insert pre (dirs fs) \<subseteq> ds"
      "ancestors (pre @ c # cs) \<subseteq> ds" by auto
    then show ?thesis using True m by auto
  next
    case False
    have "ancestors (pre @ [c]) \<subseteq> dirs fs" using Cons.prems(2) False by (auto simp: ancestors_snoc)
    with Cons.IH [of "pre @ [c]" fs] files Cons.prems(3) show ?thesis using False by auto
  qed
qed

lemma create_parents_made:
  assumes "length path < cap" "cut_last path = Some d" "d \<noteq> []" "\<And>p. may fs p"
    and "\<And>p q. p @ q = d \<Longrightarrow> p \<notin> dom (files fs)"
  shows "\<exists>ds. create_parents cap path fs = (True, fs\<lparr>dirs := ds\<rparr>) \<and> ancestors path \<subseteq> ds \<and> dirs fs \<subseteq> ds"
proof -
  obtain c d' where d: "d = c # d'" using assms(3) by (cases d) auto
  have "ancestors [c] = {}" by (auto simp: ancestors_def Cons_eq_append_conv)
  then obtain ds where m: "mkdir_all (slash_prefixes [c] d') fs = (True, fs\<lparr>dirs := ds\<rparr>)" "dirs fs \<subseteq> ds"
      "ancestors d \<subseteq> ds"
    using prefixes_made [of "[c]" fs d'] assms(4,5) d by auto
  have "d \<notin> dom (files fs)" using assms(5) [of d "[]"] by simp
  then have "mkdir d (fs\<lparr>dirs := ds\<rparr>) = (True, fs\<lparr>dirs := insert d ds\<rparr>)"
    using mkdir_made [of d "fs\<lparr>dirs := ds\<rparr>"] m(3) assms(3,4) by simp
  then show ?thesis
    using assms(1,2) m d ancestors_cut [OF assms(2,3)]
    by (intro exI [of _ "insert d ds"]) (auto simp: create_parents_def mkdir_all_append)
qed

subsection \<open>A concrete configuration\<close>

definition sample_settings :: settings where
  "sample_settings = \<lparr> lookup_string = [''db_path'' \<mapsto> ''data/ppmxmpp.db'', ''log_level'' \<mapsto> ''info'',
     ''bind_host'' \<mapsto> ''127.0.0.1''], lookup_int = [''bind_port'' \<mapsto> 5222] \<rparr>"

definition sample_parse :: "cstr \<Rightarrow> settings option" where
  "sample_parse txt = (if txt = ''defaults'' then Some sample_settings else None)"

definition empty_fs :: filesystem where
  "empty_fs = \<lparr> dirs = {}, files = Map.empty, may = (\<lambda>p. True) \<rparr>"

definition sample_config :: server_config where
  "sample_config = \<lparr> db_path = ''data/ppmxmpp.db'', log_level = ''INFO'', bind_host = ''127.0.0.1'',
     bind_port = 5222, tls_cert_file = [], tls_key_file = [] \<rparr>"

lemma sample_defaults: "config_parse_default_config sample_parse ''defaults'' = Some sample_config"
  by code_simp

lemma default_config_dir: "cut_last DEFAULT_CONFIG = Some ''config''"
  by code_simp

lemma main_configure_ok:
  assumes "main_configure parse content options fs = (Inr cfg, fs')"
  shows "config_ok cfg"
proof -
  obtain defaults c where d: "config_parse_default_config parse content = Some defaults"
      "parse_options options cli0 = Inr c"
    using assms by (auto simp: main_configure_def split: option.splits sum.splits)
  then obtain fs1 where "load_configuration parse defaults c fs1 = Inr cfg"
    using assms by (auto simp: main_configure_def Let_def split: if_splits)
  then show ?thesis using load_configuration_ok [OF default_config_ok [OF d(1)]] by blast
qed

subsection \<open>Properties\<close>

text \<open>C30: the server only ever runs with a valid configuration: whatever the file, the command
  line and the embedded defaults say, all fields are within their buffers, the log level is
  one of the six, the port is between 1 and 65535, and the database path and the host are set.\<close>

theorem configuration_valid:
  assumes "main_configure parse content options fs = (Inr cfg, fs')"
  shows "config_ok cfg"
  by (rule main_configure_ok [OF assms])

theorem configuration_valid_witness: "config_ok sample_config"
proof -
  have "main_configure sample_parse ''defaults'' []
      (empty_fs\<lparr>files := [DEFAULT_CONFIG \<mapsto> ''defaults'']\<rparr>) =
    (Inr sample_config, empty_fs\<lparr>files := [DEFAULT_CONFIG \<mapsto> ''defaults'']\<rparr>)"
    unfolding main_configure_def sample_defaults
    by (simp add: cli0_def empty_fs_def, code_simp)
  then show ?thesis by (rule configuration_valid)
qed

text \<open>The command line overrides the file, which overrides the defaults: every field of the
  configuration is the one given by the first of the three that sets it.\<close>

theorem configuration_precedence:
  assumes "files fs (config_path c) = Some txt" "parse txt = Some s"
    and "load_configuration parse defaults c fs = Inr cfg"
  shows "cfg = (overlay s defaults)
    \<lparr>db_path := (case cli_db_path c of None \<Rightarrow> db_path (overlay s defaults) | Some p \<Rightarrow> snprintf 512 p),
     log_level := (case cli_log_level c of None \<Rightarrow> log_level (overlay s defaults) | Some l \<Rightarrow> level_named l)\<rparr>"
proof -
  have load: "config_load parse defaults (config_path c) fs defaults =
      (if fst (config_parse_cfg s defaults) \<noteq> 0 then - 1 else 0, snd (config_parse_cfg s defaults))"
    using assms(1,2) by (simp add: config_load_def Let_def)
  then have "snd (config_parse_cfg s defaults) = overlay s defaults"
    using assms(3) parse_cfg_overlay [of s defaults]
    by (auto simp: load_configuration_def Let_def split: if_splits)
  then show ?thesis
    using assms(3) load log_level_short log_level_set
    by (auto simp: load_configuration_def Let_def config_set_db_path_def config_set_log_level_def level_named_def
        split: if_splits option.splits)
qed

theorem configuration_precedence_witness:
  "load_configuration sample_parse sample_config (cli0\<lparr>cli_log_level := Some ''warn''\<rparr>)
       (empty_fs\<lparr>files := [DEFAULT_CONFIG \<mapsto> ''defaults'']\<rparr>) = Inr (sample_config\<lparr>log_level := ''WARN''\<rparr>) \<and>
     ''WARN'' = level_named ''warn''"
proof -
  let ?c = "cli0\<lparr>cli_log_level := Some ''warn''\<rparr>"
  let ?fs = "empty_fs\<lparr>files := [DEFAULT_CONFIG \<mapsto> ''defaults'']\<rparr>"
  have run: "load_configuration sample_parse sample_config ?c ?fs = Inr (sample_config\<lparr>log_level := ''WARN''\<rparr>)"
    by code_simp
  have "sample_config\<lparr>log_level := ''WARN''\<rparr> = (overlay sample_settings sample_config)
    \<lparr>db_path := (case cli_db_path ?c of None \<Rightarrow> db_path (overlay sample_settings sample_config) | Some p \<Rightarrow> snprintf 512 p),
     log_level := (case cli_log_level ?c of None \<Rightarrow> log_level (overlay sample_settings sample_config) | Some l \<Rightarrow> level_named l)\<rparr>"
    by (rule configuration_precedence [OF _ _ run]) (simp_all add: cli0_def sample_parse_def)
  from arg_cong [OF this, of log_level] show ?thesis using run by simp
qed

text \<open>The first run. Without a configuration file at the default place, and allowed to create
  files, the server writes the embedded default file there, with its directory, and runs with
  exactly the defaults.\<close>

theorem first_run_uses_defaults:
  assumes "config_parse_default_config parse content = Some defaults"
    and "DEFAULT_CONFIG \<notin> dirs fs" "DEFAULT_CONFIG \<notin> dom (files fs)" "\<And>p. may fs p"
    and "\<And>p q. p @ q = ''config'' \<Longrightarrow> p \<notin> dom (files fs)"
  shows "\<exists>fs'. main_configure parse content [] fs = (Inr defaults, fs') \<and>
    files fs' = (files fs)(DEFAULT_CONFIG \<mapsto> content) \<and> ancestors DEFAULT_CONFIG \<subseteq> dirs fs'"
proof -
  let ?fs1 = "fs\<lparr>dirs := insert ''config'' (dirs fs)\<rparr>"
  let ?fs2 = "?fs1\<lparr>files := (files fs)(DEFAULT_CONFIG \<mapsto> content)\<rparr>"
  obtain s where s: "parse content = Some s" "fst (config_parse_cfg s zero_config) = 0"
      "defaults = overlay s zero_config"
    using assms(1) parse_cfg_overlay by (auto simp: config_parse_default_config_def Let_def split: option.splits if_splits)
  then have rc: "fst (config_parse_cfg s defaults) = 0" using parse_cfg_rc by metis
  then have same: "snd (config_parse_cfg s defaults) = defaults"
    using parse_cfg_overlay overlay_twice s(3) by metis
  have none: "ancestors ''config'' = {}" using ancestors_plain [of "''config''" "[]"] by (simp add: ancestors_def)
  have "''config'' \<notin> dom (files fs)" using assms(5) [of "''config''" "[]"] by simp
  then have "mkdir ''config'' fs = (True, ?fs1)"
    using mkdir_made [of "''config''" fs] none assms(4) by simp
  then have "create_parents 256 DEFAULT_CONFIG fs = (True, ?fs1)"
    using default_config_dir by (simp add: create_parents_def DEFAULT_CONFIG_def)
  moreover have "fopen_write DEFAULT_CONFIG content ?fs1 = (True, ?fs2)"
    using assms(2,4) default_config_dir by (simp add: fopen_write_def has_parent_def) (simp add: DEFAULT_CONFIG_def)
  ultimately have "config_create_default content DEFAULT_CONFIG fs = (0, ?fs2)"
    by (simp add: config_create_default_def)
  moreover have "load_configuration parse defaults cli0 ?fs2 = Inr defaults"
    using s(1) rc same by (simp add: load_configuration_def config_load_def cli0_def)
  ultimately have "main_configure parse content [] fs = (Inr defaults, ?fs2)"
    using assms(1,2,3) by (simp add: main_configure_def) (simp add: cli0_def)
  moreover have "ancestors DEFAULT_CONFIG \<subseteq> dirs ?fs2"
    using ancestors_cut [OF default_config_dir] none by simp
  ultimately show ?thesis by (intro exI [of _ ?fs2]) simp
qed

theorem first_run_uses_defaults_witness:
  "\<exists>fs'. main_configure sample_parse ''defaults'' [] empty_fs = (Inr sample_config, fs') \<and>
     files fs' DEFAULT_CONFIG = Some ''defaults''"
  using first_run_uses_defaults [OF sample_defaults, of empty_fs] by (auto simp: empty_fs_def)

text \<open>All directories of a path are created, from the top, whatever exists of them already,
  when the process may create them and none is a file; the loop over the slashes fails only
  for a path whose only slash is its first character.\<close>

theorem parents_created:
  assumes "length path < 1024" "cut_last path = Some d" "d \<noteq> []" "\<And>p. may fs p"
    and "\<And>p q. p @ q = d \<Longrightarrow> p \<notin> dom (files fs)"
  shows "fst (ensure_parent_dir path fs) = 0 \<and> ancestors path \<subseteq> dirs (snd (ensure_parent_dir path fs)) \<and>
    files (snd (ensure_parent_dir path fs)) = files fs"
proof -
  obtain ds where "create_parents 1024 path fs = (True, fs\<lparr>dirs := ds\<rparr>)" "ancestors path \<subseteq> ds"
    using create_parents_made [OF assms(1-4)] assms(5) by blast
  then show ?thesis by (simp add: ensure_parent_dir_def)
qed

theorem parents_created_witness:
  "ancestors ''a/b/server.crt'' \<subseteq> dirs (snd (ensure_parent_dir ''a/b/server.crt'' empty_fs))"
proof -
  have cut: "cut_last ''a/b/server.crt'' = Some ''a/b''" by code_simp
  show ?thesis using parents_created [OF _ cut, of empty_fs] by (simp add: empty_fs_def)
qed

text \<open>The database layer only makes the last directory of the database path: when the one
  above it does not exist, opening the database fails, although the default configuration
  file promises that directories are created.\<close>

theorem database_directory_needs_parent:
  assumes "cut_last path = Some d" "cut_last d = Some g" "g \<noteq> []" "g \<notin> dirs fs" "d \<notin> dirs fs" "d \<notin> dom (files fs)"
  shows "ensure_directory path fs = (- 1, fs)"
  using assms by (simp add: ensure_directory_def mkdir_def has_parent_def)

theorem database_directory_needs_parent_witness:
  "ensure_directory ''a/b/x.db'' empty_fs = (- 1, empty_fs) \<and> fst (ensure_parent_dir ''a/b/x.db'' empty_fs) = 0"
proof -
  have cut: "cut_last ''a/b/x.db'' = Some ''a/b''" "cut_last ''a/b'' = Some ''a''" by code_simp+
  have "fst (ensure_parent_dir ''a/b/x.db'' empty_fs) = 0"
    using create_parents_made [OF _ cut(1), of 1024 empty_fs] by (auto simp: ensure_parent_dir_def empty_fs_def)
  then show ?thesis using database_directory_needs_parent [OF cut, of empty_fs] by (simp add: empty_fs_def)
qed

end
