(* ===== verification/Database_Layer.thy ===== *)
theory Database_Layer
  imports IQ_Handlers Config
begin

text \<open>
  The layer over SQLite (\<^verbatim>\<open>storage/db.c\<close>): opening the database, the migrations of its
  schema, and the cache of prepared statements every query goes through. SQLite is a
  parameter: \<open>compile\<close> is \<^verbatim>\<open>sqlite3_prepare_v2\<close> as a function of the text, and the records of
  calls say which of the other calls succeed. The locale \<open>statement_cache\<close> is what the
  queries rely on: preparing gives the compiled text, from the cache or not. The rest of the
  development uses it in the form of \<open>prepare_ok\<close>, which depends on the text alone.
\<close>

subsection \<open>Prepared statements\<close>

abbreviation MAX_STMTS :: nat where
  "MAX_STMTS \<equiv> 64"

record 'q cached =
  cs_stmt :: "'q option"
  cs_sql :: cstr

text \<open>The handle: \<open>Failed_db\<close> is one \<^verbatim>\<open>sqlite3_open\<close> returned with an error.\<close>

datatype db_handle = No_db | Failed_db | Open_db

record 'q db_layer =
  g_db :: db_handle
  g_stmts :: "'q cached list"

text \<open>\<^verbatim>\<open>storage_db_prepare\<close>; \<^term>\<open>None\<close> is the error result.\<close>

definition storage_db_prepare :: "(cstr \<Rightarrow> 'q option) \<Rightarrow> cstr \<Rightarrow> 'q db_layer \<Rightarrow> 'q cached option \<times> 'q db_layer" where
  "storage_db_prepare compile sql d =
     (case find (\<lambda>e. cs_sql e = sql) (g_stmts d) of
        Some e \<Rightarrow> (Some e, d)
      | None \<Rightarrow>
          if length (g_stmts d) \<ge> MAX_STMTS then (None, d)
          else (case compile sql of
                  None \<Rightarrow> (None, d)
                | Some q \<Rightarrow>
                    (let e = \<lparr> cs_stmt = Some q, cs_sql = take 511 sql \<rparr>
                     in (Some e, d\<lparr>g_stmts := g_stmts d @ [e]\<rparr>))))"

definition storage_db_close :: "'q db_layer \<Rightarrow> 'q db_layer" where
  "storage_db_close d = d\<lparr>g_db := No_db, g_stmts := []\<rparr>"

text \<open>Every statement the server prepares.\<close>

definition server_statements :: "cstr list" where
  "server_statements =
     [SQL_BLOCK_CHECK, SQL_BLOCK_ADD, SQL_BLOCK_REMOVE, SQL_BLOCK_LIST, SQL_VCARD_GET, SQL_VCARD_SET,
      SQL_VCARD_DELETE, SQL_PLAIN, SQL_USER_GET, SQL_USER_CREATE, SQL_USER_DISABLE, SQL_USER_DELETE,
      SQL_SCRAM_GET, SQL_SCRAM_HAS, SQL_SCRAM_SET, SQL_OFFLINE_INSERT, SQL_OFFLINE_COUNT,
      SQL_OFFLINE_BYTES, SQL_OFFLINE_LIST, SQL_OFFLINE_DELETE, SQL_OFFLINE_DELETE_ALL,
      SQL_ROSTER_LIST, SQL_ROSTER_GET, SQL_ROSTER_UPSERT, SQL_GROUPS_DELETE, SQL_GROUPS_INSERT,
      SQL_GROUPS_GET, SQL_ROSTER_REMOVE, SQL_VER_ITEMS, SQL_VER_PUT, SQL_VER_GET]"

subsection \<open>Migrations\<close>

abbreviation STORAGE_MAX_VERSION :: nat where
  "STORAGE_MAX_VERSION \<equiv> 9"

text \<open>The table or index each migration creates if it does not exist.\<close>

definition MIGRATIONS :: "cstr list" where
  "MIGRATIONS = [''users'', ''roster'', ''roster_groups'', ''offline_messages'', ''idx_offline_recipient'',
     ''roster_ver'', ''vcards'', ''blocklist'', ''idx_blocklist_owner'']"

text \<open>The objects of the database file, the rows of \<^verbatim>\<open>schema_version\<close> and whether that table exists.\<close>

record schema =
  objects :: "cstr set"
  versions :: "nat set"
  version_table :: bool

text \<open>A connection to the file: the schema its statements see and, while a transaction is open,
  the schema of the file when it began, which is what a rollback or a close goes back to.\<close>

record db_conn =
  db_now :: schema
  db_txn :: "schema option"

text \<open>Which calls succeed, and the row \<^verbatim>\<open>SELECT version ... LIMIT 1\<close> returns of several.\<close>

record migrate_calls =
  create_ok :: bool
  query_ok :: bool
  row_ok :: bool
  pick :: "nat set \<Rightarrow> nat"
  begin_ok :: bool
  exec_ok :: "cstr \<Rightarrow> bool"
  update_prepare_ok :: bool
  update_step_ok :: bool
  commit_ok :: bool
  rollback_ok :: bool

definition current_version :: "migrate_calls \<Rightarrow> schema \<Rightarrow> nat" where
  "current_version M sc = (if versions sc = {} \<or> \<not> row_ok M then 0 else pick M (versions sc))"

definition sql_begin :: "db_conn \<Rightarrow> db_conn" where
  "sql_begin c = c\<lparr>db_txn := Some (db_now c)\<rparr>"

definition sql_commit :: "db_conn \<Rightarrow> db_conn" where
  "sql_commit c = c\<lparr>db_txn := None\<rparr>"

text \<open>The code ignores the result of \<^verbatim>\<open>ROLLBACK\<close>; when it fails the transaction stays open.\<close>

definition sql_rollback :: "migrate_calls \<Rightarrow> db_conn \<Rightarrow> db_conn" where
  "sql_rollback M c =
     (case db_txn c of
        None \<Rightarrow> c
      | Some sc \<Rightarrow> if rollback_ok M then \<lparr> db_now = sc, db_txn = None \<rparr> else c)"

text \<open>What \<^verbatim>\<open>sqlite3_close\<close> leaves in the file: an open transaction is discarded.\<close>

definition sql_close :: "db_conn \<Rightarrow> schema" where
  "sql_close c = (case db_txn c of None \<Rightarrow> db_now c | Some sc \<Rightarrow> sc)"

text \<open>The statements of a migration: \<^verbatim>\<open>CREATE ... IF NOT EXISTS\<close> and the row of the new version.\<close>

definition sql_create :: "cstr \<Rightarrow> db_conn \<Rightarrow> db_conn" where
  "sql_create ob c = c\<lparr>db_now := (db_now c)\<lparr>objects := insert ob (objects (db_now c))\<rparr>\<rparr>"

definition sql_create_version_table :: "db_conn \<Rightarrow> db_conn" where
  "sql_create_version_table c = c\<lparr>db_now := (db_now c)\<lparr>version_table := True\<rparr>\<rparr>"

definition sql_put_version :: "nat \<Rightarrow> db_conn \<Rightarrow> db_conn" where
  "sql_put_version v c = c\<lparr>db_now := (db_now c)\<lparr>versions := insert v (versions (db_now c))\<rparr>\<rparr>"

text \<open>The loop over the missing versions.\<close>

fun run_migrations :: "migrate_calls \<Rightarrow> nat list \<Rightarrow> db_conn \<Rightarrow> int \<times> db_conn" where
  "run_migrations M [] c = (0, c)"
| "run_migrations M (v # vs) c =
     (if exec_ok M (MIGRATIONS ! (v - 1)) then run_migrations M vs (sql_create (MIGRATIONS ! (v - 1)) c)
      else (- 1, sql_rollback M c))"

text \<open>\<^verbatim>\<open>apply_migrations\<close>. The table \<^verbatim>\<open>schema_version\<close> is created outside the transaction; a failed
  commit leaves the transaction open.\<close>

definition apply_migrations :: "migrate_calls \<Rightarrow> db_conn \<Rightarrow> int \<times> db_conn" where
  "apply_migrations M c =
     (if \<not> create_ok M then (- 1, c)
      else
        (let c1 = sql_create_version_table c in
         if \<not> query_ok M then (- 1, c1)
         else
           (let cur = current_version M (db_now c1) in
            if cur \<ge> STORAGE_MAX_VERSION then (0, c1)
            else if \<not> begin_ok M then (- 1, c1)
            else
              (let m = run_migrations M [cur + 1..<STORAGE_MAX_VERSION + 1] (sql_begin c1) in
               if fst m \<noteq> 0 then m
               else if \<not> update_prepare_ok M then (- 1, sql_rollback M (snd m))
               else if \<not> update_step_ok M then (- 1, sql_rollback M (snd m))
               else
                 (let c2 = sql_put_version STORAGE_MAX_VERSION (snd m) in
                  if \<not> commit_ok M then (- 1, c2)
                  else (0, sql_commit c2))))))"

subsection \<open>Opening\<close>

text \<open>\<^verbatim>\<open>sqlite3_open\<close>: success, or an error with or without a handle.\<close>

datatype open_result = Open_ok | Open_failed bool

definition storage_db_open :: "open_result \<Rightarrow> migrate_calls \<Rightarrow> cstr \<Rightarrow> filesystem \<Rightarrow> schema \<Rightarrow>
    'q db_layer \<Rightarrow> int \<times> filesystem \<times> schema \<times> 'q db_layer" where
  "storage_db_open opened M path fs sc d =
     (if g_db d \<noteq> No_db then (0, fs, sc, d)
      else
        (let dir = ensure_directory path fs in
         if fst dir \<noteq> 0 then (- 1, snd dir, sc, d)
         else (case opened of
                 Open_failed handle \<Rightarrow> (- 1, snd dir, sc, d\<lparr>g_db := if handle then Failed_db else No_db\<rparr>)
               | Open_ok \<Rightarrow>
                   (let m = apply_migrations M \<lparr> db_now = sc, db_txn = None \<rparr> in
                    if fst m \<noteq> 0 then (- 1, snd dir, sql_close (snd m), d\<lparr>g_db := No_db\<rparr>)
                    else (0, snd dir, db_now (snd m), d\<lparr>g_db := Open_db\<rparr>)))))"

subsection \<open>What the queries rely on\<close>

text \<open>A sequence of prepares and closes, with the results of the prepares.\<close>

fun cache_run :: "(cstr \<Rightarrow> 'd \<Rightarrow> 'r option \<times> 'd) \<Rightarrow> ('d \<Rightarrow> 'd) \<Rightarrow> cstr option list \<Rightarrow> 'd \<Rightarrow> 'r option list \<times> 'd" where
  "cache_run prepare reset [] d = ([], d)"
| "cache_run prepare reset (None # ops) d = cache_run prepare reset ops (reset d)"
| "cache_run prepare reset (Some sql # ops) d =
     (let p = prepare sql d; r = cache_run prepare reset ops (snd p) in (fst p # fst r, snd r))"

definition prepared_of :: "cstr option list \<Rightarrow> cstr list" where
  "prepared_of ops = map the (filter (\<lambda>x. x \<noteq> None) ops)"

locale statement_cache =
  fixes compile :: "cstr \<Rightarrow> 'q option"
    and prepare :: "cstr \<Rightarrow> 'd \<Rightarrow> 'r option \<times> 'd"
    and reset :: "'d \<Rightarrow> 'd"
    and stmt :: "'r \<Rightarrow> 'q option"
    and valid :: "'d \<Rightarrow> bool"
    and holds :: "'d \<Rightarrow> cstr set"
    and fits :: "cstr \<Rightarrow> bool"
    and cap :: nat
  assumes holds_finite: "valid d \<Longrightarrow> finite (holds d)"
    and hit: "valid d \<Longrightarrow> sql \<in> holds d \<Longrightarrow>
      Option.bind (fst (prepare sql d)) stmt = compile sql \<and> snd (prepare sql d) = d"
    and miss: "valid d \<Longrightarrow> fits sql \<Longrightarrow> sql \<notin> holds d \<Longrightarrow> card (holds d) < cap \<Longrightarrow>
      Option.bind (fst (prepare sql d)) stmt = compile sql \<and> valid (snd (prepare sql d)) \<and>
      holds (snd (prepare sql d)) = (if compile sql = None then holds d else insert sql (holds d))"
    and reset_valid: "valid d \<Longrightarrow> valid (reset d)"
    and reset_holds: "holds (reset d) = {}"
begin

lemma prepare_within:
  assumes "valid d" "finite Q" "card Q \<le> cap" "\<And>s. s \<in> Q \<Longrightarrow> fits s" "holds d \<subseteq> Q" "sql \<in> Q"
  shows "Option.bind (fst (prepare sql d)) stmt = compile sql" "valid (snd (prepare sql d))"
    "holds (snd (prepare sql d)) \<subseteq> Q"
proof -
  have "Option.bind (fst (prepare sql d)) stmt = compile sql \<and> valid (snd (prepare sql d)) \<and>
      holds (snd (prepare sql d)) \<subseteq> Q"
  proof (cases "sql \<in> holds d")
    case True
    then show ?thesis using hit [OF assms(1)] assms(1,5) by auto
  next
    case False
    then have "card (holds d) < card Q" using assms(2,5,6) by (intro psubset_card_mono) auto
    then have "card (holds d) < cap" using assms(3) by simp
    from miss [OF assms(1) assms(4) [OF assms(6)] False this] show ?thesis
      using assms(5,6) by auto
  qed
  then show "Option.bind (fst (prepare sql d)) stmt = compile sql" "valid (snd (prepare sql d))"
    "holds (snd (prepare sql d)) \<subseteq> Q" by blast+
qed

lemma cache_run_compiles:
  assumes "finite Q" "card Q \<le> cap" "\<And>s. s \<in> Q \<Longrightarrow> fits s" "set (prepared_of ops) \<subseteq> Q"
    and "valid d" "holds d \<subseteq> Q"
  shows "map (\<lambda>r. Option.bind r stmt) (fst (cache_run prepare reset ops d)) = map compile (prepared_of ops)"
  using assms(4-6)
proof (induction ops arbitrary: d)
  case (Cons x ops)
  show ?case
  proof (cases x)
    case None
    then show ?thesis using Cons.IH [of "reset d"] Cons.prems reset_valid reset_holds
      by (simp add: prepared_of_def)
  next
    case (Some sql)
    then have "sql \<in> Q" using Cons.prems(1) by (simp add: prepared_of_def)
    note p = prepare_within [OF Cons.prems(2) assms(1-3) Cons.prems(3) this, simplified]
    then show ?thesis using Cons.IH [OF _ p(2,3)] Cons.prems(1) Some
      by (simp add: prepared_of_def Let_def)
  qed
qed (simp add: prepared_of_def)

end

subsection \<open>The cache keeps its promise\<close>

text \<open>Every entry is the compilation of its text, and no text has two entries.\<close>

definition cache_ok :: "(cstr \<Rightarrow> 'q option) \<Rightarrow> 'q db_layer \<Rightarrow> bool" where
  "cache_ok compile d \<longleftrightarrow> distinct (map cs_sql (g_stmts d)) \<and>
     (\<forall>e\<in>set (g_stmts d). compile (cs_sql e) \<noteq> None \<and> cs_stmt e = compile (cs_sql e))"

abbreviation cached_sql :: "'q db_layer \<Rightarrow> cstr set" where
  "cached_sql d \<equiv> set (map cs_sql (g_stmts d))"

lemma cached_found: "sql \<in> set (map cs_sql es) \<Longrightarrow> \<exists>e\<in>set es. find (\<lambda>e. cs_sql e = sql) es = Some e \<and> cs_sql e = sql"
  by (induction es) auto

lemma cached_missing: "sql \<notin> set (map cs_sql es) \<Longrightarrow> find (\<lambda>e. cs_sql e = sql) es = None"
  by (induction es) auto

lemma cached_card: "cache_ok compile d \<Longrightarrow> card (cached_sql d) = length (g_stmts d)"
  using distinct_card [of "map cs_sql (g_stmts d)"] by (simp add: cache_ok_def)

lemma prepare_hit:
  assumes "cache_ok compile d" "sql \<in> cached_sql d"
  shows "Option.bind (fst (storage_db_prepare compile sql d)) cs_stmt = compile sql \<and>
    snd (storage_db_prepare compile sql d) = d"
proof -
  obtain e where "e \<in> set (g_stmts d)" "find (\<lambda>e. cs_sql e = sql) (g_stmts d) = Some e" "cs_sql e = sql"
    using cached_found [OF assms(2)] by blast
  then show ?thesis using assms(1) by (auto simp: storage_db_prepare_def cache_ok_def)
qed

lemma prepare_miss:
  assumes "cache_ok compile d" "length sql < 512" "sql \<notin> cached_sql d" "length (g_stmts d) < MAX_STMTS"
  shows "Option.bind (fst (storage_db_prepare compile sql d)) cs_stmt = compile sql \<and>
    cache_ok compile (snd (storage_db_prepare compile sql d)) \<and>
    cached_sql (snd (storage_db_prepare compile sql d)) =
      (if compile sql = None then cached_sql d else insert sql (cached_sql d))"
proof -
  have "take 511 sql = sql" using assms(2) by simp
  then show ?thesis
    using assms(1,3,4) cached_missing [OF assms(3)]
    by (cases "compile sql") (simp_all add: storage_db_prepare_def cache_ok_def Let_def)
qed

interpretation db_cache: statement_cache compile "storage_db_prepare compile" storage_db_close cs_stmt
  "cache_ok compile" cached_sql "\<lambda>sql. length sql < 512" MAX_STMTS
  for compile :: "cstr \<Rightarrow> 'q option"
proof
  show "cache_ok compile d \<Longrightarrow> cache_ok compile (storage_db_close d)" for d
    by (simp add: cache_ok_def storage_db_close_def)
  show "cached_sql (storage_db_close d) = {}" for d :: "'q db_layer"
    by (simp add: storage_db_close_def)
  show "Option.bind (fst (storage_db_prepare compile sql d)) cs_stmt = compile sql \<and>
      cache_ok compile (snd (storage_db_prepare compile sql d)) \<and>
      cached_sql (snd (storage_db_prepare compile sql d)) =
        (if compile sql = None then cached_sql d else insert sql (cached_sql d))"
    if "cache_ok compile d" "length sql < 512" "sql \<notin> cached_sql d" "card (cached_sql d) < MAX_STMTS" for d sql
    by (rule prepare_miss [OF that(1-3)]) (use that(4) cached_card [OF that(1)] in simp)
qed (use prepare_hit in auto)

lemma statements_short: "\<forall>sql\<in>set server_statements. length sql < 512"
  by code_simp

lemma statements_few: "card (set server_statements) \<le> MAX_STMTS"
  using card_length [of server_statements] by (simp add: server_statements_def)

subsection \<open>Migrations\<close>

text \<open>The objects of every recorded version exist, and versions are recorded in the table only.\<close>

definition schema_ok :: "schema \<Rightarrow> bool" where
  "schema_ok sc \<longleftrightarrow> finite (versions sc) \<and> (\<forall>v\<in>versions sc. set (take v MIGRATIONS) \<subseteq> objects sc) \<and>
     (versions sc \<noteq> {} \<longrightarrow> version_table sc)"

text \<open>A connection outside a transaction, as \<^verbatim>\<open>sqlite3_open\<close> returns it.\<close>

abbreviation opened_conn :: "schema \<Rightarrow> db_conn" where
  "opened_conn sc \<equiv> \<lparr> db_now = sc, db_txn = None \<rparr>"

lemmas sql_defs = sql_begin_def sql_commit_def sql_close_def sql_create_def
  sql_create_version_table_def sql_put_version_def

lemma length_MIGRATIONS: "length MIGRATIONS = STORAGE_MAX_VERSION"
  by (simp add: MIGRATIONS_def)

lemma run_migrations_done:
  "fst (run_migrations M vs c) = 0 \<Longrightarrow> snd (run_migrations M vs c) =
     c\<lparr>db_now := (db_now c)\<lparr>objects := objects (db_now c) \<union> (\<lambda>v. MIGRATIONS ! (v - 1)) ` set vs\<rparr>\<rparr>"
  by (induction vs arbitrary: c) (auto simp: sql_create_def split: if_splits)

lemma rollback_discards:
  assumes "db_txn c = Some sc"
  shows "sql_close (sql_rollback M c) = sc" "rollback_ok M \<Longrightarrow> sql_rollback M c = opened_conn sc"
  using assms by (auto simp: sql_rollback_def sql_close_def)

lemma run_migrations_failed:
  assumes "fst (run_migrations M vs c) \<noteq> 0" "db_txn c = Some sc"
  shows "\<exists>d. run_migrations M vs c = (- 1, sql_rollback M d) \<and> db_txn d = Some sc"
  using assms by (induction vs arbitrary: c) (auto simp: sql_create_def split: if_splits)

lemma set_drop_nth: "set (drop n xs) = (\<lambda>i. xs ! i) ` {n..<length xs}"
proof -
  have "drop n xs = drop n (map (\<lambda>i. xs ! i) [0..<length xs])" by (simp add: map_nth)
  then show ?thesis by (metis add_0 atLeastLessThan_upt drop_map drop_upt image_set)
qed

lemma migrations_from:
  "set (take n MIGRATIONS) \<union> (\<lambda>v. MIGRATIONS ! (v - 1)) ` {n + 1..<STORAGE_MAX_VERSION + 1} = set MIGRATIONS"
proof -
  have eq: "{n + 1..<STORAGE_MAX_VERSION + 1} = (\<lambda>i. i + 1) ` {n..<STORAGE_MAX_VERSION}"
    by (simp only: image_add_atLeastLessThan')
  have "(\<lambda>v. MIGRATIONS ! (v - 1)) ` {n + 1..<STORAGE_MAX_VERSION + 1} = set (drop n MIGRATIONS)"
    unfolding eq image_image set_drop_nth length_MIGRATIONS by simp
  then show ?thesis by (metis append_take_drop_id set_append)
qed

abbreviation with_version_table :: "schema \<Rightarrow> schema" where
  "with_version_table sc \<equiv> sc\<lparr>version_table := True\<rparr>"

text \<open>The transaction: the loop and the update of the version.\<close>

lemma run_migrations_txn:
  "fst (run_migrations M vs c) = 0 \<Longrightarrow> db_txn (snd (run_migrations M vs c)) = db_txn c"
  by (simp add: run_migrations_done)

lemma apply_migrations_cases:
  assumes "apply_migrations M (opened_conn sc) = (rc, c)"
  obtains (early) "rc = - 1" "c = opened_conn (if create_ok M then with_version_table sc else sc)"
  | (rolled_back) d where "rc = - 1" "create_ok M" "c = sql_rollback M d" "db_txn d = Some (with_version_table sc)"
  | (uncommitted) "rc = - 1" "create_ok M" "\<not> commit_ok M" "db_txn c = Some (with_version_table sc)"
  | (current) "rc = 0" "STORAGE_MAX_VERSION \<le> current_version M sc" "c = opened_conn (with_version_table sc)"
  | (migrated) "rc = 0" "c = opened_conn \<lparr> objects = objects sc \<union>
         (\<lambda>v. MIGRATIONS ! (v - 1)) ` {current_version M sc + 1..<STORAGE_MAX_VERSION + 1},
       versions = insert STORAGE_MAX_VERSION (versions sc), version_table = True \<rparr>"
proof -
  let ?c1 = "opened_conn (with_version_table sc)"
  let ?vs = "[current_version M sc + 1..<STORAGE_MAX_VERSION + 1]"
  let ?m = "run_migrations M ?vs (sql_begin ?c1)"
  have cur: "current_version M (with_version_table sc) = current_version M sc" by (simp add: current_version_def)
  have c1: "sql_create_version_table (opened_conn sc) = ?c1" by (simp add: sql_create_version_table_def)
  have txn: "db_txn (sql_begin ?c1) = Some (with_version_table sc)" by (simp add: sql_begin_def)
  have run: "(rc, c) = (if \<not> create_ok M then (- 1, opened_conn sc) else if \<not> query_ok M then (- 1, ?c1)
      else if STORAGE_MAX_VERSION \<le> current_version M sc then (0, ?c1) else if \<not> begin_ok M then (- 1, ?c1)
      else if fst ?m \<noteq> 0 then ?m else if \<not> update_prepare_ok M then (- 1, sql_rollback M (snd ?m))
      else if \<not> update_step_ok M then (- 1, sql_rollback M (snd ?m))
      else if \<not> commit_ok M then (- 1, sql_put_version STORAGE_MAX_VERSION (snd ?m))
      else (0, sql_commit (sql_put_version STORAGE_MAX_VERSION (snd ?m))))"
    using assms unfolding apply_migrations_def Let_def c1 by (simp add: cur cong: if_cong del: upt_Suc)
  consider "\<not> create_ok M \<or> \<not> query_ok M \<or> STORAGE_MAX_VERSION \<le> current_version M sc \<or> \<not> begin_ok M"
    | "create_ok M" "query_ok M" "\<not> STORAGE_MAX_VERSION \<le> current_version M sc" "begin_ok M" "fst ?m \<noteq> 0"
    | "create_ok M" "query_ok M" "\<not> STORAGE_MAX_VERSION \<le> current_version M sc" "begin_ok M" "fst ?m = 0"
    by blast
  then show ?thesis
  proof cases
    case 1
    then show ?thesis using run early current by (simp split: if_splits)
  next
    case 2
    then show ?thesis using run run_migrations_failed [OF 2(5) txn] rolled_back by auto
  next
    case 3
    note ran = run_migrations_done [OF 3(5)]
    have "db_txn (snd ?m) = Some (with_version_table sc)" using run_migrations_txn [OF 3(5)] txn by simp
    then show ?thesis
      using run 3 rolled_back uncommitted migrated ran
      by (simp add: sql_put_version_def sql_commit_def sql_begin_def split: if_splits del: upt_Suc)
  qed
qed

lemma apply_migrations_failed:
  assumes "apply_migrations M (opened_conn sc) = (rc, c)" "rc \<noteq> 0"
  shows "sql_close c = (if create_ok M then with_version_table sc else sc)"
    and "rollback_ok M \<Longrightarrow> commit_ok M \<Longrightarrow> db_txn c = None"
  using assms(2) by (cases rule: apply_migrations_cases [OF assms(1)]; simp add: rollback_discards sql_close_def [of "opened_conn _"] sql_close_def [of c])+

lemma apply_migrations_ok:
  assumes "schema_ok sc" "\<And>vs. finite vs \<Longrightarrow> vs \<noteq> {} \<Longrightarrow> pick M vs \<in> vs"
    and "apply_migrations M (opened_conn sc) = (0, c)"
  shows "schema_ok (db_now c)" "set MIGRATIONS \<subseteq> objects (db_now c)" "db_txn c = None"
proof -
  have cur: "set (take (current_version M sc) MIGRATIONS) \<subseteq> objects sc"
    using assms(1,2) by (auto simp: current_version_def schema_ok_def)
  have "db_txn c = None \<and> set MIGRATIONS \<subseteq> objects (db_now c) \<and> schema_ok (db_now c)"
  proof (cases rule: apply_migrations_cases [OF assms(3)])
    case 4
    then show ?thesis using assms(1) cur length_MIGRATIONS by (auto simp: schema_ok_def)
  next
    case 5
    then have all: "set MIGRATIONS \<subseteq> objects (db_now c)"
      using cur migrations_from [of "current_version M sc"] by (auto simp del: upt_Suc)
    then show ?thesis using 5(2) assms(1) by (auto simp: schema_ok_def dest: in_set_takeD)
  qed simp_all
  then show "schema_ok (db_now c)" "set MIGRATIONS \<subseteq> objects (db_now c)" "db_txn c = None" by blast+
qed

lemma fresh_migration: "schema_ok \<lparr> objects = {}, versions = {}, version_table = False \<rparr>"
  by (simp add: schema_ok_def)

definition all_calls_ok :: migrate_calls where
  "all_calls_ok = \<lparr> create_ok = True, query_ok = True, row_ok = True, pick = Min, begin_ok = True,
     exec_ok = (\<lambda>ob. True), update_prepare_ok = True, update_step_ok = True, commit_ok = True,
     rollback_ok = True \<rparr>"

subsection \<open>Properties\<close>

text \<open>C33: the statement cache is transparent: in any sequence of prepares of the server's statements
  and closes of the database, each prepare gives exactly what compiling its text gives; the cache
  of 64 entries and 512 bytes a text is never too small.\<close>

theorem statements_prepared:
  assumes "cache_ok compile d" "cached_sql d \<subseteq> set server_statements"
    and "set (prepared_of ops) \<subseteq> set server_statements"
  shows "map (\<lambda>r. Option.bind r cs_stmt) (fst (cache_run (storage_db_prepare compile) storage_db_close ops d)) =
    map compile (prepared_of ops)"
  by (rule db_cache.cache_run_compiles [of "set server_statements"])
    (use assms statements_short statements_few in auto)

theorem statements_prepared_witness:
  "map (\<lambda>r. Option.bind r cs_stmt) (fst (cache_run (storage_db_prepare Some) storage_db_close
       [Some SQL_PLAIN, Some SQL_PLAIN, None, Some SQL_PLAIN] \<lparr> g_db = Open_db, g_stmts = [] \<rparr>)) =
     [Some SQL_PLAIN, Some SQL_PLAIN, Some SQL_PLAIN]"
  using statements_prepared [of Some "\<lparr> g_db = Open_db, g_stmts = [] \<rparr>"
    "[Some SQL_PLAIN, Some SQL_PLAIN, None, Some SQL_PLAIN]"]
  by (simp add: cache_ok_def prepared_of_def server_statements_def)

text \<open>C34: migrating is all or nothing. When it succeeds, the transaction is committed and every
  table and index exists, from whatever recorded version it started. When any call fails, what
  the file holds once the connection is closed is what it held before, except that the (empty)
  table \<^verbatim>\<open>schema_version\<close> may have been created, which happens before the transaction; and unless
  the \<^verbatim>\<open>COMMIT\<close> or a \<^verbatim>\<open>ROLLBACK\<close> itself failed, no transaction is left open.\<close>

theorem migrations_all_or_nothing:
  assumes "schema_ok sc" "\<And>vs. finite vs \<Longrightarrow> vs \<noteq> {} \<Longrightarrow> pick M vs \<in> vs"
    and "apply_migrations M \<lparr> db_now = sc, db_txn = None \<rparr> = (rc, c)"
  shows "if rc = 0
    then db_txn c = None \<and> schema_ok (db_now c) \<and> set MIGRATIONS \<subseteq> objects (db_now c)
    else sql_close c \<in> {sc, sc\<lparr>version_table := True\<rparr>} \<and> schema_ok (sql_close c) \<and>
      (commit_ok M \<and> rollback_ok M \<longrightarrow> db_txn c = None)"
proof (cases "rc = 0")
  case True
  then show ?thesis using apply_migrations_ok [OF assms(1,2)] assms(3) by simp
next
  case False
  then show ?thesis using apply_migrations_failed [OF assms(3)] assms(1) by (simp add: schema_ok_def)
qed

text \<open>The second creation fails on an empty file: the first one is undone.\<close>

theorem migrations_all_or_nothing_witness:
  "apply_migrations (all_calls_ok\<lparr>exec_ok := (\<lambda>ob. ob \<noteq> ''roster'')\<rparr>)
      \<lparr> db_now = \<lparr> objects = {}, versions = {}, version_table = False \<rparr>, db_txn = None \<rparr> =
    (- 1, \<lparr> db_now = \<lparr> objects = {}, versions = {}, version_table = True \<rparr>, db_txn = None \<rparr>) \<and>
   sql_close \<lparr> db_now = \<lparr> objects = {}, versions = {}, version_table = True \<rparr>, db_txn = None \<rparr> \<in>
     {\<lparr> objects = {}, versions = {}, version_table = False \<rparr>, \<lparr> objects = {}, versions = {}, version_table = True \<rparr>}"
proof -
  let ?M = "all_calls_ok\<lparr>exec_ok := (\<lambda>ob. ob \<noteq> ''roster'')\<rparr>"
  have run: "apply_migrations ?M \<lparr> db_now = \<lparr> objects = {}, versions = {}, version_table = False \<rparr>, db_txn = None \<rparr> =
    (- 1, \<lparr> db_now = \<lparr> objects = {}, versions = {}, version_table = True \<rparr>, db_txn = None \<rparr>)"
    by (simp add: apply_migrations_def all_calls_ok_def sql_defs sql_rollback_def current_version_def
        MIGRATIONS_def upt_rec)
  have "finite vs \<Longrightarrow> vs \<noteq> {} \<Longrightarrow> pick ?M vs \<in> vs" for vs by (simp add: all_calls_ok_def)
  from migrations_all_or_nothing [OF fresh_migration this run] run show ?thesis by simp
qed

text \<open>A database upgraded from an older version keeps the older row, and a query that returns
  the smallest row reads it again: every later start repeats the migrations, which do nothing.\<close>

lemma upgraded_looks_old:
  assumes "versions sc = {v}" "v < STORAGE_MAX_VERSION" "row_ok M" "\<And>vs. pick M vs = Min vs"
    "apply_migrations M (opened_conn sc) = (0, c)"
  shows "current_version M (db_now c) = v"
  by (cases rule: apply_migrations_cases [OF assms(5)]) (use assms(1-4) in \<open>simp_all add: current_version_def min_def\<close>)

text \<open>A failed open is forgotten: when \<^verbatim>\<open>sqlite3_open\<close> fails and returns a handle, the first
  call reports the error, and every later call reports success with that handle.\<close>

theorem open_failure_forgotten:
  assumes "g_db d = No_db" "fst (ensure_directory path fs) = 0"
    and "storage_db_open (Open_failed True) M path fs sc d = (rc, fs', sc', d')"
  shows "rc = - 1 \<and> storage_db_open opened M' path fs' sc' d' = (0, fs', sc', d') \<and> g_db d' = Failed_db"
  using assms by (auto simp: storage_db_open_def Let_def)

theorem open_failure_forgotten_witness:
  "storage_db_open Open_ok all_calls_ok ''x.db'' empty_fs \<lparr> objects = {}, versions = {}, version_table = False \<rparr>
     \<lparr> g_db = Failed_db, g_stmts = [] \<rparr> =
   (0, empty_fs, \<lparr> objects = {}, versions = {}, version_table = False \<rparr>, \<lparr> g_db = Failed_db, g_stmts = [] :: unit cached list \<rparr>)"
proof -
  have dir: "ensure_directory ''x.db'' empty_fs = (0, empty_fs)" by (simp add: ensure_directory_def cut_last_def)
  have "storage_db_open (Open_failed True) all_calls_ok ''x.db'' empty_fs \<lparr> objects = {}, versions = {}, version_table = False \<rparr>
      \<lparr> g_db = No_db, g_stmts = [] \<rparr> =
    (- 1, empty_fs, \<lparr> objects = {}, versions = {}, version_table = False \<rparr>, \<lparr> g_db = Failed_db, g_stmts = [] :: unit cached list \<rparr>)"
    using dir by (simp add: storage_db_open_def)
  from open_failure_forgotten [OF _ _ this] show ?thesis using dir by simp
qed

end
