(* ===== verification/Startup.thy ===== *)
theory Startup
  imports Database_Layer
begin

text \<open>
  The process from its start to its end: the TLS certificate and context (\<^verbatim>\<open>tls.c\<close>), logging
  (\<^verbatim>\<open>log.c\<close>), \<^verbatim>\<open>server_init\<close>, \<^verbatim>\<open>server_start\<close>, \<^verbatim>\<open>server_tls_cleanup\<close> and \<^verbatim>\<open>server_shutdown\<close>
  (\<^verbatim>\<open>server.c\<close>), and \<^verbatim>\<open>main\<close> up to and after the event loop (\<^verbatim>\<open>main.c\<close>). The state is what the
  process holds: files, log target, configuration, registry, database and TLS context. What
  mbedTLS, libuv, stumpless and SQLite answer is an argument; writing to a file that could be
  opened is taken to succeed.
\<close>

subsection \<open>The certificate\<close>

record mbed_calls =
  seed_rc :: int
  generate_rc :: int
  wrap_rc :: int
  crt_pem :: "int \<times> cstr"
  key_pem :: "int \<times> cstr"
  parse_crt :: "cstr option \<Rightarrow> int"
  parse_key :: "cstr option \<Rightarrow> int"
  config_defaults_rc :: int
  own_cert_rc :: int

definition write_pem_file :: "cstr \<Rightarrow> cstr \<Rightarrow> filesystem \<Rightarrow> int \<times> filesystem" where
  "write_pem_file path pem_data fs =
     (let w = fopen_write path pem_data fs in (if fst w then 0 else - 1, snd w))"

text \<open>From seeding the generator to the label \<^verbatim>\<open>cleanup\<close>: the value \<^verbatim>\<open>ret\<close> has there. A file that
  cannot be written leaves \<^verbatim>\<open>ret\<close> at the 0 of the encoding before it.\<close>

definition write_certificate :: "mbed_calls \<Rightarrow> cstr \<Rightarrow> cstr \<Rightarrow> filesystem \<Rightarrow> int \<times> filesystem" where
  "write_certificate M cert_path key_path fs =
     (if seed_rc M \<noteq> 0 then (seed_rc M, fs)
      else if generate_rc M \<noteq> 0 then (- 1, fs)
      else if wrap_rc M \<noteq> 0 then (wrap_rc M, fs)
      else if fst (crt_pem M) \<noteq> 0 then (fst (crt_pem M), fs)
      else
        (let w = write_pem_file cert_path (snd (crt_pem M)) fs in
         if fst w \<noteq> 0 then (0, snd w)
         else if fst (key_pem M) \<noteq> 0 then (fst (key_pem M), snd w)
         else (0, snd (write_pem_file key_path (snd (key_pem M)) (snd w)))))"

definition generate_self_signed_cert :: "mbed_calls \<Rightarrow> cstr \<Rightarrow> cstr \<Rightarrow> filesystem \<Rightarrow> int \<times> filesystem" where
  "generate_self_signed_cert M cert_path key_path fs =
     (let a = ensure_parent_dir cert_path fs in
      if fst a \<noteq> 0 then (- 1, snd a)
      else
        (let b = ensure_parent_dir key_path (snd a) in
         if fst b \<noteq> 0 then (- 1, snd b)
         else
           (let r = write_certificate M cert_path key_path (snd b)
            in (if fst r = 0 then 0 else - 1, snd r))))"

subsection \<open>The TLS context\<close>

text \<open>What the three parts of the context hold: the configuration once it has its certificate,
  and the text the certificate and the key were read from.\<close>

record tls_server_ctx =
  ctx_conf :: bool
  ctx_cert :: "cstr option"
  ctx_key :: "cstr option"

definition tls_server_ctx_free :: "tls_server_ctx \<Rightarrow> tls_server_ctx" where
  "tls_server_ctx_free c = c\<lparr>ctx_conf := False, ctx_cert := None, ctx_key := None\<rparr>"

definition tls_server_ctx_init :: "mbed_calls \<Rightarrow> cstr \<Rightarrow> cstr \<Rightarrow> filesystem \<Rightarrow> tls_server_ctx \<Rightarrow>
    int \<times> tls_server_ctx" where
  "tls_server_ctx_init M cert_path key_path fs c =
     (let c0 = c\<lparr>ctx_conf := False, ctx_cert := None, ctx_key := None\<rparr> in
      if parse_crt M (files fs cert_path) \<noteq> 0 then (- 1, tls_server_ctx_free c0)
      else
        (let c1 = c0\<lparr>ctx_cert := files fs cert_path\<rparr> in
         if parse_key M (files fs key_path) \<noteq> 0 then (- 1, tls_server_ctx_free c1)
         else
           (let c2 = c1\<lparr>ctx_key := files fs key_path\<rparr> in
            if config_defaults_rc M \<noteq> 0 then (- 1, tls_server_ctx_free c2)
            else if own_cert_rc M \<noteq> 0 then (- 1, tls_server_ctx_free c2)
            else (0, c2\<lparr>ctx_conf := True\<rparr>))))"

subsection \<open>The process\<close>

record 'q process =
  p_fs :: filesystem
  p_log :: bool
  p_quiet :: bool
  p_config :: server_config
  p_registry :: "iq_fn iq_registry"
  p_schema :: schema
  p_db :: "'q db_layer"
  g_tls_ctx :: tls_server_ctx
  g_tls_ctx_ready :: bool

text \<open>What the calls outside the repository answer during one run.\<close>

record startup_calls =
  log_opens :: bool
  db_opens :: open_result
  migrating :: migrate_calls
  mbed :: mbed_calls
  addr_ok :: bool
  bind_ok :: bool
  listen_ok :: bool

text \<open>\<open>p_log\<close> is whether there is a target, \<open>p_quiet\<close> whether its mask lets only warnings and worse through. A
  new target has the mask of stumpless, which lets everything through.\<close>

definition log_init :: "startup_calls \<Rightarrow> 'q process \<Rightarrow> 'q process" where
  "log_init C p = (if p_log p then p else p\<lparr>p_log := log_opens C, p_quiet := False\<rparr>)"

definition log_silence :: "'q process \<Rightarrow> 'q process" where
  "log_silence p = (if \<not> p_log p then p else p\<lparr>p_quiet := True\<rparr>)"

definition log_free :: "'q process \<Rightarrow> 'q process" where
  "log_free p = (if \<not> p_log p then p else p\<lparr>p_log := False\<rparr>)"

definition dispatch_down :: "'q process \<Rightarrow> 'q process" where
  "dispatch_down p = p\<lparr>p_registry := iq_dispatch_shutdown (p_registry p)\<rparr>"

definition open_db :: "startup_calls \<Rightarrow> 'q process \<Rightarrow> int \<times> 'q process" where
  "open_db C p =
     (case storage_db_open (db_opens C) (migrating C) (db_path (p_config p)) (p_fs p) (p_schema p) (p_db p) of
        (rc, fs, sc, d) \<Rightarrow> (rc, p\<lparr>p_fs := fs, p_schema := sc, p_db := d\<rparr>))"

definition server_init :: "startup_calls \<Rightarrow> 'q process \<Rightarrow> int \<times> 'q process" where
  "server_init C p0 =
     (let p = log_init C p0; a = run_inits server_inits (p_registry p);
          p1 = p\<lparr>p_registry := snd a\<rparr>
      in if iq_dispatch_init \<noteq> 0 then (- 1, log_free p)
         else if fst a \<noteq> 0 then (- 1, log_free p1)
         else
           (let o1 = open_db C p1 in
            if fst o1 \<noteq> 0 then (- 1, log_free (dispatch_down (snd o1))) else (0, snd o1)))"

definition file_exists :: "cstr \<Rightarrow> filesystem \<Rightarrow> bool" where
  "file_exists path fs \<longleftrightarrow> path \<in> dirs fs \<or> path \<in> dom (files fs)"

text \<open>\<^verbatim>\<open>server_tls_cleanup\<close>; the label \<^verbatim>\<open>fail_tls\<close> does the same.\<close>

definition server_tls_cleanup :: "'q process \<Rightarrow> 'q process" where
  "server_tls_cleanup p =
     (if g_tls_ctx_ready p
      then p\<lparr>g_tls_ctx := tls_server_ctx_free (g_tls_ctx p), g_tls_ctx_ready := False\<rparr> else p)"

definition start_tls :: "startup_calls \<Rightarrow> 'q process \<Rightarrow> int \<times> 'q process" where
  "start_tls C p =
     (let cert = tls_cert_file (p_config p); key = tls_key_file (p_config p) in
      if cert \<noteq> [] \<and> key \<noteq> [] then
        (let g = (if \<not> file_exists cert (p_fs p) \<or> \<not> file_exists key (p_fs p)
                  then generate_self_signed_cert (mbed C) cert key (p_fs p) else (0, p_fs p));
             p1 = p\<lparr>p_fs := snd g\<rparr>
         in if fst g \<noteq> 0 then (- 1, p1)
            else
              (let c = tls_server_ctx_init (mbed C) cert key (p_fs p1) (g_tls_ctx p1) in
               if fst c \<noteq> 0 then (- 1, p1\<lparr>g_tls_ctx := snd c\<rparr>)
               else (0, p1\<lparr>g_tls_ctx := snd c, g_tls_ctx_ready := True\<rparr>)))
      else (0, p))"

definition server_start :: "startup_calls \<Rightarrow> 'q process \<Rightarrow> int \<times> 'q process" where
  "server_start C p =
     (let t = start_tls C p in
      if fst t \<noteq> 0 then (- 1, snd t)
      else if \<not> addr_ok C then (- 1, server_tls_cleanup (snd t))
      else if \<not> bind_ok C then (- 1, server_tls_cleanup (snd t))
      else if \<not> listen_ok C then (- 1, server_tls_cleanup (snd t))
      else (0, snd t))"

definition server_shutdown :: "'q process \<Rightarrow> 'q process" where
  "server_shutdown p = log_free (dispatch_down (p\<lparr>p_db := storage_db_close (p_db p)\<rparr>))"

text \<open>\<^verbatim>\<open>main\<close> up to the event loop, and from there with the signal that ends the loop. A process
  that exits while it reads its configuration keeps the defaults here.\<close>

datatype main_result = Exit int | Running

definition main_start :: "startup_calls \<Rightarrow> (cstr \<Rightarrow> settings option) \<Rightarrow> cstr \<Rightarrow> cli_option list \<Rightarrow>
    'q process \<Rightarrow> main_result \<times> 'q process" where
  "main_start C parse content options p =
     (case config_parse_default_config parse content of
        None \<Rightarrow> (Exit 1, p)
      | Some defaults \<Rightarrow>
          (let p1 = log_init C (p\<lparr>p_config := defaults\<rparr>) in
           case main_configure parse content options (p_fs p1) of
             (Inl rc, fs) \<Rightarrow> (Exit rc, log_free (p1\<lparr>p_fs := fs\<rparr>))
           | (Inr cfg, fs) \<Rightarrow>
               (let i = server_init C (p1\<lparr>p_config := cfg, p_fs := fs\<rparr>) in
                if fst i \<noteq> 0 then (Exit 1, snd i)
                else
                  (let s = server_start C (snd i) in
                   if fst s \<noteq> 0 then (Exit 1, server_shutdown (snd s)) else (Running, snd s)))))"

text \<open>What \<^verbatim>\<open>on_signal\<close> does to the process besides closing the handles of the loop.\<close>

definition on_signal_tls :: "'q process \<Rightarrow> 'q process" where
  "on_signal_tls p =
     (if g_tls_ctx_ready p
      then p\<lparr>g_tls_ctx := tls_server_ctx_free (g_tls_ctx p), g_tls_ctx_ready := False\<rparr> else p)"

text \<open>\<^verbatim>\<open>main\<close> after the event loop.\<close>

definition main_end :: "'q process \<Rightarrow> main_result \<times> 'q process" where
  "main_end p = (Exit 0, server_shutdown p)"


subsection \<open>What a run holds and releases\<close>

definition tls_empty :: tls_server_ctx where
  "tls_empty = \<lparr> ctx_conf = False, ctx_cert = None, ctx_key = None \<rparr>"

text \<open>Nothing is held: no log target, no handler, no statement, no TLS context, and no database.\<close>

definition released_but_db :: "'q process \<Rightarrow> bool" where
  "released_but_db p \<longleftrightarrow> \<not> p_log p \<and> handlers (p_registry p) = [] \<and> g_stmts (p_db p) = [] \<and>
     \<not> g_tls_ctx_ready p \<and> g_tls_ctx p = tls_empty"

definition released :: "'q process \<Rightarrow> bool" where
  "released p \<longleftrightarrow> released_but_db p \<and> g_db (p_db p) = No_db"

definition fresh_process :: "'q process \<Rightarrow> bool" where
  "fresh_process p \<longleftrightarrow> released p \<and> p_registry p = iq_registry0"

definition server_registry :: "iq_fn iq_registry" where
  "server_registry = \<lparr> handlers = roster_handlers @ disco_handlers @ ping_handlers @ carbons_handlers @ vcard_handlers @
       blocking_handlers, is_sorted = False \<rparr>"

lemma tls_free_empty [simp]: "tls_server_ctx_free c = tls_empty"
  by (simp add: tls_server_ctx_free_def tls_empty_def)

lemma ctx_init_failed: "fst (tls_server_ctx_init M cert key fs c) \<noteq> 0 \<Longrightarrow> snd (tls_server_ctx_init M cert key fs c) = tls_empty"
  by (auto simp: tls_server_ctx_init_def Let_def split: if_splits)

lemma ctx_init_loaded:
  "fst (tls_server_ctx_init M cert key fs c) = 0 \<Longrightarrow>
     snd (tls_server_ctx_init M cert key fs c) = \<lparr> ctx_conf = True, ctx_cert = files fs cert, ctx_key = files fs key \<rparr> \<and>
     parse_crt M (files fs cert) = 0 \<and> parse_key M (files fs key) = 0"
  by (auto simp: tls_server_ctx_init_def Let_def split: if_splits)

lemma log_simps [simp]:
  "\<not> p_log (log_free p)" "p_registry (log_free p) = p_registry p" "p_db (log_free p) = p_db p"
  "g_tls_ctx_ready (log_free p) = g_tls_ctx_ready p" "g_tls_ctx (log_free p) = g_tls_ctx p"
  "p_registry (log_init C p) = p_registry p" "p_db (log_init C p) = p_db p" "p_fs (log_init C p) = p_fs p"
  "g_tls_ctx_ready (log_init C p) = g_tls_ctx_ready p" "g_tls_ctx (log_init C p) = g_tls_ctx p"
  "p_config (log_init C p) = p_config p" "p_schema (log_init C p) = p_schema p"
  by (simp_all add: log_free_def log_init_def)

text \<open>Initialising again keeps a silenced target silent; without a target silencing does nothing,
  and a target opened after \<^const>\<open>log_free\<close> is not silent.\<close>

lemma log_silence_kept:
  "log_init C (log_silence (log_init C p)) = log_silence (log_init C p)"
  "log_silence (log_free p) = log_free p"
  "log_opens C \<Longrightarrow> p_log (log_init C (log_free p)) \<and> \<not> p_quiet (log_init C (log_free p))"
  by (auto simp: log_init_def log_silence_def log_free_def)

text \<open>All handlers fit in the registry.\<close>

lemma register_server: "run_inits server_inits iq_registry0 = (0, server_registry)"
  by code_simp

lemma server_registry_inv: "registry_inv server_registry"
  by (simp add: registry_inv_def server_registry_def roster_handlers_def disco_handlers_def
      ping_handlers_def carbons_handlers_def vcard_handlers_def blocking_handlers_def IQ_HANDLER_def)

lemma open_db_simps [simp]:
  "p_registry (snd (open_db C p)) = p_registry p" "p_config (snd (open_db C p)) = p_config p"
  "g_tls_ctx (snd (open_db C p)) = g_tls_ctx p" "g_tls_ctx_ready (snd (open_db C p)) = g_tls_ctx_ready p"
  "p_log (snd (open_db C p)) = p_log p"
  by (simp_all add: open_db_def split: prod.split)

lemma open_db_failed:
  assumes "p_db p = \<lparr> g_db = No_db, g_stmts = [] \<rparr>" "fst (open_db C p) \<noteq> 0"
  shows "g_stmts (p_db (snd (open_db C p))) = []"
    and "g_db (p_db (snd (open_db C p))) = No_db \<or>
      db_opens C = Open_failed True \<and> g_db (p_db (snd (open_db C p))) = Failed_db"
  using assms by (auto simp: open_db_def storage_db_open_def Let_def split: open_result.splits if_splits)

lemma open_db_opened:
  assumes "g_db (p_db p) = No_db" "fst (open_db C p) = 0" "schema_ok (p_schema p)"
    and "\<And>vs. finite vs \<Longrightarrow> vs \<noteq> {} \<Longrightarrow> pick (migrating C) vs \<in> vs"
  shows "g_db (p_db (snd (open_db C p))) = Open_db \<and> g_stmts (p_db (snd (open_db C p))) = g_stmts (p_db p) \<and>
    set MIGRATIONS \<subseteq> objects (p_schema (snd (open_db C p)))"
  using assms(1,2) apply_migrations_ok(2) [OF assms(3,4), of "snd (apply_migrations (migrating C) (opened_conn (p_schema p)))"]
  by (auto simp: open_db_def storage_db_open_def Let_def prod_eq_iff split: open_result.splits if_splits)

lemma server_init_cases:
  assumes "p_registry p = iq_registry0" "fst (server_init C p) = 0"
  shows "server_init C p = (0, snd (open_db C ((log_init C p)\<lparr>p_registry := server_registry\<rparr>))) \<and>
    fst (open_db C ((log_init C p)\<lparr>p_registry := server_registry\<rparr>)) = 0"
  using assms by (auto simp: server_init_def iq_dispatch_init_def register_server Let_def split: if_splits)

lemma server_init_failed:
  assumes "p_registry p = iq_registry0" "fst (server_init C p) \<noteq> 0" "p_db p = \<lparr> g_db = No_db, g_stmts = [] \<rparr>"
    and "\<not> g_tls_ctx_ready p" "g_tls_ctx p = tls_empty"
  shows "released_but_db (snd (server_init C p)) \<and> (g_db (p_db (snd (server_init C p))) = No_db \<or>
    db_opens C = Open_failed True \<and> g_db (p_db (snd (server_init C p))) = Failed_db)"
  using assms open_db_failed [of "(log_init C p)\<lparr>p_registry := server_registry\<rparr>" C]
  by (auto simp: server_init_def iq_dispatch_init_def register_server Let_def released_def released_but_db_def dispatch_down_def iq_dispatch_shutdown_def
      split: if_splits)

lemma start_tls_simps [simp]:
  "p_registry (snd (start_tls C p)) = p_registry p" "p_db (snd (start_tls C p)) = p_db p"
  "p_config (snd (start_tls C p)) = p_config p" "p_schema (snd (start_tls C p)) = p_schema p"
  by (simp_all add: start_tls_def Let_def)

lemma cleanup_simps [simp]:
  "p_registry (server_tls_cleanup p) = p_registry p" "p_db (server_tls_cleanup p) = p_db p"
  "p_config (server_tls_cleanup p) = p_config p" "p_schema (server_tls_cleanup p) = p_schema p"
  "\<not> g_tls_ctx_ready (server_tls_cleanup p)"
  by (simp_all add: server_tls_cleanup_def)

text \<open>The TLS context is loaded exactly when it is marked ready.\<close>

definition tls_consistent :: "'q process \<Rightarrow> bool" where
  "tls_consistent p \<longleftrightarrow> (\<not> g_tls_ctx_ready p \<longrightarrow> g_tls_ctx p = tls_empty)"

lemma start_tls_consistent: "tls_consistent p \<Longrightarrow> \<not> g_tls_ctx_ready p \<Longrightarrow> tls_consistent (snd (start_tls C p))"
  using ctx_init_failed by (fastforce simp: start_tls_def tls_consistent_def Let_def)

lemma start_tls_failed: "fst (start_tls C p) \<noteq> 0 \<Longrightarrow> g_tls_ctx_ready (snd (start_tls C p)) = g_tls_ctx_ready p"
  by (auto simp: start_tls_def Let_def split: if_splits)

lemma start_tls_started:
  assumes "fst (start_tls C p) = 0" "\<not> g_tls_ctx_ready p" "p' = snd (start_tls C p)"
  shows "(g_tls_ctx_ready p' \<longleftrightarrow> tls_cert_file (p_config p) \<noteq> [] \<and> tls_key_file (p_config p) \<noteq> []) \<and>
    (g_tls_ctx_ready p' \<longrightarrow>
       g_tls_ctx p' = \<lparr> ctx_conf = True, ctx_cert = files (p_fs p') (tls_cert_file (p_config p)),
         ctx_key = files (p_fs p') (tls_key_file (p_config p)) \<rparr> \<and>
       parse_crt (mbed C) (ctx_cert (g_tls_ctx p')) = 0 \<and> parse_key (mbed C) (ctx_key (g_tls_ctx p')) = 0)"
  using assms ctx_init_loaded
  by (fastforce simp: start_tls_def Let_def split: if_splits)

lemma server_start_failed:
  assumes "fst (server_start C p) \<noteq> 0" "tls_consistent p" "\<not> g_tls_ctx_ready p"
  shows "released (server_shutdown (snd (server_start C p)))"
proof -
  have "released (server_shutdown q)" if "tls_consistent q" "\<not> g_tls_ctx_ready q" for q :: "'a process"
    using that by (simp add: released_def released_but_db_def server_shutdown_def dispatch_down_def iq_dispatch_shutdown_def
        storage_db_close_def tls_consistent_def)
  moreover have "tls_consistent (server_tls_cleanup q)" if "tls_consistent q" for q :: "'a process"
    using that by (auto simp: tls_consistent_def server_tls_cleanup_def)
  ultimately show ?thesis
    using assms start_tls_consistent [OF assms(2,3), of C] start_tls_failed [of C p]
    by (auto simp: server_start_def Let_def split: if_splits)
qed

lemma main_end_released: "tls_consistent p \<Longrightarrow> released (snd (main_end (on_signal_tls p)))"
  by (auto simp: main_end_def server_shutdown_def on_signal_tls_def tls_consistent_def released_def released_but_db_def
      dispatch_down_def iq_dispatch_shutdown_def storage_db_close_def)

text \<open>The ways through \<^const>\<open>main_start\<close>.\<close>

lemma main_start_cases [consumes 1, case_names embedded configuring init start running]:
  assumes "main_start C parse content options p = (r, p')"
  obtains
    "r = Exit 1" "p' = p"
  | defaults rc fs where "r = Exit rc" "p' = log_free ((log_init C (p\<lparr>p_config := defaults\<rparr>))\<lparr>p_fs := fs\<rparr>)"
  | defaults cfg fs p1 where "p1 = (log_init C (p\<lparr>p_config := defaults\<rparr>))\<lparr>p_config := cfg, p_fs := fs\<rparr>"
      "fst (server_init C p1) \<noteq> 0" "r = Exit 1" "p' = snd (server_init C p1)"
  | defaults cfg fs p1 where "p1 = (log_init C (p\<lparr>p_config := defaults\<rparr>))\<lparr>p_config := cfg, p_fs := fs\<rparr>"
      "fst (server_init C p1) = 0" "fst (server_start C (snd (server_init C p1))) \<noteq> 0" "r = Exit 1"
      "p' = server_shutdown (snd (server_start C (snd (server_init C p1))))"
  | defaults cfg fs p1 where "p1 = (log_init C (p\<lparr>p_config := defaults\<rparr>))\<lparr>p_config := cfg, p_fs := fs\<rparr>"
      "main_configure parse content options (p_fs p) = (Inr cfg, fs)"
      "fst (server_init C p1) = 0" "fst (server_start C (snd (server_init C p1))) = 0" "r = Running"
      "p' = snd (server_start C (snd (server_init C p1)))"
proof (cases "config_parse_default_config parse content")
  case None
  then show ?thesis using assms that(1) by (simp add: main_start_def)
next
  case (Some defaults)
  let ?p = "log_init C (p\<lparr>p_config := defaults\<rparr>)"
  obtain c fs where m: "main_configure parse content options (p_fs p) = (c, fs)" by fastforce
  show ?thesis
  proof (cases c)
    case (Inl rc)
    then show ?thesis using assms Some m that(2) [of rc fs defaults] by (simp add: main_start_def Let_def)
  next
    case (Inr cfg)
    let ?p1 = "?p\<lparr>p_config := cfg, p_fs := fs\<rparr>"
    have "(r, p') = (if fst (server_init C ?p1) \<noteq> 0 then (Exit 1, snd (server_init C ?p1))
        else if fst (server_start C (snd (server_init C ?p1))) \<noteq> 0
        then (Exit 1, server_shutdown (snd (server_start C (snd (server_init C ?p1)))))
        else (Running, snd (server_start C (snd (server_init C ?p1)))))"
      using assms Some m Inr by (simp add: main_start_def Let_def cong: if_cong)
    then show ?thesis
      using that(3-5) [of ?p1] m Inr by (simp split: if_splits)
  qed
qed


declare domIff [code_unfold]

text \<open>Before \<^const>\<open>server_start\<close> runs.\<close>

lemma server_init_done:
  assumes "fresh_process p" "schema_ok (p_schema p)" "\<And>vs. finite vs \<Longrightarrow> vs \<noteq> {} \<Longrightarrow> pick (migrating C) vs \<in> vs"
    and "p1 = (log_init C (p\<lparr>p_config := defaults\<rparr>))\<lparr>p_config := cfg, p_fs := fs\<rparr>" "fst (server_init C p1) = 0"
    and "q = snd (server_init C p1)"
  shows "p_config q = cfg" "p_registry q = server_registry" "g_db (p_db q) = Open_db" "g_stmts (p_db q) = []"
    "set MIGRATIONS \<subseteq> objects (p_schema q)" "\<not> g_tls_ctx_ready q" "tls_consistent q"
proof -
  let ?p2 = "(log_init C p1)\<lparr>p_registry := server_registry\<rparr>"
  have r: "p_registry p1 = iq_registry0" using assms(1,4) by (simp add: fresh_process_def)
  have q: "q = snd (open_db C ?p2)" "fst (open_db C ?p2) = 0"
    using server_init_cases [OF r assms(5)] assms(6) by auto
  have "g_db (p_db ?p2) = No_db" "schema_ok (p_schema ?p2)" "g_stmts (p_db ?p2) = []" "\<not> g_tls_ctx_ready ?p2" "g_tls_ctx ?p2 = tls_empty"
    "p_config ?p2 = cfg"
    using assms(1,2,4) by (simp_all add: fresh_process_def released_def released_but_db_def)
  then show "p_config q = cfg" "p_registry q = server_registry" "g_db (p_db q) = Open_db" "g_stmts (p_db q) = []"
    "set MIGRATIONS \<subseteq> objects (p_schema q)" "\<not> g_tls_ctx_ready q" "tls_consistent q"
    using open_db_opened [OF _ q(2) _ assms(3)] q(1) by (simp_all add: tls_consistent_def)
qed

lemma fresh_db: "fresh_process p \<Longrightarrow> p_db p = \<lparr> g_db = No_db, g_stmts = [] \<rparr>"
  by (cases "p_db p") (simp add: fresh_process_def released_def released_but_db_def)

lemma server_start_running:
  "fst (server_start C p) = 0 \<Longrightarrow> fst (start_tls C p) = 0 \<and> snd (server_start C p) = snd (start_tls C p)"
  by (auto simp: server_start_def Let_def split: if_splits)

lemma generated_files:
  assumes "seed_rc M = 0" "generate_rc M = 0" "wrap_rc M = 0" "crt_pem M = (0, crt)" "key_pem M = (0, key)"
    and "ensure_parent_dir cert_path fs = (0, fs1)" "ensure_parent_dir key_path fs1 = (0, fs2)"
    and "fst (fopen_write cert_path crt fs2)" "fst (fopen_write key_path key (snd (fopen_write cert_path crt fs2)))"
  shows "fst (generate_self_signed_cert M cert_path key_path fs) = 0 \<and>
    files (snd (generate_self_signed_cert M cert_path key_path fs)) = (files fs2)(cert_path \<mapsto> crt, key_path \<mapsto> key)"
  using assms by (auto simp: generate_self_signed_cert_def write_certificate_def write_pem_file_def fopen_write_def Let_def split: if_splits)

subsection \<open>A first run\<close>

definition tls_settings :: settings where
  "tls_settings = sample_settings\<lparr>lookup_string := (lookup_string sample_settings)
     (''tls_cert_file'' \<mapsto> ''data/tls/server.crt'', ''tls_key_file'' \<mapsto> ''data/tls/server.key'')\<rparr>"

definition tls_parse :: "cstr \<Rightarrow> settings option" where
  "tls_parse txt = (if txt = ''defaults'' then Some tls_settings else None)"

definition first_process :: "unit process" where
  "first_process = \<lparr> p_fs = empty_fs, p_log = False, p_quiet = False, p_config = zero_config, p_registry = iq_registry0,
     p_schema = \<lparr> objects = {}, versions = {}, version_table = False \<rparr>, p_db = \<lparr> g_db = No_db, g_stmts = [] \<rparr>,
     g_tls_ctx = tls_empty, g_tls_ctx_ready = False \<rparr>"

definition all_ok :: startup_calls where
  "all_ok = \<lparr> log_opens = True, db_opens = Open_ok, migrating = all_calls_ok,
     mbed = \<lparr> seed_rc = 0, generate_rc = 0, wrap_rc = 0, crt_pem = (0, ''CRT''), key_pem = (0, ''KEY''),
       parse_crt = (\<lambda>t. if t = Some ''CRT'' then 0 else - 1), parse_key = (\<lambda>t. if t = Some ''KEY'' then 0 else - 1),
       config_defaults_rc = 0, own_cert_rc = 0 \<rparr>,
     addr_ok = True, bind_ok = True, listen_ok = True \<rparr>"

lemma pick_row: "finite vs \<Longrightarrow> vs \<noteq> {} \<Longrightarrow> pick (migrating all_ok) vs \<in> vs"
  by (simp add: all_ok_def all_calls_ok_def)

lemma first_fresh: "fresh_process first_process"
  by (simp add: fresh_process_def released_def released_but_db_def first_process_def iq_registry0_def)

lemma first_run: "fst (main_start all_ok tls_parse ''defaults'' [] first_process) = Running"
  by code_simp

subsection \<open>Properties\<close>

text \<open>C31: when \<^verbatim>\<open>main\<close> reaches its event loop everything the rest of the server relies on is there:
  the configuration is valid, the database is open with every table and an empty statement
  cache, exactly the server's handlers are registered, and STARTTLS is available exactly
  when both files are configured, with a certificate and a key that were read from
  these files and accepted.\<close>

theorem startup_establishes:
  assumes "fresh_process p" "schema_ok (p_schema p)" "\<And>vs. finite vs \<Longrightarrow> vs \<noteq> {} \<Longrightarrow> pick (migrating C) vs \<in> vs"
    and "main_start C parse content options p = (Running, p')"
  shows "config_ok (p_config p') \<and> g_db (p_db p') = Open_db \<and> g_stmts (p_db p') = [] \<and>
    set MIGRATIONS \<subseteq> objects (p_schema p') \<and> p_registry p' = server_registry \<and> registry_inv (p_registry p') \<and>
    (g_tls_ctx_ready p' \<longleftrightarrow> tls_cert_file (p_config p') \<noteq> [] \<and> tls_key_file (p_config p') \<noteq> []) \<and>
    (g_tls_ctx_ready p' \<longrightarrow>
       g_tls_ctx p' = \<lparr> ctx_conf = True, ctx_cert = files (p_fs p') (tls_cert_file (p_config p')),
         ctx_key = files (p_fs p') (tls_key_file (p_config p')) \<rparr> \<and>
       parse_crt (mbed C) (ctx_cert (g_tls_ctx p')) = 0 \<and> parse_key (mbed C) (ctx_key (g_tls_ctx p')) = 0)"
  using assms(4)
proof (cases rule: main_start_cases)
  case (running defaults cfg fs p1)
  let ?q = "snd (server_init C p1)"
  note initialised = server_init_done [OF assms(1-3) running(1,3) refl]
  note started = server_start_running [OF running(4)]
  show ?thesis
    using initialised started start_tls_started [of C ?q p'] main_configure_ok [OF running(2)] running(6)
      server_registry_inv by auto
qed simp_all

theorem startup_establishes_witness:
  "\<exists>p'. main_start all_ok tls_parse ''defaults'' [] first_process = (Running, p') \<and> g_db (p_db p') = Open_db \<and>
     p_registry p' = server_registry"
proof -
  obtain p' where p': "main_start all_ok tls_parse ''defaults'' [] first_process = (Running, p')"
    using first_run by (metis prod.collapse)
  have "schema_ok (p_schema first_process)" by (simp add: first_process_def schema_ok_def)
  from startup_establishes [OF first_fresh this pick_row p'] show ?thesis using p' by blast
qed

text \<open>C32: the process releases what it holds on every way out: wherever start-up fails, and when the
  signal has been handled and the loop has ended, whatever it did to the registry and the database,
  the log target is closed, no handler and no statement is left, the TLS context is freed and the
  database is closed. The one exception is stated: a handle that \<^verbatim>\<open>sqlite3_open\<close> returned together
  with an error is not closed by the failed start.\<close>

theorem every_exit_releases:
  assumes "fresh_process p" "schema_ok (p_schema p)" "\<And>vs. finite vs \<Longrightarrow> vs \<noteq> {} \<Longrightarrow> pick (migrating C) vs \<in> vs"
    and "main_start C parse content options p = (r, p')"
  shows "(case r of
       Exit rc \<Rightarrow> released_but_db p' \<and>
         (g_db (p_db p') = No_db \<or> db_opens C = Open_failed True \<and> g_db (p_db p') = Failed_db)
     | Running \<Rightarrow> released (snd (main_end (on_signal_tls (p'\<lparr>p_registry := reg, p_db := d\<rparr>)))))"
  using assms(4)
proof (cases rule: main_start_cases)
  case embedded
  then show ?thesis using assms(1) by (simp add: fresh_process_def released_def)
next
  case (configuring defaults rc fs)
  then show ?thesis using assms(1) by (auto simp: fresh_process_def released_def released_but_db_def)
next
  case (init defaults cfg fs p1)
  from server_init_failed [OF _ init(2)] show ?thesis
    using init(1,3,4) assms(1) fresh_db [OF assms(1)]
    by (simp add: fresh_process_def released_def released_but_db_def)
next
  case (start defaults cfg fs p1)
  note initialised = server_init_done [OF assms(1-3) start(1,2) refl]
  show ?thesis using server_start_failed [OF start(3)] initialised start by (simp add: released_def)
next
  case (running defaults cfg fs p1)
  note initialised = server_init_done [OF assms(1-3) running(1,3) refl]
  have "tls_consistent p'"
    using start_tls_consistent [OF initialised(7,6), of C] server_start_running [OF running(4)] running(6) by simp
  then have "tls_consistent (p'\<lparr>p_registry := reg, p_db := d\<rparr>)" by (simp add: tls_consistent_def)
  then show ?thesis using running main_end_released by simp
qed

theorem every_exit_releases_witness:
  "(\<exists>p'. main_start (all_ok\<lparr>bind_ok := False\<rparr>) tls_parse ''defaults'' [] first_process = (Exit 1, p') \<and>
      released p') \<and>
   (\<exists>p'. main_start all_ok tls_parse ''defaults'' [] first_process = (Running, p') \<and>
      released (snd (main_end (on_signal_tls p'))))"
proof -
  let ?C = "all_ok\<lparr>bind_ok := False\<rparr>"
  have sc: "schema_ok (p_schema first_process)" by (simp add: first_process_def schema_ok_def)
  have pick: "finite vs \<Longrightarrow> vs \<noteq> {} \<Longrightarrow> pick (migrating ?C) vs \<in> vs" for vs using pick_row by (simp add: all_ok_def)
  have "fst (main_start ?C tls_parse ''defaults'' [] first_process) = Exit 1" by code_simp
  then obtain p' where p': "main_start ?C tls_parse ''defaults'' [] first_process = (Exit 1, p')"
    by (metis prod.collapse)
  have "released p'"
    using every_exit_releases [OF first_fresh sc pick p'] by (simp add: released_def all_ok_def)
  moreover obtain q where q: "main_start all_ok tls_parse ''defaults'' [] first_process = (Running, q)"
    using first_run by (metis prod.collapse)
  have "released (snd (main_end (on_signal_tls q)))"
    using every_exit_releases [OF first_fresh sc pick_row q, of "p_db q" "p_registry q"] by simp
  ultimately show ?thesis using p' q by blast
qed

text \<open>When a file cannot be written, generating the certificate is reported as a success.\<close>

lemma unwritten_certificate_succeeds:
  assumes "ensure_parent_dir cert_path fs = (0, fs1)" "ensure_parent_dir key_path fs1 = (0, fs2)"
    and "seed_rc M = 0" "generate_rc M = 0" "wrap_rc M = 0" "fst (crt_pem M) = 0"
    and "\<not> may fs2 cert_path"
  shows "generate_self_signed_cert M cert_path key_path fs = (0, fs2)"
  using assms by (simp add: generate_self_signed_cert_def write_certificate_def write_pem_file_def fopen_write_def)

end
