(* ===== verification/Statements.thy ===== *)
theory Statements
  imports Database_Layer
begin

text \<open>
  The wrappers of \<^verbatim>\<open>storage/db.c\<close> around a prepared statement: binding, stepping, reading columns
  and resetting. Each does nothing, or returns its error value, for a missing statement. SQLite is
  the record of the functions that the wrappers call; what is relied on of them is what SQLite
  documents about bindings.
\<close>

subsection \<open>SQLite\<close>

record ('w, 'q) sqlite =
  sqlite3_reset :: "'q \<Rightarrow> 'w \<Rightarrow> 'w"
  sqlite3_clear_bindings :: "'q \<Rightarrow> 'w \<Rightarrow> 'w"
  sqlite3_bind_null :: "'q \<Rightarrow> int \<Rightarrow> 'w \<Rightarrow> 'w"
  sqlite3_bind_int64 :: "'q \<Rightarrow> int \<Rightarrow> int \<Rightarrow> 'w \<Rightarrow> 'w"
  sqlite3_bind_text :: "'q \<Rightarrow> int \<Rightarrow> cstr \<Rightarrow> 'w \<Rightarrow> 'w"
  sqlite3_step :: "'q \<Rightarrow> 'w \<Rightarrow> int \<times> 'w"
  sqlite3_column_int64 :: "'q \<Rightarrow> int \<Rightarrow> 'w \<Rightarrow> int"
  sqlite3_column_text :: "'q \<Rightarrow> int \<Rightarrow> 'w \<Rightarrow> cstr option"
  sqlite3_changes :: "'w \<Rightarrow> int"
  sqlite3_exec :: "cstr \<Rightarrow> 'w \<Rightarrow> int \<times> 'w"

abbreviation SQLITE_OK :: int where
  "SQLITE_OK \<equiv> 0"

abbreviation SQLITE_ERROR :: int where
  "SQLITE_ERROR \<equiv> 1"

subsection \<open>The wrappers\<close>

text \<open>The test \<^verbatim>\<open>stmt && stmt->stmt\<close> of every wrapper.\<close>

abbreviation stmt_handle :: "'q cached option \<Rightarrow> 'q option" where
  "stmt_handle stmt \<equiv> Option.bind stmt cs_stmt"

definition storage_db_reset :: "('w, 'q) sqlite \<Rightarrow> 'q cached option \<Rightarrow> 'w \<Rightarrow> 'w" where
  "storage_db_reset Q stmt w =
     (case stmt_handle stmt of None \<Rightarrow> w | Some q \<Rightarrow> sqlite3_clear_bindings Q q (sqlite3_reset Q q w))"

definition storage_db_bind_null :: "('w, 'q) sqlite \<Rightarrow> 'q cached option \<Rightarrow> int \<Rightarrow> 'w \<Rightarrow> 'w" where
  "storage_db_bind_null Q stmt idx w =
     (case stmt_handle stmt of None \<Rightarrow> w | Some q \<Rightarrow> sqlite3_bind_null Q q idx w)"

definition storage_db_bind_int64 :: "('w, 'q) sqlite \<Rightarrow> 'q cached option \<Rightarrow> int \<Rightarrow> int \<Rightarrow> 'w \<Rightarrow> 'w" where
  "storage_db_bind_int64 Q stmt idx v w =
     (case stmt_handle stmt of None \<Rightarrow> w | Some q \<Rightarrow> sqlite3_bind_int64 Q q idx v w)"

definition storage_db_bind_text :: "('w, 'q) sqlite \<Rightarrow> 'q cached option \<Rightarrow> int \<Rightarrow> cstr option \<Rightarrow> 'w \<Rightarrow> 'w" where
  "storage_db_bind_text Q stmt idx v w =
     (case (stmt_handle stmt, v) of (Some q, Some x) \<Rightarrow> sqlite3_bind_text Q q idx x w | _ \<Rightarrow> w)"

definition storage_db_step :: "('w, 'q) sqlite \<Rightarrow> 'q cached option \<Rightarrow> 'w \<Rightarrow> int \<times> 'w" where
  "storage_db_step Q stmt w =
     (case stmt_handle stmt of None \<Rightarrow> (SQLITE_ERROR, w) | Some q \<Rightarrow> sqlite3_step Q q w)"

definition storage_db_column_int64 :: "('w, 'q) sqlite \<Rightarrow> 'q cached option \<Rightarrow> int \<Rightarrow> 'w \<Rightarrow> int" where
  "storage_db_column_int64 Q stmt col w =
     (case stmt_handle stmt of None \<Rightarrow> 0 | Some q \<Rightarrow> sqlite3_column_int64 Q q col w)"

definition storage_db_column_text :: "('w, 'q) sqlite \<Rightarrow> 'q cached option \<Rightarrow> 'w \<Rightarrow> cstr option" where
  "storage_db_column_text Q stmt w =
     (case stmt_handle stmt of None \<Rightarrow> None | Some q \<Rightarrow> sqlite3_column_text Q q 0 w)"

definition storage_db_column_text_col :: "('w, 'q) sqlite \<Rightarrow> 'q cached option \<Rightarrow> int \<Rightarrow> 'w \<Rightarrow> cstr option" where
  "storage_db_column_text_col Q stmt col w =
     (case stmt_handle stmt of None \<Rightarrow> None | Some q \<Rightarrow> sqlite3_column_text Q q col w)"

text \<open>The copy may fail for lack of memory.\<close>

definition storage_db_column_text_copy :: "bool \<Rightarrow> ('w, 'q) sqlite \<Rightarrow> 'q cached option \<Rightarrow> int \<Rightarrow> 'w \<Rightarrow> cstr option" where
  "storage_db_column_text_copy mem Q stmt col w =
     (case stmt_handle stmt of
        None \<Rightarrow> None
      | Some q \<Rightarrow> (case sqlite3_column_text Q q col w of None \<Rightarrow> None | Some t \<Rightarrow> if mem then Some t else None))"

definition storage_db_changes :: "('w, 'q) sqlite \<Rightarrow> 'w \<Rightarrow> int" where
  "storage_db_changes Q w = sqlite3_changes Q w"

definition storage_db_exec :: "('w, 'q) sqlite \<Rightarrow> bool \<Rightarrow> cstr option \<Rightarrow> 'w \<Rightarrow> int \<times> 'w" where
  "storage_db_exec Q handle sql w =
     (case sql of
        None \<Rightarrow> (- 1, w)
      | Some x \<Rightarrow>
          if \<not> handle then (- 1, w)
          else (let r = sqlite3_exec Q x w in (if fst r \<noteq> SQLITE_OK then - 1 else 0, snd r)))"

subsection \<open>Uses of a statement\<close>

text \<open>What the storage functions do with a prepared statement: bind its parameters, step it as
  often as there are rows to read, and reset it.\<close>

datatype sql_value = Sql_null | Sql_int int | Sql_text cstr

datatype binding = Bind_null int | Bind_int64 int int | Bind_text int "cstr option"

fun storage_bind :: "('w, 'q) sqlite \<Rightarrow> 'q cached option \<Rightarrow> binding \<Rightarrow> 'w \<Rightarrow> 'w" where
  "storage_bind Q stmt (Bind_null i) w = storage_db_bind_null Q stmt i w"
| "storage_bind Q stmt (Bind_int64 i v) w = storage_db_bind_int64 Q stmt i v w"
| "storage_bind Q stmt (Bind_text i v) w = storage_db_bind_text Q stmt i v w"

definition bound :: "('w, 'q) sqlite \<Rightarrow> 'q cached option \<Rightarrow> binding list \<Rightarrow> 'w \<Rightarrow> 'w" where
  "bound Q stmt bs w = fold (storage_bind Q stmt) bs w"

definition stepped :: "('w, 'q) sqlite \<Rightarrow> 'q cached option \<Rightarrow> nat \<Rightarrow> 'w \<Rightarrow> 'w" where
  "stepped Q stmt n w = ((\<lambda>w. snd (storage_db_step Q stmt w)) ^^ n) w"

definition use_statement :: "('w, 'q) sqlite \<Rightarrow> 'q cached option \<times> binding list \<times> nat \<Rightarrow> 'w \<Rightarrow> 'w" where
  "use_statement Q u w = (case u of (stmt, bs, n) \<Rightarrow> storage_db_reset Q stmt (stepped Q stmt n (bound Q stmt bs w)))"

text \<open>The value of a parameter after a list of bindings: an absent text binds nothing.\<close>

fun value_of :: "binding list \<Rightarrow> (int \<Rightarrow> sql_value) \<Rightarrow> int \<Rightarrow> sql_value" where
  "value_of [] v = v"
| "value_of (Bind_null i # bs) v = value_of bs (v(i := Sql_null))"
| "value_of (Bind_int64 i x # bs) v = value_of bs (v(i := Sql_int x))"
| "value_of (Bind_text i None # bs) v = value_of bs v"
| "value_of (Bind_text i (Some t) # bs) v = value_of bs (v(i := Sql_text t))"

subsection \<open>What SQLite documents\<close>

text \<open>
  \<open>params\<close> are the values bound to a statement's parameters, \<open>idle\<close> tells that a statement was
  not stepped since it was compiled or reset. Parameters can be bound while a statement is idle,
  and a binding changes that parameter only. Stepping keeps the parameters, a reset makes the
  statement idle and keeps them, clearing makes them all NULL. No call on one statement touches
  another.
\<close>

definition bind_law :: "('q \<Rightarrow> 'w \<Rightarrow> int \<Rightarrow> sql_value) \<Rightarrow> ('q \<Rightarrow> 'w \<Rightarrow> bool) \<Rightarrow> 'q \<Rightarrow> int \<Rightarrow> sql_value \<Rightarrow> 'w \<Rightarrow> 'w \<Rightarrow> bool" where
  "bind_law params idle q i v w w' \<longleftrightarrow>
     (idle q w \<longrightarrow> idle q w' \<and> params q w' = (params q w)(i := v)) \<and>
     (\<forall>p. p \<noteq> q \<longrightarrow> params p w' = params p w \<and> idle p w' = idle p w)"

definition sqlite_ok :: "('w, 'q) sqlite \<Rightarrow> ('q \<Rightarrow> 'w \<Rightarrow> int \<Rightarrow> sql_value) \<Rightarrow> ('q \<Rightarrow> 'w \<Rightarrow> bool) \<Rightarrow> bool" where
  "sqlite_ok Q params idle \<longleftrightarrow>
     (\<forall>q i w. bind_law params idle q i Sql_null w (sqlite3_bind_null Q q i w)) \<and>
     (\<forall>q i x w. bind_law params idle q i (Sql_int x) w (sqlite3_bind_int64 Q q i x w)) \<and>
     (\<forall>q i t w. bind_law params idle q i (Sql_text t) w (sqlite3_bind_text Q q i t w)) \<and>
     (\<forall>q p w. params p (snd (sqlite3_step Q q w)) = params p w \<and>
        (p \<noteq> q \<longrightarrow> idle p (snd (sqlite3_step Q q w)) = idle p w)) \<and>
     (\<forall>q p w. params p (sqlite3_reset Q q w) = params p w \<and>
        idle p (sqlite3_reset Q q w) = (p = q \<or> idle p w)) \<and>
     (\<forall>q p w. params p (sqlite3_clear_bindings Q q w) = (if p = q then (\<lambda>_. Sql_null) else params p w) \<and>
        idle p (sqlite3_clear_bindings Q q w) = idle p w)"

definition all_clean :: "('q \<Rightarrow> 'w \<Rightarrow> int \<Rightarrow> sql_value) \<Rightarrow> ('q \<Rightarrow> 'w \<Rightarrow> bool) \<Rightarrow> 'w \<Rightarrow> bool" where
  "all_clean params idle w \<longleftrightarrow> (\<forall>q. idle q w \<and> params q w = (\<lambda>_. Sql_null))"

subsection \<open>Bindings\<close>

text \<open>What binding the parameters of one statement does.\<close>

lemma storage_bind_law:
  assumes "sqlite_ok Q params idle" "stmt_handle stmt = Some q" "idle q w"
  shows "idle q (storage_bind Q stmt b w)" "params q (storage_bind Q stmt b w) = value_of [b] (params q w)"
    and "p \<noteq> q \<Longrightarrow> params p (storage_bind Q stmt b w) = params p w \<and> idle p (storage_bind Q stmt b w) = idle p w"
proof -
  have "idle q (storage_bind Q stmt b w) \<and> params q (storage_bind Q stmt b w) = value_of [b] (params q w) \<and>
      (p \<noteq> q \<longrightarrow> params p (storage_bind Q stmt b w) = params p w \<and> idle p (storage_bind Q stmt b w) = idle p w)" for p
  proof (cases b)
    case (Bind_text i t)
    then show ?thesis using assms
      by (cases t) (simp_all add: sqlite_ok_def bind_law_def storage_db_bind_text_def)
  qed (use assms in \<open>simp_all add: sqlite_ok_def bind_law_def storage_db_bind_null_def storage_db_bind_int64_def\<close>)
  then show "idle q (storage_bind Q stmt b w)" "params q (storage_bind Q stmt b w) = value_of [b] (params q w)"
    "p \<noteq> q \<Longrightarrow> params p (storage_bind Q stmt b w) = params p w \<and> idle p (storage_bind Q stmt b w) = idle p w"
    by blast+
qed

lemma value_of_Cons: "value_of (b # bs) v = value_of bs (value_of [b] v)"
proof (cases b)
  case (Bind_text i t)
  then show ?thesis by (cases t) simp_all
qed simp_all

lemma bound_law:
  assumes "sqlite_ok Q params idle" "stmt_handle stmt = Some q" "idle q w"
  shows "idle q (bound Q stmt bs w) \<and> params q (bound Q stmt bs w) = value_of bs (params q w) \<and>
    (\<forall>p. p \<noteq> q \<longrightarrow> params p (bound Q stmt bs w) = params p w \<and> idle p (bound Q stmt bs w) = idle p w)"
  using assms(3)
proof (induction bs arbitrary: w)
  case (Cons b bs)
  note b = storage_bind_law [OF assms(1,2) Cons.prems]
  show ?case
    using Cons.IH [OF b(1) [where b = b]] b(2,3) [where b = b] value_of_Cons [of b bs "params q w"] by (simp add: bound_def)
qed (simp add: bound_def)

lemma stepped_law:
  assumes "sqlite_ok Q params idle" "stmt_handle stmt = Some q"
  shows "params p (stepped Q stmt n w) = params p w \<and> (p \<noteq> q \<longrightarrow> idle p (stepped Q stmt n w) = idle p w)"
  by (induction n) (use assms in \<open>simp_all add: stepped_def storage_db_step_def sqlite_ok_def\<close>)

lemma missing_statement:
  assumes "stmt_handle stmt = None"
  shows "use_statement Q (stmt, bs, n) w = w"
proof -
  have "storage_bind Q stmt b w = w" for b w
    using assms by (cases b) (simp_all add: storage_db_bind_null_def storage_db_bind_int64_def storage_db_bind_text_def)
  then have "bound Q stmt bs w = w" by (induction bs arbitrary: w) (simp_all add: bound_def)
  moreover have "stepped Q stmt n w = w"
    by (induction n) (use assms in \<open>simp_all add: stepped_def storage_db_step_def\<close>)
  ultimately show ?thesis using assms by (simp add: use_statement_def storage_db_reset_def)
qed

lemma use_clean:
  assumes "sqlite_ok Q params idle" "all_clean params idle w"
  shows "all_clean params idle (use_statement Q u w)"
proof -
  obtain stmt bs n where u: "u = (stmt, bs, n)" by (cases u)
  show ?thesis
  proof (cases "stmt_handle stmt")
    case (Some q)
    have "idle q w" using assms(2) by (simp add: all_clean_def)
    note b = bound_law [OF assms(1) Some this, of bs] and s = stepped_law [OF assms(1) Some, of _ n "bound Q stmt bs w"]
    have "idle p (use_statement Q u w) \<and> params p (use_statement Q u w) = (\<lambda>_. Sql_null)" for p
      using assms b s [of p] Some by (simp add: u use_statement_def storage_db_reset_def sqlite_ok_def all_clean_def)
    then show ?thesis by (simp add: all_clean_def)
  qed (simp add: u missing_statement assms(2))
qed

subsection \<open>Properties\<close>


text \<open>A SQLite that keeps the parameters and the state of each statement.\<close>

type_synonym stmt_store = "nat \<Rightarrow> (int \<Rightarrow> sql_value) \<times> bool"

definition bind_store :: "nat \<Rightarrow> int \<Rightarrow> sql_value \<Rightarrow> stmt_store \<Rightarrow> stmt_store" where
  "bind_store q i v w = (if snd (w q) then w(q := ((fst (w q))(i := v), True)) else w)"

definition store_sqlite :: "(stmt_store, nat) sqlite" where
  "store_sqlite = \<lparr>
     sqlite3_reset = (\<lambda>q w. w(q := (fst (w q), True))),
     sqlite3_clear_bindings = (\<lambda>q w. w(q := (\<lambda>_. Sql_null, snd (w q)))),
     sqlite3_bind_null = (\<lambda>q i. bind_store q i Sql_null),
     sqlite3_bind_int64 = (\<lambda>q i x. bind_store q i (Sql_int x)),
     sqlite3_bind_text = (\<lambda>q i t. bind_store q i (Sql_text t)),
     sqlite3_step = (\<lambda>q w. (101, w(q := (fst (w q), False)))),
     sqlite3_column_int64 = (\<lambda>_ _ _. 0), sqlite3_column_text = (\<lambda>_ _ _. None),
     sqlite3_changes = (\<lambda>_. 0), sqlite3_exec = (\<lambda>_ w. (0, w)) \<rparr>"


end
