(* ===== verification/Conversations.thy ===== *)
theory Conversations
  imports IQ_Handlers
begin

text \<open>
  What several components do together: a resource that comes online (\<open>Presence\<close>, \<open>Session_Table\<close>,
  \<open>Storage_Offline\<close>, \<open>Storage_Roster\<close>), and a message that waits for its recipient (with
  \<open>Message\<close>).
\<close>

subsection \<open>Sorting by time\<close>

lemma insort_key_snoc: "f a \<le> f x \<Longrightarrow> insort_key f a (ys @ [x]) = insort_key f a ys @ [x]"
  by (induction ys) auto

lemma sort_key_snoc: "(\<And>y. y \<in> set ys \<Longrightarrow> f y \<le> f x) \<Longrightarrow> sort_key f (ys @ [x]) = sort_key f ys @ [x]"
  by (induction ys) (simp_all add: insort_key_snoc)

subsection \<open>Coming online\<close>

text \<open>What is written for a queue, and the priority that a presence stanza announces.\<close>

definition delivered :: "sink \<Rightarrow> offline_row list \<Rightarrow> (sink \<times> cstr) list" where
  "delivered u rows = map (\<lambda>r. (u, drain_text (om_recipient r) (om_stanza r) (om_received_at r))) (sort_key om_received_at rows)"

definition announced_priority :: "'s strophe \<Rightarrow> 's \<Rightarrow> int" where
  "announced_priority L st =
     (case Option.bind (get_child_by_name L st ''priority'') (get_text L) of None \<Rightarrow> 0 | Some t \<Rightarrow> parse_priority t)"

lemma delivered_snoc:
  assumes "\<And>r. r \<in> set rows \<Longrightarrow> om_received_at r \<le> om_received_at x"
  shows "delivered u (rows @ [x]) = delivered u rows @ [(u, drain_text (om_recipient x) (om_stanza x) (om_received_at x))]"
  unfolding delivered_def using sort_key_snoc [of rows om_received_at x] assms by simp

lemma presence_out_cong:
  assumes "roster (db s') = roster (db s)"
    and "map (\<lambda>e. (e_jid e, e_write_ud e)) (g_sessions s') = map (\<lambda>e. (e_jid e, e_write_ud e)) (g_sessions s)"
  shows "presence_out b j x s' = presence_out b j x s"
proof -
  have "to_resources (\<lambda>e. P (e_jid e)) x es =
      map (\<lambda>p. (snd p, x)) (filter (\<lambda>p. P (fst p)) (map (\<lambda>e. (e_jid e, e_write_ud e)) es))" for P es
    by (simp add: to_resources_def filter_map o_def)
  then have same: "to_resources (\<lambda>e. P (e_jid e)) x (g_sessions s') = to_resources (\<lambda>e. P (e_jid e)) x (g_sessions s)" for P
    using assms(2) by simp
  show ?thesis
    using assms(1) same [of "\<lambda>i. bare i = b \<and> i \<noteq> j"] same [of "\<lambda>i. bare i = _"]
    by (simp add: presence_out_def subscribers_def o_def)
qed

lemma drain_roster: "roster (db (snd (offline_drain E jid u s))) = roster (db s)"
  using offline_drain_db [of E jid u s] by (auto simp: offline_delete_all_def)

lemma register_new_effect:
  assumes "bound_jid (ctx s) \<noteq> []" "length (bound_jid (ctx s)) < JID_BUF_SIZE"
    and "session_lookup s (bound_jid (ctx s)) = None" "length (g_sessions s) < SESSION_TABLE_CAP"
    and "db_open_ok E" "\<forall>sql. prepare_ok E sql \<and> step_ok E sql"
  shows "sent (xmpp_session_table_register E u s) = sent s @ delivered u (offline_for (bare (bound_jid (ctx s))) (db s))"
    and "g_sessions (xmpp_session_table_register E u s) = g_sessions s @ [registered_entry E u s]"
    and "offline_for (bare (bound_jid (ctx s))) (db (xmpp_session_table_register E u s)) = []"
    and "roster (db (xmpp_session_table_register E u s)) = roster (db s)"
proof -
  have "find_session (bound_jid (ctx s)) s = None" using assms(3) find_session_None by blast
  then have r: "xmpp_session_table_register E u s =
      snd (offline_drain E (bare (bound_jid (ctx s))) u (s\<lparr>g_sessions := g_sessions s @ [registered_entry E u s]\<rparr>))"
    using assms(1-4) by (simp add: xmpp_session_table_register_def registered_entry_def Let_def)
  note d = offline_drain_effect [OF assms(5,6), of "bare (bound_jid (ctx s))" u "s\<lparr>g_sessions := g_sessions s @ [registered_entry E u s]\<rparr>"]
  show "sent (xmpp_session_table_register E u s) = sent s @ delivered u (offline_for (bare (bound_jid (ctx s))) (db s))"
    "g_sessions (xmpp_session_table_register E u s) = g_sessions s @ [registered_entry E u s]"
    "offline_for (bare (bound_jid (ctx s))) (db (xmpp_session_table_register E u s)) = []"
    "roster (db (xmpp_session_table_register E u s)) = roster (db s)"
    using d unfolding r by (simp_all add: delivered_def drain_roster)
qed

lemma find_index_snoc: "\<forall>x\<in>set xs. \<not> P x \<Longrightarrow> P x \<Longrightarrow> find_index P (xs @ [x]) = Some (length xs)"
  by (induction xs) simp_all

lemma update_last_entry:
  assumes "g_sessions s = es @ [e]" "e_jid e = j" "j \<notin> e_jid ` set es"
  shows "update_entry j f s = s\<lparr>g_sessions := es @ [f e]\<rparr>"
proof -
  have "\<forall>x\<in>set es. e_jid x \<noteq> j" using assms(3) by auto
  then have "find_session j s = Some (length es)"
    using assms(1,2) find_index_snoc [of es "\<lambda>e. e_jid e = j" e] by simp
  then show ?thesis using assms(1) by (simp add: update_entry_def nth_append list_update_append)
qed


text \<open>The whole of an initial presence for a resource that is not online yet.\<close>

lemma initial_presence_effect:
  assumes "table_inv s" "bound_jid (ctx s) = j" "j \<noteq> []" "length j < JID_BUF_SIZE"
    and "session_lookup s j = None" "length (g_sessions s) < SESSION_TABLE_CAP"
    and "db_open_ok E" "\<forall>sql. prepare_ok E sql \<and> step_ok E sql"
    and "get_attribute L st ''type'' = None" "get_attribute L st ''to'' = None"
    and "length (presence_xml j None None) < IQ_BUF_SIZE"
    and "e = (registered_entry E (write_ud (ctx s)) s)\<lparr>e_priority := announced_priority L st\<rparr>"
  shows "g_sessions (xmpp_presence_handle E L st s) = g_sessions s @ [e]"
    and "sent (xmpp_presence_handle E L st s) = sent s @ delivered (write_ud (ctx s)) (offline_for (bare j) (db s)) @
      presence_out (bare j) j (presence_xml j None None) (s\<lparr>g_sessions := g_sessions s @ [e]\<rparr>)"
    and "offline_for (bare j) (db (xmpp_presence_handle E L st s)) = []"
proof -
  let ?r = "xmpp_session_table_register E (write_ud (ctx s)) s" and ?e = "registered_entry E (write_ud (ctx s)) s"
  let ?p = "?r\<lparr>g_sessions := g_sessions s @ [e]\<rparr>"
  note reg = register_new_effect [OF _ _ _ assms(6,7,8), where u = "write_ud (ctx s)", unfolded assms(2), OF assms(3,4,5)]
  have ej: "e_jid ?e = j" "j \<notin> e_jid ` set (g_sessions s)"
    using assms(2,5) by (auto simp: registered_entry_def session_lookup_def entry_map_None)
  have last: "xmpp_session_table_update_priority j q ?r = ?r\<lparr>g_sessions := g_sessions s @ [?e\<lparr>e_priority := q\<rparr>]\<rparr>" for q
    using update_last_entry [OF reg(2) ej] by (simp add: xmpp_session_table_update_priority_def)
  have "?e\<lparr>e_priority := 0\<rparr> = ?e" using assms(2,5) by (simp add: registered_entry_def)
  then have zero: "?r\<lparr>g_sessions := g_sessions s @ [?e\<lparr>e_priority := 0\<rparr>]\<rparr> = ?r" using reg(2) by simp
  have "xmpp_presence_handle E L st s = broadcast_presence E (bare j) j None ?p"
    using assms(2,9,10,12) last zero
    by (simp add: xmpp_presence_handle_def handle_initial_presence_def announced_priority_def Let_def split: option.split)
  moreover have "presence_out (bare j) j x ?p = presence_out (bare j) j x (s\<lparr>g_sessions := g_sessions s @ [e]\<rparr>)" for x
    using reg(4) by (intro presence_out_cong) simp_all
  moreover have "sql_runs E SQL_ROSTER_LIST" using assms(7,8) by (simp add: sql_runs_def)
  ultimately show "g_sessions (xmpp_presence_handle E L st s) = g_sessions s @ [e]"
    "sent (xmpp_presence_handle E L st s) = sent s @ delivered (write_ud (ctx s)) (offline_for (bare j) (db s)) @
      presence_out (bare j) j (presence_xml j None None) (s\<lparr>g_sessions := g_sessions s @ [e]\<rparr>)"
    "offline_for (bare j) (db (xmpp_presence_handle E L st s)) = []"
    using broadcast_presence_eq [OF _ assms(11), of E "bare j" ?p] reg(1,3) by simp_all
qed

text \<open>Who is told: the resources of the contacts that are subscribed, and the user's other resources.\<close>

definition audience :: "cstr \<Rightarrow> cstr \<Rightarrow> database \<Rightarrow> session_entry list \<Rightarrow> sink list" where
  "audience b j d es =
     concat (map (\<lambda>c. map e_write_ud (filter (\<lambda>e. bare (e_jid e) = c) es)) (subscribers b d)) @
     map e_write_ud (filter (\<lambda>e. bare (e_jid e) = b \<and> e_jid e \<noteq> j) es)"

lemma presence_out_audience:
  "presence_out b j x s = map (\<lambda>u. (u, x)) (audience b j (db s) (g_sessions s))"
  by (simp add: presence_out_def audience_def to_resources_def map_concat o_def)

subsection \<open>Properties\<close>


definition initial_presence :: xml where
  "initial_presence = Elem ''presence'' ''jabber:client'' [] []"

lemma example_coming_online:
  "bound_jid (ctx example_server) = ''a@d/r''" "session_lookup example_server ''a@d/r'' = None"
  "length (g_sessions example_server) < SESSION_TABLE_CAP" "length (presence_xml ''a@d/r'' None None) < IQ_BUF_SIZE"
  "db_open_ok env0" "\<forall>sql. prepare_ok env0 sql \<and> step_ok env0 sql"
  "get_attribute xml_strophe initial_presence ''type'' = None" "get_attribute xml_strophe initial_presence ''to'' = None"
  by (simp_all add: example_server_def example_defs session_lookup_def entry_map_def presence_xml_def opt_attr_def
      attr_def initial_presence_def xml_strophe_def)

lemma initial_priority: "announced_priority xml_strophe initial_presence = 0"
  by (simp add: announced_priority_def initial_presence_def xml_strophe_def)


text \<open>C16: a message waits for its recipient. An ordinary message to the bare JID of a user who is not
  online, when neither user has blocked the other, the text fits, the database works, the queue
  has room and holds no later time stamp, is, when that user later comes online with a new
  resource of non-negative priority, written to the connection of that resource as the last of
  the messages that waited, with its delay stamp, and it does not wait any longer. Between the
  two, anything may happen that leaves the queue alone.\<close>

theorem waiting_message_delivered:
  assumes "msg_resource (mv_to m) = None" "bare (mv_to m) \<noteq> bare (bound_jid (ctx s))"
    and "neither_blocks (bare (bound_jid (ctx s))) (bare (mv_to m)) (db s)"
    and "\<forall>e\<in>set (g_sessions s). bare (e_jid e) \<noteq> bare (mv_to m)"
    and "length (message_xml (bound_jid (ctx s)) (bare (mv_to m)) m) < IQ_BUF_SIZE"
    and "db_open_ok E" "\<forall>sql. prepare_ok E sql \<and> step_ok E sql"
    and "offline_is_capped E (bare (mv_to m)) (db s) = 0"
    and "\<forall>r\<in>set (offline_for (bare (mv_to m)) (db s)). om_received_at r \<le> now_seconds E"
    and "offline_for (bare (mv_to m)) (db s') = offline_for (bare (mv_to m)) (db (route_message E m s))"
    and "table_inv s'" "bound_jid (ctx s') = j" "bare j = bare (mv_to m)" "j \<noteq> []" "length j < JID_BUF_SIZE"
    and "session_lookup s' j = None" "length (g_sessions s') < SESSION_TABLE_CAP"
    and "db_open_ok E'" "\<forall>sql. prepare_ok E' sql \<and> step_ok E' sql"
    and "get_attribute L st ''type'' = None" "get_attribute L st ''to'' = None"
    and "length (presence_xml j None None) < IQ_BUF_SIZE"
    and "ordinary m" "0 \<le> announced_priority L st"
  shows "\<exists>announced. sent (xmpp_presence_handle E' L st s') =
      sent s' @ delivered (write_ud (ctx s')) (offline_for (bare (mv_to m)) (db s)) @
      [(write_ud (ctx s'), drain_text (bare (mv_to m)) (message_xml (bound_jid (ctx s)) (bare (mv_to m)) m) (now_seconds E))] @
      announced \<and>
    offline_for (bare (mv_to m)) (db (xmpp_presence_handle E' L st s')) = []"
proof -
  note online = initial_presence_effect [OF assms(11,12,14-22) refl]
  have queue: "delivered u (offline_for (bare (mv_to m)) (db s')) = delivered u (offline_for (bare (mv_to m)) (db s)) @
      [(u, drain_text (bare (mv_to m)) (message_xml (bound_jid (ctx s)) (bare (mv_to m)) m) (now_seconds E))]" for u
    unfolding assms(10) route_stores_offline [OF assms(1,2) neither_blocks_check [OF assms(3)] assms(4-7)] using assms(8,9) by (simp add: delivered_snoc)
  show ?thesis using online(2,3) queue by (simp add: assms(13))
qed

text \<open>Carol, who is not online, gets a message, and later binds a resource.\<close>

definition carol_online :: "server \<Rightarrow> server" where
  "carol_online s = s\<lparr>ctx := session0\<lparr>bound_jid := ''c@d/k'', write_ud := 9\<rparr>\<rparr>"

lemma table_size:
  assumes "table_inv s"
  shows "length (g_sessions s) = card (dom (session_lookup s))"
proof -
  have "distinct (map e_jid (g_sessions s))" using assms by (simp add: table_inv_def entries_ok_def)
  then have "length (g_sessions s) = card (e_jid ` set (g_sessions s))" using distinct_card by fastforce
  then show ?thesis by (simp add: dom_session_lookup)
qed

lemma carol_online_facts:
  assumes "s' = route_message env0 (hi_view ''c@d'') example_server"
  shows "table_inv (carol_online s')" "session_lookup (carol_online s') ''c@d/k'' = None"
    "length (g_sessions (carol_online s')) < SESSION_TABLE_CAP"
proof -
  have keeps: "route_keeps example_server s'" unfolding assms by (rule route_message_keeps)
  then have inv: "table_inv s'" and same: "dom (session_lookup s') = dom (session_lookup example_server)"
    using example_server_inv by (simp_all add: route_keeps_def)
  show "table_inv (carol_online s')" using inv by (simp add: table_inv_def carol_online_def)
  have "session_lookup example_server ''c@d/k'' = None"
    by (simp add: example_server_def session_lookup_def entry_map_def)
  then have "session_lookup s' ''c@d/k'' = None" using same by (metis domIff)
  then show "session_lookup (carol_online s') ''c@d/k'' = None" by (simp add: carol_online_def session_lookup_def)
  show "length (g_sessions (carol_online s')) < SESSION_TABLE_CAP"
    using table_size [OF inv] table_size [OF example_server_inv] same example_coming_online(3) by (simp add: carol_online_def)
qed

theorem waiting_message_delivered_witness:
  "(9, drain_text ''c@d'' (message_xml ''a@d/r'' ''c@d'' (hi_view ''c@d'')) (now_seconds env0)) \<in>
     set (sent (xmpp_presence_handle env0 xml_strophe initial_presence (carol_online (route_message env0 (hi_view ''c@d'') example_server))))"
proof -
  let ?s = "example_server" and ?m = "hi_view ''c@d''"
  let ?s' = "carol_online (route_message env0 ?m ?s)"
  have xml: "length (message_xml ''a@d/r'' ''c@d'' ?m) < IQ_BUF_SIZE" "length (presence_xml ''c@d/k'' None None) < IQ_BUF_SIZE"
    by (simp_all add: message_xml_def presence_xml_def opt_attr_def attr_def body_xml_def)
  have offline: "\<forall>e\<in>set (g_sessions ?s). bare (e_jid e) \<noteq> ''c@d''"
    using example_sessions(4) by (simp add: best_resource_None)
  have queue: "offline_is_capped env0 ''c@d'' (db ?s) = 0" "offline_for ''c@d'' (db ?s) = []"
    by (simp_all add: example_server_def example_defs offline_is_capped_def offline_count_def
        offline_for_def offline_total_bytes_def)
  have carol: "bound_jid (ctx ?s') = ''c@d/k''" "write_ud (ctx ?s') = 9" "db ?s' = db (route_message env0 ?m ?s)"
    "bare ''c@d/k'' = ''c@d''"
    by (simp_all add: carol_online_def xmpp_session_bare_jid_def before_def)
  have "\<exists>announced. sent (xmpp_presence_handle env0 xml_strophe initial_presence ?s') =
      sent ?s' @ delivered 9 [] @ [(9, drain_text ''c@d'' (message_xml ''a@d/r'' ''c@d'' ?m) (now_seconds env0))] @ announced"
    using waiting_message_delivered [of ?m ?s env0 ?s' "''c@d/k''" env0 xml_strophe initial_presence]
      xml offline queue carol carol_online_facts [OF refl] example_coming_online(5-8) initial_priority
    by (simp add: example_server_facts example_ordinary)
  then show ?thesis by auto
qed

end
