(* ===== verification/Negotiation.thy ===== *)
theory Negotiation
  imports Connection
begin

text \<open>
  That a client that plays by the rules gets online: the counterpart of the safety properties,
  which a server that refuses everybody would have too. The client opens a stream, starts TLS,
  authenticates with PLAIN and binds a resource; each step is a read callback, between which other
  connections may change whatever connections share.
\<close>

subsection \<open>What the client sends\<close>

definition writes_ok :: "env \<Rightarrow> bool" where
  "writes_ok E \<longleftrightarrow> (\<forall>u x. write_rc E u x = 0)"

text \<open>The data makes the parser report one callback.\<close>

definition speaks :: "('p, 's) xml_parser \<Rightarrow> 'p \<Rightarrow> cstr \<Rightarrow> 's parser_event \<Rightarrow> 'p \<Rightarrow> bool" where
  "speaks P p data ev p' \<longleftrightarrow> data \<noteq> [] \<and> parser_feed P p (strip_declaration data) = (p', [ev], True)"

text \<open>A stream header for the domain \<open>d\<close>.\<close>

definition greets :: "('p, 's) xml_parser \<Rightarrow> 'p \<Rightarrow> cstr \<Rightarrow> cstr \<Rightarrow> 'p \<Rightarrow> bool" where
  "greets P p data d p' \<longleftrightarrow> (\<exists>attrs. speaks P p data (Stream_start (Some ''stream'') attrs) p' \<and>
     map_of attrs ''to'' = Some d \<and> map_of (rev attrs) ''version'' = Some ''1.0'') \<and>
     d \<noteq> [] \<and> length d < 1024 \<and>
     (\<forall>c. client_ns (extract_namespaces data c) = ''jabber:client'' \<and>
          stream_ns (extract_namespaces data c) = ''http://etherx.jabber.org/streams'')"

text \<open>The three stanzas of the negotiation.\<close>

definition asks_tls :: "'s strophe \<Rightarrow> 's \<Rightarrow> bool" where
  "asks_tls L st \<longleftrightarrow> has_name L st ''starttls'' \<and> \<not> has_name L st ''auth'' \<and> get_ns L st = Some NS_TLS"

definition sends_plain :: "'s strophe \<Rightarrow> 's \<Rightarrow> cstr \<Rightarrow> cstr \<Rightarrow> cstr \<Rightarrow> bool" where
  "sends_plain L st authzid user password \<longleftrightarrow>
     has_name L st ''auth'' \<and> get_attribute L st ''mechanism'' = Some ''PLAIN'' \<and>
     map_option b64_decode (get_text L st) = Some (authzid @ NUL # user @ NUL # password)"

definition asks_bind :: "'s strophe \<Rightarrow> 's \<Rightarrow> 's \<Rightarrow> bool" where
  "asks_bind L st bind \<longleftrightarrow> get_ns L st \<noteq> Some XEP0198_NS \<and> get_attribute L st ''type'' = Some ''set'' \<and>
     get_child_by_name L st ''bind'' = Some bind"

text \<open>What mbedTLS makes of an encrypted read.\<close>

definition decrypts :: "tls_io \<Rightarrow> cstr list \<Rightarrow> bool" where
  "decrypts io records \<longleftrightarrow> \<not> io_overflow io \<and> io_records io = records \<and> \<not> io_ended io"

text \<open>A read callback after other connections have had theirs.\<close>

type_synonym callback = "env \<times> tls_io \<times> stream \<times> cstr"

definition callback :: "'s strophe \<Rightarrow> ('p, 's) xml_parser \<Rightarrow> callback \<Rightarrow> 'p conn \<Rightarrow> 'p conn" where
  "callback L P cb k = (case cb of (E, io, sh, data) \<Rightarrow> read_cb E L P io (Some data) (enter_conn sh k))"

subsection \<open>Stages of a connection\<close>

text \<open>The parser that the next data is fed to, and what is the same at every stage.\<close>

definition next_parser :: "('p, 's) xml_parser \<Rightarrow> 'p conn \<Rightarrow> 'p" where
  "next_parser P k =
     (if needs_parser_reset (conn_ctx k) \<or> needs_starttls_proceed (conn_ctx k) then parser_new P else conn_parser k)"

definition stage :: "('p, 's) xml_parser \<Rightarrow> 'p \<Rightarrow> bool \<Rightarrow> xmpp_state \<Rightarrow> cstr \<Rightarrow> cstr \<Rightarrow> sink \<Rightarrow> 'p conn \<Rightarrow> bool" where
  "stage P p tls q d user u k \<longleftrightarrow> conn_open k \<and> next_parser P k = p \<and> is_tls k = tls \<and> tls_hs_done k = tls \<and>
     conn_sink k = u \<and> state (conn_ctx k) = q \<and> domain (conn_ctx k) = d \<and> authcid (conn_ctx k) = user \<and>
     out_buf (conn_ctx k) = [] \<and> length (stream_id (conn_ctx k)) < 17 \<and> \<not> needs_starttls_proceed (conn_ctx k)"

text \<open>How data arrives: encrypted, or as it is.\<close>

definition arrives :: "bool \<Rightarrow> tls_io \<Rightarrow> cstr \<Rightarrow> cstr \<Rightarrow> bool" where
  "arrives tls io raw data \<longleftrightarrow> (if tls then raw \<noteq> [] \<and> decrypts io [data] else raw = data)"

lemma enter_simps [simp]:
  "conn_ctx (enter_conn sh k) = conn_ctx k" "conn_open (enter_conn sh k) = conn_open k"
  "is_tls (enter_conn sh k) = is_tls k" "tls_hs_done (enter_conn sh k) = tls_hs_done k"
  "conn_parser (enter_conn sh k) = conn_parser k" "conn_sink (enter_conn sh k) = conn_sink k"
  "fst (conn_stream (enter_conn sh k)) = fst sh" "db (snd (conn_stream (enter_conn sh k))) = db (snd sh)"
  "sent (snd (conn_stream (enter_conn sh k))) = sent (snd sh)"
  by (simp_all add: enter_conn_def)

lemma stage_enter [simp]: "stage P p tls q d user u (enter_conn sh k) = stage P p tls q d user u k"
  by (simp add: stage_def next_parser_def)

lemma conn_feed_one:
  assumes "speaks P p data ev p'" "next_parser P k = p"
    and "s1 = upd (extract_namespaces data) (upd (feed_prepare (conn_sink k)) (snd (conn_stream k)))"
    and "rs = handle_event E L ev (fst (conn_stream k), s1)"
  shows "conn_feed E L P data k =
    (if pending_error (ctx (snd rs)) then - 1 else 0, k\<lparr>conn_parser := p', conn_stream := rs\<rparr>)"
  using assms by (simp add: conn_feed_def xmpp_feed_def speaks_def next_parser_def Let_def)

lemma extract_namespaces_output [simp]:
  "out_buf (extract_namespaces data c) = out_buf c" "stream_id (extract_namespaces data c) = stream_id c"
  "write_ud (extract_namespaces data c) = write_ud c" "pending_error (extract_namespaces data c) = pending_error c"
  "needs_parser_reset (extract_namespaces data c) = needs_parser_reset c"
  by (simp_all add: extract_namespaces_def Let_def split: option.split)

lemma feed_prepare_output [simp]:
  "out_buf (feed_prepare u c) = out_buf c" "stream_id (feed_prepare u c) = stream_id c"
  "write_ud (feed_prepare u c) = u" "\<not> pending_error (feed_prepare u c)" "\<not> needs_parser_reset (feed_prepare u c)"
  by (simp_all add: feed_prepare_def)

subsection \<open>The stanzas, one by one\<close>

text \<open>Writing a reply that fits into the empty buffer.\<close>

lemma reply_rc:
  assumes "writes_ok E" "out_buf (ctx s) = []" "length x < XMPP_BUF_SIZE"
  shows "fst (write_append x s) = 0" "fst (write_flush E (emit x s)) = 0"
    and "ctx (flushed E (emit x s)) = ctx s"
    and "x \<noteq> [] \<Longrightarrow> sent (flushed E (emit x s)) = sent s @ [(write_ud (ctx s), x)]"
proof -
  show "fst (write_append x s) = 0" using assms by (simp add: append_rc)
  show "fst (write_flush E (emit x s)) = 0" using assms(1) by (simp add: write_flush_def write_fn_def writes_ok_def)
  show "ctx (flushed E (emit x s)) = ctx s"
    using assms(2) by (simp add: write_append_def split: prod.split)
  show "x \<noteq> [] \<Longrightarrow> sent (flushed E (emit x s)) = sent s @ [(write_ud (ctx s), x)]"
    using append_out_buf [of s x] assms(2,3) by (simp add: flush_sent)
qed

lemma stream_open_short:
  "length (domain c) < 1024 \<Longrightarrow> length (stream_id c) < 17 \<Longrightarrow> length (stream_open_xml c) < XMPP_BUF_SIZE"
  by (simp add: stream_open_xml_def attr_def)

lemma features_short: "length (features_xml q) < XMPP_BUF_SIZE"
  by (cases q) (simp_all add: features_xml_def attr_def NS_TLS_def NS_SASL_def NS_BIND_def CSI_NS_def XEP0198_NS_def)

text \<open>What a stream header leads to.\<close>

definition opened :: "xmpp_state \<Rightarrow> xmpp_state" where
  "opened q = (if q = CONNECTED_TCP then FEATURES_RECEIVED
     else if q = TLS_NEGOTIATED \<or> q = STARTTLS_SENT then FEATURES_RECEIVED_POST_TLS else BOUND)"

lemma transition_opens:
  assumes "writes_ok E" "out_buf (ctx s) = []" "validate_transition (state (ctx s)) EVENT_STREAM_OPEN = q" "q \<noteq> CLOSED"
  shows "ctx (snd (transition_to E q EVENT_STREAM_OPEN s)) = (ctx s)\<lparr>state := advance q\<rparr>"
proof -
  let ?s = "set_state q s"
  have "out_buf (ctx ?s) = []" using assms(2) by simp
  note r = reply_rc [OF assms(1) this features_short, of q]
  have "q = STREAM_OPENED \<or> q = STREAM_RESTARTED_POST_TLS \<or> q = STREAM_RESTARTED_POST_SASL"
    using assms(3,4) by (auto split: if_splits)
  then have "send_stream_features ?s = (0, emit (features_xml q) ?s)"
    using r(1) by (auto simp: send_stream_features_def)
  then show ?thesis using assms(3,4) r(2,3) by (simp add: transition_to_def Let_def)
qed

lemma stream_start_opens:
  assumes "writes_ok E" "out_buf (ctx s) = []" "length (stream_id (ctx s)) < 17"
    and "client_ns (ctx s) = ''jabber:client''" "stream_ns (ctx s) = ''http://etherx.jabber.org/streams''"
    and "map_of attrs ''to'' = Some d" "map_of (rev attrs) ''version'' = Some ''1.0''" "d \<noteq> []" "length d < 1024"
    and "state (ctx s) \<in> {CONNECTED_TCP, TLS_NEGOTIATED, STARTTLS_SENT, SASL_SUCCESS}"
  shows "ctx (on_stream_start E (Some ''stream'') attrs s) = (ctx s)\<lparr>domain := d, state := opened (state (ctx s))\<rparr>"
proof -
  let ?s = "upd (choose_domain (Some d)) s"
  have c: "ctx ?s = (ctx s)\<lparr>domain := d\<rparr>" using assms(8,9) by (simp add: choose_domain_def Let_def)
  have "length (stream_open_xml (ctx ?s)) < XMPP_BUF_SIZE" using assms(3,9) c by (simp add: stream_open_short)
  moreover have "out_buf (ctx ?s) = []" using assms(2) c by simp
  ultimately have r: "fst (send_stream_open E ?s) = 0" "ctx (snd (send_stream_open E ?s)) = ctx ?s"
    using reply_rc [OF assms(1), of ?s "stream_open_xml (ctx ?s)"] by (simp_all add: send_stream_open_def Let_def)
  have o: "out_buf (ctx (snd (send_stream_open E ?s))) = []" using r(2) c assms(2) by simp
  have "validate_stream_open E attrs s = (0, s)" using assms(4,5,7) by (simp add: validate_stream_open_def)
  then have "on_stream_start E (Some ''stream'') attrs s = open_stream E (snd (send_stream_open E ?s))"
    using r(1) assms(6) by (simp add: on_stream_start_def Let_def)
  then show ?thesis
    using assms(10) transition_opens [OF assms(1) o] r(2) c
    by (auto simp: open_stream_def opened_def advance_def Let_def)
qed

lemma starttls_proceeds:
  assumes "writes_ok E" "out_buf (ctx s) = []" "has_name L st ''starttls''" "\<not> has_name L st ''auth''" "get_ns L st = Some NS_TLS"
  shows "ctx (stanza_features_received E L st s) = (ctx s)\<lparr>needs_starttls_proceed := True, state := STARTTLS_SENT\<rparr>"
proof -
  have "length (''<proceed'' @ attr ''xmlns'' NS_TLS @ ''/>'') < XMPP_BUF_SIZE" by (simp add: attr_def NS_TLS_def)
  from reply_rc(3) [OF assms(1,2) this] show ?thesis using assms(3-5) by (simp add: stanza_features_received_def)
qed

lemma plain_authenticates:
  assumes "writes_ok E" "out_buf (ctx s) = []" "has_name L st ''auth''" "get_attribute L st ''mechanism'' = Some ''PLAIN''"
    and "get_text L st = Some b64" "b64_decode b64 = authzid @ NUL # user @ NUL # password"
    and "plain_credentials E (domain (ctx s)) authzid user password (db s)"
  shows "ctx (stanza_sasl E L st s) = (ctx s)\<lparr>authcid := take 1023 user, needs_parser_reset := True, state := SASL_SUCCESS\<rparr>"
proof -
  obtain a where a: "snd (handle_sasl_plain E b64 s) = upd (\<lambda>c. c\<lparr>authcid := a\<rparr>) s"
    using handle_sasl_plain_frame by blast
  have "authcid (ctx (snd (handle_sasl_plain E b64 s))) = take 1023 user"
    using handle_sasl_plain_authcid [OF assms(6,7)] .
  then have a': "snd (handle_sasl_plain E b64 s) = upd (\<lambda>c. c\<lparr>authcid := take 1023 user\<rparr>) s" using a by simp
  have ok: "fst (handle_sasl_plain E b64 s) = SASL_OK" using assms(6,7) handle_sasl_plain_ok by blast
  have "length (''<success'' @ attr ''xmlns'' NS_SASL @ ''/>'') < XMPP_BUF_SIZE" by (simp add: attr_def NS_SASL_def)
  from reply_rc(3) [OF assms(1) _ this, of "upd (\<lambda>c. c\<lparr>authcid := take 1023 user\<rparr>) s"] show ?thesis
    using assms(2-5) ok a' by (simp add: stanza_sasl_def auth_plain_def sasl_success_def Let_def)
qed

text \<open>The resource a bind request asks for, or the one it gets when it asks for none.\<close>

definition wanted_resource :: "env \<Rightarrow> 's strophe \<Rightarrow> 's \<Rightarrow> cstr" where
  "wanted_resource E L bind =
     (case nonempty (Option.bind (get_child_by_name L bind ''resource'') (get_text L)) of
        Some r \<Rightarrow> r | None \<Rightarrow> gen_resource E)"

lemma binds_resource:
  assumes "writes_ok E" "out_buf (ctx s) = []" "get_ns L st \<noteq> Some XEP0198_NS"
    and "get_attribute L st ''type'' = Some ''set''" "get_child_by_name L st ''bind'' = Some bind"
    and "validate_resource (wanted_resource E L bind) = 0"
    and "jid = authcid (ctx s) @ ''@'' @ domain (ctx s) @ ''/'' @ wanted_resource E L bind" "length jid < JID_BUF_SIZE"
    and "length (bind_result_xml (get_attribute L st ''id'') jid) < XMPP_BUF_SIZE"
  shows "ctx (stanza_bound E L st s) = (ctx s)\<lparr>resource := wanted_resource E L bind, bound_jid := jid, state := ONLINE\<rparr>"
    and "sent (stanza_bound E L st s) = sent s @ [(write_ud (ctx s), bind_result_xml (get_attribute L st ''id'') jid)]"
proof -
  let ?res = "wanted_resource E L bind" and ?id = "get_attribute L st ''id''"
  let ?s = "upd (set_resource ?res) s"
  have "length ?res < 1024" using assms(6) by (auto simp: validate_resource_def split: if_splits)
  then have c: "ctx ?s = (ctx s)\<lparr>resource := ?res, bound_jid := jid\<rparr>"
    using assms(7,8) by (simp add: set_resource_def Let_def)
  have o: "out_buf (ctx ?s) = []" using c assms(2) by simp
  note r = reply_rc [OF assms(1) o, of "bind_result_xml ?id jid", OF assms(9)]
  have "stanza_bound E L st s = bind_resource E ?id ?res s"
    using assms(3-6) by (auto simp: stanza_bound_def bind_request_def wanted_resource_def bind_eq_None_conv
        split: option.splits Option.bind_splits)
  then have b: "stanza_bound E L st s = set_state ONLINE (flushed E (emit (bind_result_xml ?id jid) ?s))"
    using r(1) c by (simp add: bind_resource_def Let_def)
  show "ctx (stanza_bound E L st s) = (ctx s)\<lparr>resource := ?res, bound_jid := jid, state := ONLINE\<rparr>"
    unfolding b using r(3) c by simp
  have "bind_result_xml ?id jid \<noteq> []" by (simp add: bind_result_xml_def)
  from r(4) [OF this] show "sent (stanza_bound E L st s) = sent s @ [(write_ud (ctx s), bind_result_xml ?id jid)]"
    unfolding b using c by simp
qed

subsection \<open>The callbacks, one by one\<close>

text \<open>The state in which the handler of a callback runs.\<close>

definition entered :: "cstr \<Rightarrow> 'p conn \<Rightarrow> server" where
  "entered data k = upd (extract_namespaces data) (upd (feed_prepare (conn_sink k)) (snd (conn_stream k)))"

lemma read_one:
  assumes "arrives tls io raw data" "is_tls k = tls" "tls_hs_done k = tls" "speaks P (next_parser P k) data ev p'"
    and "rs = handle_event E L ev (fst (conn_stream k), entered data k)"
    and "\<not> pending_error (ctx (snd rs))" "\<not> needs_starttls_proceed (ctx (snd rs))"
  shows "read_cb E L P io (Some raw) k = k\<lparr>conn_parser := p', conn_stream := rs\<rparr>"
  using assms conn_feed_one [OF assms(4) refl refl refl, of E L]
  by (auto simp: read_cb_def read_tls_def read_plain_def arrives_def decrypts_def speaks_def entered_def Let_def)

lemma entered_simps [simp]:
  "state (ctx (entered data k)) = state (conn_ctx k)" "domain (ctx (entered data k)) = domain (conn_ctx k)"
  "authcid (ctx (entered data k)) = authcid (conn_ctx k)" "out_buf (ctx (entered data k)) = out_buf (conn_ctx k)"
  "stream_id (ctx (entered data k)) = stream_id (conn_ctx k)" "write_ud (ctx (entered data k)) = conn_sink k"
  "\<not> pending_error (ctx (entered data k))" "\<not> needs_parser_reset (ctx (entered data k))"
  "\<not> needs_starttls_proceed (ctx (entered data k))" "db (entered data k) = db (snd (conn_stream k))"
  "sent (entered data k) = sent (snd (conn_stream k))"
  by (simp_all add: entered_def)

lemma client_greets:
  assumes "writes_ok E" "stage P p tls q d0 user u k" "arrives tls io raw data" "greets P p data d p'"
    and "q \<in> {CONNECTED_TCP, TLS_NEGOTIATED, STARTTLS_SENT, SASL_SUCCESS}"
  shows "stage P p' tls (opened q) d user u (callback L P (E, io, sh, raw) k)"
proof -
  let ?k = "enter_conn sh k"
  obtain attrs where a: "speaks P p data (Stream_start (Some ''stream'') attrs) p'"
      "map_of attrs ''to'' = Some d" "map_of (rev attrs) ''version'' = Some ''1.0''"
    and d: "d \<noteq> []" "length d < 1024"
    and ns: "\<And>c. client_ns (extract_namespaces data c) = ''jabber:client''"
      "\<And>c. stream_ns (extract_namespaces data c) = ''http://etherx.jabber.org/streams''"
    using assms(4) unfolding greets_def by blast
  have st: "conn_open ?k" "next_parser P ?k = p" "is_tls ?k = tls" "tls_hs_done ?k = tls" "conn_sink ?k = u"
      "state (conn_ctx ?k) = q" "authcid (conn_ctx ?k) = user" "out_buf (conn_ctx ?k) = []"
      "length (stream_id (conn_ctx ?k)) < 17"
    using assms(2) stage_enter [of P p tls q d0 user u sh k] by (simp_all add: stage_def del: enter_simps)
  let ?s = "entered data ?k"
  have c: "ctx (on_stream_start E (Some ''stream'') attrs ?s) = (ctx ?s)\<lparr>domain := d, state := opened q\<rparr>"
    using stream_start_opens [OF assms(1), of ?s attrs d] a(2,3) d ns st assms(5) by (simp add: entered_def)
  have "callback L P (E, io, sh, raw) k =
      ?k\<lparr>conn_parser := p', conn_stream := (fst (conn_stream ?k), on_stream_start E (Some ''stream'') attrs ?s)\<rparr>"
    using read_one [OF assms(3) st(3,4) a(1) [folded st(2)] refl, of E L] c by (simp add: callback_def)
  then show ?thesis using st c by (simp add: stage_def next_parser_def)
qed

text \<open>\<^verbatim>\<open><starttls/>\<close> in the clear; the TLS context is set up in the same callback.\<close>

definition tls_requested :: "cstr \<Rightarrow> sink \<Rightarrow> 'p conn \<Rightarrow> bool" where
  "tls_requested d u k \<longleftrightarrow> conn_open k \<and> is_tls k \<and> \<not> tls_hs_done k \<and> conn_sink k = u \<and> domain (conn_ctx k) = d \<and>
     authcid (conn_ctx k) = [] \<and> out_buf (conn_ctx k) = [] \<and> length (stream_id (conn_ctx k)) < 17 \<and>
     \<not> needs_starttls_proceed (conn_ctx k)"

lemma client_starts_tls:
  assumes "writes_ok E" "stage P p False FEATURES_RECEIVED d [] u k" "speaks P p data (Stanza st) p'"
    and "asks_tls L st" "io_ctx_ready io" "io_setup_ok io"
  shows "tls_requested d u (callback L P (E, io, sh, data) k)"
proof -
  let ?k = "enter_conn sh k" and ?s = "entered data (enter_conn sh k)"
  have st: "next_parser P ?k = p" "state (conn_ctx ?k) = FEATURES_RECEIVED" "out_buf (conn_ctx ?k) = []" "\<not> is_tls ?k"
    using assms(2) stage_enter [of P p False FEATURES_RECEIVED d "[]" u sh k] by (simp_all add: stage_def del: enter_simps)
  have "out_buf (ctx ?s) = []" using st by simp
  then have c: "ctx (stanza_features_received E L st ?s) = (ctx ?s)\<lparr>needs_starttls_proceed := True, state := STARTTLS_SENT\<rparr>"
    using starttls_proceeds [OF assms(1), of ?s L st] assms(4) by (simp add: asks_tls_def)
  have h: "handle_event E L (Stanza st) (fst (conn_stream ?k), ?s) = (fst (conn_stream ?k), stanza_features_received E L st ?s)"
    using st(2) by (simp add: on_stanza_def)
  show ?thesis
    using conn_feed_one [OF assms(3) st(1) entered_def h [symmetric]] assms(2,3,5,6) st(4) c
    by (simp add: callback_def read_cb_def read_plain_def speaks_def stage_def tls_requested_def upd_conn_def
        tls_handshake_started_def Let_def)
qed

lemma client_handshake:
  assumes "tls_requested d u k" "raw \<noteq> []" "decrypts io []" "io_handshake io = Hs_ok"
  shows "stage P (parser_new P) True TLS_NEGOTIATED d [] u (callback L P (E, io, sh, raw) k)"
  using assms by (simp add: callback_def read_cb_def read_tls_def decrypts_def tls_requested_def stage_def next_parser_def
      upd_conn_def tls_handshake_done_def Let_def)

lemma client_authenticates:
  assumes "writes_ok E" "stage P p True FEATURES_RECEIVED_POST_TLS d [] u k" "speaks P p data (Stanza st) p'"
    and "arrives True io raw data" "sends_plain L st authzid user password"
    and "plain_credentials E d authzid user password (db (snd sh))"
  shows "stage P (parser_new P) True SASL_SUCCESS d (take 1023 user) u (callback L P (E, io, sh, raw) k)"
proof -
  let ?k = "enter_conn sh k" and ?s = "entered data (enter_conn sh k)"
  have st: "next_parser P ?k = p" "state (conn_ctx ?k) = FEATURES_RECEIVED_POST_TLS" "out_buf (conn_ctx ?k) = []"
      "is_tls ?k = True" "tls_hs_done ?k = True" "domain (conn_ctx ?k) = d"
    using assms(2) stage_enter [of P p True FEATURES_RECEIVED_POST_TLS d "[]" u sh k] by (simp_all add: stage_def del: enter_simps)
  have "plain_credentials E (domain (ctx ?s)) authzid user password (db ?s)" using assms(6) st(6) by simp
  then have c: "ctx (stanza_sasl E L st ?s) = (ctx ?s)\<lparr>authcid := take 1023 user, needs_parser_reset := True, state := SASL_SUCCESS\<rparr>"
    using assms(5) st(3) plain_authenticates [OF assms(1), of ?s] by (auto simp: sends_plain_def)
  have h: "handle_event E L (Stanza st) (fst (conn_stream ?k), ?s) = (fst (conn_stream ?k), stanza_sasl E L st ?s)"
    using st(2) by (simp add: on_stanza_def)
  show ?thesis
    using read_one [OF assms(4) st(4,5) assms(3) [folded st(1)] h [symmetric]] assms(2) st(3) c
    by (simp add: callback_def stage_def next_parser_def)
qed

lemma client_binds:
  assumes "writes_ok E" "stage P p True BOUND d user u k" "speaks P p data (Stanza st) p'"
    and "arrives True io raw data" "asks_bind L st bind"
    and "validate_resource (wanted_resource E L bind) = 0"
    and "jid = user @ ''@'' @ d @ ''/'' @ wanted_resource E L bind" "length jid < JID_BUF_SIZE"
    and "length (bind_result_xml (get_attribute L st ''id'') jid) < XMPP_BUF_SIZE"
    and "k' = callback L P (E, io, sh, raw) k"
  shows "stage P p' True ONLINE d user u k'" "bound_jid (conn_ctx k') = jid"
    and "sent (snd (conn_stream k')) = sent (snd sh) @ [(u, bind_result_xml (get_attribute L st ''id'') jid)]"
proof -
  let ?k = "enter_conn sh k" and ?s = "entered data (enter_conn sh k)"
  have st: "next_parser P ?k = p" "state (conn_ctx ?k) = BOUND" "out_buf (conn_ctx ?k) = []"
      "is_tls ?k = True" "tls_hs_done ?k = True" "domain (conn_ctx ?k) = d" "authcid (conn_ctx ?k) = user" "conn_sink ?k = u"
    using assms(2) stage_enter [of P p True BOUND d user u sh k] by (simp_all add: stage_def del: enter_simps)
  have ask: "get_ns L st \<noteq> Some XEP0198_NS" "get_attribute L st ''type'' = Some ''set''" "get_child_by_name L st ''bind'' = Some bind"
    using assms(5) by (simp_all add: asks_bind_def)
  have "out_buf (ctx ?s) = []" "jid = authcid (ctx ?s) @ ''@'' @ domain (ctx ?s) @ ''/'' @ wanted_resource E L bind"
    using st assms(7) by simp_all
  note c = binds_resource [OF assms(1) this(1) ask assms(6) this(2) assms(8,9)]
  have h: "handle_event E L (Stanza st) (fst (conn_stream ?k), ?s) = (fst (conn_stream ?k), stanza_bound E L st ?s)"
    using st(2) by (simp add: on_stanza_def)
  have k': "k' = ?k\<lparr>conn_parser := p', conn_stream := (fst (conn_stream ?k), stanza_bound E L st ?s)\<rparr>"
    using read_one [OF assms(4) st(4,5) assms(3) [folded st(1)] h [symmetric]] assms(10) c(1) by (simp add: callback_def)
  show "stage P p' True ONLINE d user u k'" "bound_jid (conn_ctx k') = jid"
    "sent (snd (conn_stream k')) = sent (snd sh) @ [(u, bind_result_xml (get_attribute L st ''id'') jid)]"
    using assms(2) c st by (simp_all add: k' stage_def next_parser_def)
qed

lemma accepted_stage: "stage P (parser_new P) False CONNECTED_TCP [] [] u (on_new_connection E P u rs)"
  using snprintf_length [of 17]
  by (simp add: stage_def next_parser_def on_new_connection_def xmpp_session_reset_def session_reset_def session0_def)

end
