(* ===== verification/IQ_Answers.thy ===== *)
theory IQ_Answers
  imports IQ_Handlers
begin

text \<open>
  That a client is answered: RFC 6120 asks for exactly one reply to each IQ of type get or set, with
  the id of the request. The locale \<open>answering_handlers\<close> is what dispatching relies on for this; the
  handlers of the server fulfil it as long as the texts they put into their fixed buffers fit.
\<close>

subsection \<open>Replies\<close>

definition reply_head :: "cstr \<Rightarrow> cstr \<Rightarrow> cstr" where
  "reply_head ty i = ''<iq'' @ attr ''type'' ty @ attr ''id'' i"

definition starts_with :: "cstr \<Rightarrow> cstr \<Rightarrow> bool" where
  "starts_with p x \<longleftrightarrow> take (length p) x = p"

definition is_reply :: "sink \<Rightarrow> cstr \<Rightarrow> sink \<times> cstr \<Rightarrow> bool" where
  "is_reply u i w \<longleftrightarrow> fst w = u \<and> (starts_with (reply_head ''result'' i) (snd w) \<or> starts_with (reply_head ''error'' i) (snd w))"

text \<open>Exactly one reply to the request with the id \<open>i\<close> is written to its connection.\<close>

definition answered :: "cstr \<Rightarrow> server \<Rightarrow> server \<Rightarrow> bool" where
  "answered i s s' \<longleftrightarrow> (\<exists>out. sent s' = sent s @ out \<and> length (filter (is_reply (write_ud (ctx s)) i) out) = 1)"

lemma is_reply_head:
  "is_reply u i (u, reply_head ''result'' i @ x)" "is_reply u i (u, reply_head ''error'' i @ x)"
  by (simp_all add: is_reply_def starts_with_def)

lemma answered_once:
  assumes "sent s' = sent s @ out @ [w] @ rest" "is_reply (write_ud (ctx s)) i w"
    and "\<forall>v\<in>set out \<union> set rest. \<not> is_reply (write_ud (ctx s)) i v"
  shows "answered i s s'"
proof -
  have "filter (is_reply (write_ud (ctx s)) i) (out @ [w] @ rest) = [w]"
    using assms(2,3) by (simp add: filter_empty_conv)
  then show ?thesis using assms(1) unfolding answered_def by fastforce
qed

text \<open>A reply that is flushed, after which something else may be written.\<close>

lemma answered_flush:
  assumes "x = reply_head ty i @ y" "ty = ''result'' \<or> ty = ''error''" "sent s1 = sent s" "ctx s1 = ctx s"
  shows "answered i s (snd (iq_flush E x s1))"
  using assms by (intro answered_once [of _ _ "[]" "(write_ud (ctx s), x)" "[]"]) (auto simp: is_reply_head)

lemma answered_reply:
  "answered i s (snd (iq_flush E (reply_head ''result'' i @ y) s))" "answered i s (snd (iq_flush E (reply_head ''error'' i @ y) s))"
  using answered_flush [OF refl _ refl refl] by blast+

lemma error_head: "iq_error_xml (Some i) ty c = reply_head ''error'' i @ ''><error'' @ attr ''type'' ty @ ''><'' @ c @ attr ''xmlns'' NS_STANZAS @ ''/></error></iq>''"
  by (simp add: iq_error_xml_def reply_head_def id_attr_def)

lemma error_length: "length (iq_error_xml (Some i) ty c) \<le> length i + length ty + length c + 200"
  by (simp add: iq_error_xml_def id_attr_def attr_def NS_STANZAS_def)

lemma error_answered:
  assumes "length i \<le> 1000" "length ty + length c \<le> 1000" "sent s1 = sent s" "ctx s1 = ctx s"
  shows "answered i s (send_error_iq E (Some i) ty c s1)"
  using assms(1,2) answered_flush [OF error_head [of i ty c] _ assms(3,4), of E] error_length [of i ty c]
  by (simp add: send_error_iq_def iq_append_def)

subsection \<open>Dispatching\<close>

locale answering_handlers =
  fixes call :: "('h, 's) iq_call" and fits :: "'s \<Rightarrow> 's \<Rightarrow> cstr \<Rightarrow> server \<Rightarrow> bool"
  assumes id_fits: "fits st child i s \<Longrightarrow> length i \<le> 1000"
    and declining: "fits st child i s \<Longrightarrow> fst (call f st child (Some i) s) = IQ_NOT_MINE \<Longrightarrow>
      snd (call f st child (Some i) s) = s"
    and answering: "fits st child i s \<Longrightarrow> fst (call f st child (Some i) s) \<noteq> IQ_NOT_MINE \<Longrightarrow>
      fst (call f st child (Some i) s) \<in> {IQ_HANDLED, IQ_ERROR} \<and> answered i s (snd (call f st child (Some i) s))"
begin

lemma try_handlers_answers:
  assumes "fits st child i s"
  shows "answered i s (try_handlers E call ns ty st child (Some i) hs s)"
proof (induction hs)
  case Nil
  show ?case using id_fits [OF assms] by (simp add: error_answered)
next
  case (Cons h hs)
  let ?r = "call (the (h_handler h)) st child (Some i) s"
  show ?case
  proof (cases "fst ?r = IQ_NOT_MINE")
    case True
    then show ?thesis using Cons declining [OF assms True] by (auto split: prod.split)
  next
    case False
    then show ?thesis using Cons answering [OF assms False] by (auto split: prod.split)
  qed
qed

lemma dispatch_answers:
  assumes "length i \<le> 1000" "\<And>child. get_first_element_child L st = Some child \<Longrightarrow> fits st child i s"
    and "get_attribute L st ''id'' = Some i" "get_attribute L st ''type'' \<notin> {Some ''result'', Some ''error''}"
  shows "answered i s (snd (iq_dispatch E L call st r s))"
  using assms(1,3,4) try_handlers_answers [OF assms(2)]
  by (auto simp: iq_dispatch_def Let_def error_answered split: option.split)

end

subsection \<open>The handlers\<close>

text \<open>
  What has to fit: the id and the addressee into the buffers of the short replies (the smallest
  has 128 bytes), the stored lists and cards into those of 65536 bytes.
\<close>

definition roster_text :: "env \<Rightarrow> server \<Rightarrow> cstr" where
  "roster_text E s =
     concat (concat (map (\<lambda>x. item_parts (fst x) (snd x)) (snd (storage_roster_list E (owner_jid (ctx s)) (db s)))))"

definition block_text :: "env \<Rightarrow> server \<Rightarrow> cstr" where
  "block_text E s = concat (map block_item_xml (snd (storage_blocklist_list E (bare (bound_jid (ctx s))) (db s))))"

definition replies_fit :: "env \<Rightarrow> 's strophe \<Rightarrow> 's \<Rightarrow> cstr \<Rightarrow> server \<Rightarrow> bool" where
  "replies_fit E L st i s \<longleftrightarrow> length i \<le> 64 \<and> length (opt_str (get_attribute L st ''to'')) \<le> 90 \<and>
     length (domain (ctx s)) \<le> 90 \<and> length (roster_text E s) \<le> 60000 \<and> length (block_text E s) \<le> 60000 \<and>
     (\<forall>j x. vcards (db s) j = Some x \<longrightarrow> length x \<le> 60000)"

text \<open>What the roster handler needs: the nodes after the item and the children of the item are
  elements, not text.\<close>

definition item_named :: "'s strophe \<Rightarrow> 's \<Rightarrow> bool" where
  "item_named L child \<longleftrightarrow> (case get_child_by_name L child ''item'' of
      None \<Rightarrow> True
    | Some item \<Rightarrow> \<forall>n\<in>set (get_siblings L item) \<union> set (get_children L item). get_name L n \<noteq> None)"

lemma append_all_done: "\<not> fst (append_all cap ps buf) \<Longrightarrow> snd (append_all cap ps buf) = buf @ concat ps"
  by (induction ps arbitrary: buf) (auto simp: iq_append_def Let_def split: if_splits)

lemma append_all_extends: "\<exists>y. snd (append_all cap ps buf) = buf @ y"
  by (induction ps arbitrary: buf) (auto simp: iq_append_def Let_def split: if_splits, metis append_assoc)

lemma append_items_done:
  "\<not> fst (append_items cap igs buf) \<Longrightarrow>
     snd (append_items cap igs buf) = buf @ concat (concat (map (\<lambda>x. item_parts (fst x) (snd x)) igs))"
proof (induction igs arbitrary: buf)
  case (Cons x igs)
  obtain it gs where x: "x = (it, gs)" by (cases x)
  show ?case
    using Cons append_all_done [of cap "item_parts it gs" buf]
    by (auto simp: x append_item_xml_def Let_def split: if_splits)
qed simp

lemma append_block_done:
  "\<not> fst (append_block_items js buf) \<Longrightarrow> snd (append_block_items js buf) = buf @ concat (map block_item_xml js)"
  by (induction js arbitrary: buf) (auto simp: iq_append_def Let_def split: if_splits)

lemma result_head: "iq_result_xml (Some i) = reply_head ''result'' i @ ''/>''"
  by (simp add: iq_result_xml_def reply_head_def id_attr_def)

lemma result_answered:
  assumes "length i \<le> 64" "cap \<ge> 128" "sent s1 = sent s" "ctx s1 = ctx s"
  shows "answered i s (snd (send_iq_result E cap (Some i) s1))" "fst (send_iq_result E cap (Some i) s1) = 0"
proof -
  have "length (iq_result_xml (Some i)) < cap" using assms(1,2) by (simp add: iq_result_xml_def id_attr_def attr_def)
  then have "send_iq_result E cap (Some i) s1 = (0, snd (iq_flush E (iq_result_xml (Some i)) s1))"
    by (rule send_iq_result_sent)
  then show "answered i s (snd (send_iq_result E cap (Some i) s1))" "fst (send_iq_result E cap (Some i) s1) = 0"
    using answered_flush [OF result_head _ assms(3,4)] by simp_all
qed

lemma iq_append_extends: "\<exists>y. snd (iq_append cap buf x) = buf @ y"
  by (simp add: iq_append_def)

lemma push_cases:
  "send_roster_push E item gs p ow s = s \<or>
     (\<exists>x. send_roster_push E item gs p ow s = snd (iq_flush E ((''<iq'' @ attr ''type'' ''set'') @ x) s))"
proof -
  let ?pre = "''<iq'' @ attr ''type'' ''set''"
  obtain v where v: "v = (case roster_ver_peek E ow (db s) of Found v \<Rightarrow> v | _ \<Rightarrow> [])" by blast
  let ?h = "iq_append 4096 [] (''<iq'' @ attr ''type'' ''set'' @ attr ''id'' p @ ''><query'' @
                attr ''xmlns'' NS_ROSTER @ (if v \<noteq> [] then attr ''ver'' v else []) @ ''>'')"
  let ?e = "iq_append 4096 (snd (append_item_xml 4096 item gs (snd ?h))) ''</query></iq>''"
  have push: "send_roster_push E item gs p ow s = (if fst ?h \<noteq> 0 \<or> fst ?e \<noteq> 0 then s else snd (iq_flush E (snd ?e) s))"
    by (simp add: send_roster_push_def v Let_def)
  show ?thesis
  proof (cases "fst ?h = 0")
    case True
    then obtain y where y: "snd ?h = ?pre @ y" by (auto simp: iq_append_def split: if_splits)
    obtain x where x: "snd (append_item_xml 4096 item gs (snd ?h)) = snd ?h @ x"
      using append_all_extends unfolding append_item_xml_def by blast
    obtain z where "snd ?e = snd (append_item_xml 4096 item gs (snd ?h)) @ z" using iq_append_extends by blast
    then have "snd ?e = ?pre @ (y @ x @ z)" using x y by simp
    then show ?thesis unfolding push by metis
  qed (simp add: push)
qed

lemma push_silent: "\<exists>rest. sent (send_roster_push E item gs p ow s) = sent s @ rest \<and> (\<forall>v\<in>set rest. \<not> is_reply u i v)"
proof -
  have "\<not> is_reply u i (v, (''<iq'' @ attr ''type'' ''set'') @ x)" for v x
    by (simp add: is_reply_def starts_with_def reply_head_def attr_def quote_char_def)
  then show ?thesis using push_cases [of E item gs p ow s] by (elim disjE exE) simp_all
qed

lemma roster_full_answered:
  assumes "length i \<le> 64" "length (roster_text E s) \<le> 60000"
  shows "answered i s (snd (roster_full E (Some i) s))"
proof -
  have h: "roster_head (Some i) = reply_head ''result'' i @ ''><query'' @ attr ''xmlns'' NS_ROSTER @ ''></iq>''"
    by (simp add: roster_head_def reply_head_def id_attr_def)
  have l: "length (roster_head (Some i)) \<le> 300" using assms(1) by (simp add: roster_head_def id_attr_def attr_def NS_ROSTER_def)
  let ?l = "storage_roster_list E (owner_jid (ctx s)) (db s)"
  let ?items = "append_items IQ_BUF_SIZE (snd ?l) (roster_head (Some i))"
  show ?thesis
  proof (cases "fst ?l \<noteq> 0 \<or> fst ?items")
    case True
    then show ?thesis
      using l answered_flush [OF error_head _ refl refl] error_length [of i "''cancel''" "''internal-server-error''"] assms(1)
      by (auto simp: roster_full_def iq_append_def Let_def)
  next
    case False
    then have "snd ?items = roster_head (Some i) @ roster_text E s" by (simp add: append_items_done roster_text_def)
    then have "snd (roster_full E (Some i) s) = snd (iq_flush E (roster_head (Some i) @ roster_text E s @ ''</query></iq>'') s)"
      using False l assms(2) by (simp add: roster_full_def iq_append_def Let_def)
    then show ?thesis unfolding h append_assoc by (simp only: answered_reply)
  qed
qed

lemma roster_get_answered:
  assumes "replies_fit E L st i s"
  shows "answered i s (snd (xmpp_iq_handle_roster_get E L child (Some i) s))"
proof -
  have i: "length i \<le> 64" and full: "answered i s (snd (roster_full E (Some i) s))"
    using assms roster_full_answered [of i E s] by (simp_all add: replies_fit_def)
  have "answered i s (snd (iq_flush E (snd (iq_append 512 [] (roster_unchanged_xml (Some i) v))) s))" if "length v \<le> 64" for v
  proof -
    have h: "roster_unchanged_xml (Some i) v = reply_head ''result'' i @ ''><query'' @ attr ''xmlns'' NS_ROSTER @ attr ''ver'' v @ ''/></iq>''"
      by (simp add: roster_unchanged_xml_def reply_head_def id_attr_def)
    have "length (roster_unchanged_xml (Some i) v) < 512"
      using i that by (simp add: roster_unchanged_xml_def id_attr_def attr_def NS_ROSTER_def)
    then show ?thesis using answered_flush [OF h _ refl refl] by (simp add: iq_append_def)
  qed
  moreover have "length v \<le> 64" if "roster_ver_get E ow d = Found v" for v ow d
    using that by (auto simp: roster_ver_get_def split: if_splits option.splits)
  ultimately show ?thesis using full by (auto simp: xmpp_iq_handle_roster_get_def split: option.split fetched.split)
qed

text \<open>A result, and then a roster push.\<close>

lemma result_push_answered:
  assumes "length i \<le> 64" "sent s1 = sent s" "ctx s1 = ctx s"
  shows "answered i s (send_roster_push E item gs p ow (snd (send_iq_result E 256 (Some i) s1)))"
proof -
  obtain rest where r: "sent (send_roster_push E item gs p ow (snd (send_iq_result E 256 (Some i) s1))) =
      sent (snd (send_iq_result E 256 (Some i) s1)) @ rest" "\<forall>v\<in>set rest. \<not> is_reply (write_ud (ctx s)) i v"
    using push_silent by blast
  have "answered i s (snd (send_iq_result E 256 (Some i) s1))" using result_answered(1) [OF assms(1) _ assms(2,3)] by simp
  then show ?thesis using r by (fastforce simp: answered_def filter_empty_conv)
qed

lemma roster_set_answered:
  assumes "length i \<le> 64" "item_named L child"
  shows "answered i s (snd (xmpp_iq_handle_roster_set E L child (Some i) s))"
proof -
  have e: "answered i s (send_iq_error E (Some i) ty c s1)" if "length ty + length c \<le> 1000" "sent s1 = sent s" "ctx s1 = ctx s" for ty c s1
    unfolding send_iq_error_def using assms that by (intro error_answered) simp_all
  have named: "second_item L (get_siblings L item) \<noteq> None" "item_groups L item \<noteq> None"
    if "get_child_by_name L child ''item'' = Some item" for item
    using assms(2) that named_no_crash [of _ L] by (simp_all add: item_named_def item_groups_def)
  show ?thesis
    using assms(1) named by (auto simp: xmpp_iq_handle_roster_set_def roster_set_remove_def roster_set_upsert_def Let_def
        split: option.split bool.split intro!: e result_push_answered)
qed

lemma vcard_error_answered:
  assumes "length i \<le> 64" "length ty + length c \<le> 1000" "sent s1 = sent s" "ctx s1 = ctx s"
  shows "answered i s (vcard_send_error E (Some i) ty c s1)"
proof -
  have h: "vcard_error_xml (Some i) ty c = reply_head ''error'' i @ ''><vCard'' @ attr ''xmlns'' VCARD_NS @
      ''/><error'' @ attr ''type'' ty @ ''><'' @ c @ attr ''xmlns'' NS_STANZAS @ ''/></error></iq>''"
    by (simp add: vcard_error_xml_def reply_head_def id_attr_def)
  have "length (vcard_error_xml (Some i) ty c) < IQ_BUF_SIZE"
    using assms(1,2) by (simp add: vcard_error_xml_def id_attr_def attr_def VCARD_NS_def NS_STANZAS_def)
  then show ?thesis using answered_flush [OF h _ assms(3,4), of E] by (simp add: vcard_send_error_def iq_append_def Let_def)
qed

lemma vcard_found_answered:
  assumes "length i \<le> 64" "length x \<le> 60000"
  shows "answered i s (snd (vcard_found E (Some i) lookup x s))"
proof -
  let ?h = "''<iq'' @ attr ''type'' ''result'' @ attr ''id'' i @ attr ''from'' (snprintf 1024 lookup) @ ''><vCard'' @ attr ''xmlns'' VCARD_NS @ ''>''"
  have h: "?h = reply_head ''result'' i @ attr ''from'' (snprintf 1024 lookup) @ ''><vCard'' @ attr ''xmlns'' VCARD_NS @ ''>''"
    by (simp add: reply_head_def)
  have "length (snprintf 1024 lookup) < 1024" by (rule snprintf_length) simp
  then have l: "length ?h \<le> 2000" using assms(1) by (simp add: attr_def VCARD_NS_def)
  then have "snd (vcard_found E (Some i) lookup x s) = snd (iq_flush E (?h @ x @ ''</vCard></iq>'') s)"
    using assms(2) by (simp add: vcard_found_def iq_append_def opt_str_def Let_def)
  then show ?thesis unfolding h append_assoc by (simp only: answered_reply)
qed

lemma vcard_empty_answered:
  assumes "length i \<le> 64" "length (opt_str to) \<le> 90"
  shows "answered i s (snd (vcard_empty E (Some i) to s))"
proof -
  let ?x = "''<iq'' @ attr ''type'' ''result'' @ attr ''id'' i @ attr ''from'' (opt_str to) @ ''><vCard'' @ attr ''xmlns'' VCARD_NS @ ''/></iq>''"
  have h: "?x = reply_head ''result'' i @ attr ''from'' (opt_str to) @ ''><vCard'' @ attr ''xmlns'' VCARD_NS @ ''/></iq>''"
    by (simp add: reply_head_def)
  have "length ?x < IQ_BUF_SIZE" using assms by (simp add: attr_def VCARD_NS_def)
  then have "snd (vcard_empty E (Some i) to s) = snd (iq_flush E ?x s)"
    by (simp add: vcard_empty_def iq_append_def opt_str_def Let_def)
  then show ?thesis unfolding h by (simp only: answered_reply)
qed

lemma vcard_get_answered:
  assumes "replies_fit E L st i s"
  shows "answered i s (snd (handle_vcard_get E L st (Some i) s))"
proof -
  have i: "length i \<le> 64" "length (opt_str (get_attribute L st ''to'')) \<le> 90" using assms by (simp_all add: replies_fit_def)
  have "length x \<le> 60000" if "storage_vcard_get E j (db s) = Found x" for j x
    using assms that by (auto simp: replies_fit_def storage_vcard_get_def split: if_splits option.splits)
  then show ?thesis
    using vcard_found_answered [OF i(1)] vcard_empty_answered [OF i] vcard_error_answered [OF i(1) _ refl refl]
    by (auto simp: handle_vcard_get_def Let_def split: vcard_target.split fetched.split)
qed

lemma vcard_set_answered:
  assumes "length i \<le> 64"
  shows "answered i s (snd (handle_vcard_set E L st child (Some i) s))"
proof -
  let ?x = "''<iq'' @ attr ''type'' ''result'' @ attr ''id'' (opt_str (Some i)) @ ''/>''"
  have h: "?x = reply_head ''result'' i @ ''/>''" by (simp add: reply_head_def opt_str_def)
  have "length ?x < 256" using assms by (simp add: attr_def opt_str_def)
  moreover have "answered i s (snd (iq_flush E ?x (s\<lparr>db := d\<rparr>)))" for d by (rule answered_flush [OF h]) simp_all
  ultimately show ?thesis
    using assms by (auto simp: handle_vcard_set_def iq_append_def Let_def split: option.split intro!: vcard_error_answered)
qed

lemma disco_error_answered:
  assumes "length i \<le> 64" "length ns + length c \<le> 1000"
  shows "answered i s (send_disco_error E ns (Some i) c s)"
proof -
  have h: "disco_error_xml ns (Some i) c = reply_head ''error'' i @ ''><query'' @ attr ''xmlns'' ns @
      ''/><error'' @ attr ''type'' ''cancel'' @ ''><'' @ c @ attr ''xmlns'' NS_STANZAS @ ''/></error></iq>''"
    by (simp add: disco_error_xml_def reply_head_def id_attr_def)
  have "length (disco_error_xml ns (Some i) c) < IQ_BUF_SIZE"
    using assms by (simp add: disco_error_xml_def id_attr_def attr_def NS_STANZAS_def)
  then show ?thesis using answered_flush [OF h _ refl refl, where E = E] by (simp add: send_disco_error_def iq_append_def Let_def)
qed

lemma append_all_fits: "length buf + length (concat ps) < cap \<Longrightarrow> append_all cap ps buf = (False, buf @ concat ps)"
  by (induction ps arbitrary: buf) (simp_all add: iq_append_def)

lemma disco_info_answered:
  assumes "replies_fit E L st i s"
  shows "answered i s (snd (xep0030_handle_disco_info_iq E L st child (Some i) s))"
proof -
  let ?to = "get_attribute L st ''to''"
  have i: "length i \<le> 64" "length (disco_from ?to s) \<le> 90"
    using assms by (auto simp: replies_fit_def disco_from_def opt_str_def split: option.splits)
  let ?p = "\<lambda>target. disco_info_parts (Some i) (disco_from ?to s) target"
  have h: "concat (?p target) = reply_head ''result'' i @ attr ''from'' (disco_from ?to s) @ ''><query'' @ attr ''xmlns'' NS_DISCO_INFO @ ''>'' @
      concat (tl (?p target))" for target
    by (simp add: disco_info_parts_def reply_head_def id_attr_def)
  have "length (concat (?p target)) < IQ_BUF_SIZE" for target
    using i by (simp add: disco_info_parts_def server_features_def id_attr_def attr_def NS_DISCO_INFO_def)
  then have ok: "append_all IQ_BUF_SIZE (?p target) [] = (False, concat (?p target))" for target
    using append_all_fits [of "[]" "?p target"] by simp
  have "answered i s (snd (iq_flush E (concat (?p target)) s))" for target unfolding h by (rule answered_reply)
  moreover have "answered i s (send_info_error E (Some i) c s)" if "length c \<le> 100" for c
    unfolding send_info_error_def using i that by (intro disco_error_answered) (simp_all add: NS_DISCO_INFO_def)
  ultimately show ?thesis by (simp add: xep0030_handle_disco_info_iq_def ok Let_def)
qed

lemma disco_items_answered:
  assumes "replies_fit E L st i s"
  shows "answered i s (snd (xep0030_handle_disco_items_iq E L st child (Some i) s))"
proof -
  let ?from = "disco_from (get_attribute L st ''to'') s"
  have i: "length i \<le> 64" "length ?from \<le> 90"
    using assms by (auto simp: replies_fit_def disco_from_def opt_str_def split: option.splits)
  let ?x = "''<iq'' @ attr ''type'' ''result'' @ id_attr (Some i) @ attr ''from'' ?from @ ''><query'' @ attr ''xmlns'' NS_DISCO_ITEMS @ ''/></iq>''"
  have h: "?x = reply_head ''result'' i @ attr ''from'' ?from @ ''><query'' @ attr ''xmlns'' NS_DISCO_ITEMS @ ''/></iq>''"
    by (simp add: reply_head_def id_attr_def)
  have "length ?x < 256" using i by (simp add: id_attr_def attr_def NS_DISCO_ITEMS_def)
  moreover have "answered i s (snd (iq_flush E ?x s))" unfolding h by (rule answered_reply)
  moreover have "answered i s (send_items_error E (Some i) c s)" if "length c \<le> 100" for c
    unfolding send_items_error_def using i that by (intro disco_error_answered) (simp_all add: NS_DISCO_ITEMS_def)
  ultimately show ?thesis by (simp add: xep0030_handle_disco_items_iq_def iq_append_def Let_def)
qed

lemma blocklist_get_answered:
  assumes "replies_fit E L st i s"
  shows "answered i s (snd (xep0186_handle_blocklist_get E (Some i) s))"
proof -
  have i: "length i \<le> 64" "length (block_text E s) \<le> 60000" using assms by (simp_all add: replies_fit_def)
  have h: "blocklist_head (Some i) = reply_head ''result'' i @ ''><query'' @ attr ''xmlns'' NS_PRIVACY @ ''>''"
    by (simp add: blocklist_head_def reply_head_def)
  have l: "length (blocklist_head (Some i)) \<le> 300" using i(1) by (simp add: blocklist_head_def attr_def NS_PRIVACY_def)
  let ?l = "storage_blocklist_list E (bare (bound_jid (ctx s))) (db s)"
  let ?items = "append_block_items (snd ?l) (blocklist_head (Some i))"
  show ?thesis
  proof (cases "fst ?l \<noteq> 0 \<or> fst ?items")
    case True
    then show ?thesis
      using l answered_flush [OF error_head _ refl refl] error_length [of i "''cancel''" "''internal-server-error''"] i(1)
      by (auto simp: xep0186_handle_blocklist_get_def iq_append_def Let_def)
  next
    case False
    then have "snd ?items = blocklist_head (Some i) @ block_text E s" by (simp add: append_block_done block_text_def)
    then have "snd (xep0186_handle_blocklist_get E (Some i) s) = snd (iq_flush E (blocklist_head (Some i) @ block_text E s @ ''</query></iq>'') s)"
      using False l i(2) by (simp add: xep0186_handle_blocklist_get_def iq_append_def Let_def)
    then show ?thesis unfolding h append_assoc by (simp only: answered_reply)
  qed
qed

lemma finish_block_answered:
  assumes "length i \<le> 64"
  shows "answered i s (snd (finish_block E (Some i) r s))"
  using assms error_answered [of i _ _ "s\<lparr>db := snd r\<rparr>" s] result_answered(1) [of i 256 "s\<lparr>db := snd r\<rparr>" s]
  by (auto simp: finish_block_def send_blocklist_error_def send_blocklist_result_def Let_def split: option.split)

lemma carbons_answered:
  assumes "length i \<le> 64"
  shows "answered i s (snd (xep0280_handle_carbons_iq E L st (Some i) s))"
proof -
  have w: "write_ud (ctx (xmpp_session_table_update_carbons j b s1)) = write_ud (ctx s1)"
    "sent (xmpp_session_table_update_carbons j b s1) = sent s1" for j b s1
    by (simp_all add: xmpp_session_table_update_carbons_def update_entry_def split: option.split)
  have a: "answered i s (snd (send_iq_result E 128 (Some i) s1))" if "sent s1 = sent s" "write_ud (ctx s1) = write_ud (ctx s)" for s1
    using result_answered(1) [OF assms _ refl refl, of 128 s1 E] that by (simp add: answered_def)
  show ?thesis by (auto simp: xep0280_handle_carbons_iq_def Let_def w split: option.split intro!: a)
qed

text \<open>The contract of the dispatcher, fulfilled by the server's handlers.\<close>

lemma handler_rc:
  "fst (roster_full E i s) \<in> {IQ_HANDLED, IQ_ERROR}"
  "fst (roster_set_remove E contact i s) \<in> {IQ_HANDLED, IQ_ERROR}"
  "fst (roster_set_upsert E L item contact i s) \<in> {IQ_HANDLED, IQ_ERROR}"
  "fst (xep0030_handle_disco_info_iq E L st child i s) \<in> {IQ_HANDLED, IQ_ERROR}"
  "fst (xep0030_handle_disco_items_iq E L st child i s) \<in> {IQ_HANDLED, IQ_ERROR}"
  "fst (vcard_found E i lookup x s) \<in> {IQ_HANDLED, IQ_ERROR}"
  "fst (vcard_empty E i to s) \<in> {IQ_HANDLED, IQ_ERROR}"
  "fst (xep0186_handle_blocklist_get E i s) \<in> {IQ_HANDLED, IQ_ERROR}"
  "fst (finish_block E i r s) \<in> {IQ_HANDLED, IQ_ERROR}"
  "fst (xep0199_handle_ping_iq E i s) \<in> {IQ_HANDLED, IQ_ERROR}"
  "fst (xep0280_handle_carbons_iq E L st i s) \<in> {IQ_HANDLED, IQ_ERROR}"
  by (simp_all add: roster_full_def roster_set_remove_def roster_set_upsert_def xep0030_handle_disco_info_iq_def
      xep0030_handle_disco_items_iq_def vcard_found_def vcard_empty_def xep0186_handle_blocklist_get_def finish_block_def
      xep0199_handle_ping_iq_def xep0280_handle_carbons_iq_def Let_def split: option.split)

lemma roster_vcard_rc:
  "fst (xmpp_iq_handle_roster_get E L child i s) \<in> {IQ_HANDLED, IQ_ERROR}"
  "fst (xmpp_iq_handle_roster_set E L child i s) \<in> {IQ_HANDLED, IQ_ERROR}"
  "fst (handle_vcard_get E L st i s) \<in> {IQ_HANDLED, IQ_ERROR}"
  "fst (handle_vcard_set E L st child i s) \<in> {IQ_HANDLED, IQ_ERROR}"
  by (simp_all add: handler_rc [simplified] xmpp_iq_handle_roster_get_def xmpp_iq_handle_roster_set_def handle_vcard_get_def handle_vcard_set_def Let_def
      split: option.split fetched.split vcard_target.split bool.split)

lemma block_rc:
  "fst (xep0186_handle_block E L child i s) \<in> {IQ_HANDLED, IQ_ERROR} \<or> xep0186_handle_block E L child i s = (IQ_NOT_MINE, s)"
  "fst (xep0186_handle_unblock E L child i s) \<in> {IQ_HANDLED, IQ_ERROR} \<or> xep0186_handle_unblock E L child i s = (IQ_NOT_MINE, s)"
  by (simp_all only: xep0186_handle_block_def xep0186_handle_unblock_def Let_def handler_rc(9) split: option.split) simp_all

lemma handler_results:
  "fst (run_iq_fn E L f st child i s) \<in> {IQ_HANDLED, IQ_ERROR} \<or> run_iq_fn E L f st child i s = (IQ_NOT_MINE, s)"
  by (cases f) (simp_all only: run_iq_fn.simps handler_rc roster_vcard_rc block_rc simp_thms)

lemma handler_answers:
  assumes "replies_fit E L st i s" "fst (run_iq_fn E L f st child (Some i) s) \<noteq> IQ_NOT_MINE" "item_named L child"
  shows "answered i s (snd (run_iq_fn E L f st child (Some i) s))"
proof -
  have i: "length i \<le> 64" using assms(1) by (simp add: replies_fit_def)
  show ?thesis
  proof (cases f)
    case F_ping
    then show ?thesis using result_answered [OF i _ refl refl, where cap = 256 and E = E] by (simp add: xep0199_handle_ping_iq_def Let_def)
  next
    case F_block
    then show ?thesis using assms(2) finish_block_answered [OF i] by (auto simp: xep0186_handle_block_def Let_def split: option.splits)
  next
    case F_unblock
    then show ?thesis using assms(2) finish_block_answered [OF i] by (auto simp: xep0186_handle_unblock_def Let_def split: option.splits)
  qed (simp_all add: roster_get_answered [OF assms(1)] roster_set_answered [OF i assms(3)] disco_info_answered [OF assms(1)]
      disco_items_answered [OF assms(1)] carbons_answered [OF i] vcard_get_answered [OF assms(1)] vcard_set_answered [OF i]
      blocklist_get_answered [OF assms(1)])
qed

interpretation server_answers: answering_handlers "run_iq_fn E L" "\<lambda>st child i s. replies_fit E L st i s \<and> item_named L child" for E L
proof
  show "replies_fit E L st i s \<and> item_named L child \<Longrightarrow> length i \<le> 1000" for st child i s by (simp add: replies_fit_def)
  show "fst (run_iq_fn E L f st child (Some i) s) \<in> {IQ_HANDLED, IQ_ERROR} \<and> answered i s (snd (run_iq_fn E L f st child (Some i) s))"
    if "replies_fit E L st i s \<and> item_named L child" "fst (run_iq_fn E L f st child (Some i) s) \<noteq> IQ_NOT_MINE" for st i s f child
    using handler_results [of E L f st child "Some i" s] handler_answers [of E L st i s f child] that by auto
  show "snd (run_iq_fn E L f st child (Some i) s) = s" if "fst (run_iq_fn E L f st child (Some i) s) = IQ_NOT_MINE" for st i s f child
    using handler_results [of E L f st child "Some i" s] that by auto
qed

subsection \<open>Properties\<close>

text \<open>C25: a request is answered once. An IQ with an id that is neither a result nor an error, in any
  namespace, known or not, well-formed or not, gets exactly one reply with its id on its own
  connection, as long as id and addressee are short, what is stored for the user fits into the
  reply buffers, and a roster item is neither followed by nor contains text nodes (on which the
  roster handler crashes).\<close>

theorem request_answered_once:
  assumes "replies_fit E L st i s" "get_attribute L st ''id'' = Some i"
    and "get_attribute L st ''type'' \<notin> {Some ''result'', Some ''error''}"
    and "\<forall>child. get_first_element_child L st = Some child \<longrightarrow> item_named L child"
  shows "answered i s (snd (iq_dispatch E L (run_iq_fn E L) st r s))"
  by (rule server_answers.dispatch_answers) (use assms in \<open>auto simp: replies_fit_def\<close>)

definition ping_iq :: xml where
  "ping_iq = Elem ''iq'' ''jabber:client'' [(''type'', ''get''), (''id'', ''q1'')] [Elem ''ping'' ''urn:xmpp:ping'' [] []]"

theorem request_answered_once_witness:
  "length (filter (is_reply (write_ud (ctx alice)) ''q1'')
     (sent (snd (iq_dispatch env0 xml_strophe (run_iq_fn env0 xml_strophe) ping_iq (snd (run_inits server_inits iq_registry0)) alice)))) = 1"
proof -
  have "replies_fit env0 xml_strophe ping_iq ''q1'' alice"
    by (simp add: replies_fit_def roster_text_def block_text_def storage_roster_list_def storage_blocklist_list_def
        alice_def example_defs ping_iq_def xml_strophe_def opt_str_def)
  moreover have "get_attribute xml_strophe ping_iq ''id'' = Some ''q1''" "get_attribute xml_strophe ping_iq ''type'' = Some ''get''"
    by (simp_all add: ping_iq_def xml_strophe_def)
  moreover have "\<forall>child. get_first_element_child xml_strophe ping_iq = Some child \<longrightarrow> item_named xml_strophe child"
    by (simp add: ping_iq_def get_first_element_child_def item_named_def)
  ultimately have "answered ''q1'' alice (snd (iq_dispatch env0 xml_strophe (run_iq_fn env0 xml_strophe) ping_iq
      (snd (run_inits server_inits iq_registry0)) alice))"
    by (intro request_answered_once) simp_all
  moreover have "sent alice = []" by (simp add: alice_def example_defs)
  ultimately show ?thesis by (auto simp: answered_def)
qed

text \<open>A ping whose id is too long for the buffer of the reply is not answered.\<close>

lemma long_id_unanswered:
  assumes "length i \<ge> 256"
  shows "xep0199_handle_ping_iq E (Some i) s = (IQ_ERROR, s)"
  using assms by (simp add: xep0199_handle_ping_iq_def send_iq_result_def iq_append_def iq_result_xml_def id_attr_def attr_def)

end
