(* ===== verification/Spec2Isabelle.thy ===== *)
theory Spec2Isabelle
  imports Tls_Loop Write_Path Conn_Memory Startup Statements Conversations Negotiation IQ_Answers
begin

text \<open>
  A model of ppmxmpp, an XMPP server in C, and what is proved of it.

  \<^bold>\<open>The program.\<close> A client connects over TCP (\<^verbatim>\<open>server.c\<close>). What is read from its connection is
  decrypted once STARTTLS has been negotiated, and fed to the stream of the connection
  (\<^verbatim>\<open>xmpp.c\<close>), a state machine that opens the stream, requires TLS, authenticates with
  SASL (\<^verbatim>\<open>xmpp_sasl.c\<close>, \<^verbatim>\<open>xmpp_sasl_scram.c\<close>) and binds a resource. An online stream hands its
  stanzas to the IQ dispatcher (\<^verbatim>\<open>xmpp_iq_dispatch.c\<close>) with its handlers, to presence
  (\<^verbatim>\<open>xmpp_presence.c\<close>) or to message routing (\<^verbatim>\<open>xmpp_message.c\<close>). These share the table of online
  resources (\<^verbatim>\<open>xmpp_session.c\<close>), through which one connection writes to another, and the SQLite
  database (\<^verbatim>\<open>storage/\<close>).

  \<^bold>\<open>The theories\<close>, each with the files under \<^verbatim>\<open>src/src/\<close> it models:

  \<^item> \<open>Prelude\<close>: C strings, \<^verbatim>\<open>snprintf\<close> and bounded appends, the environment of a callback, and
    \<open>iterate\<close>, the loop that may not end (not ending is \<open>None\<close>) with its rules.
  \<^item> \<open>Stanza\<close>: the accessors of libstrophe as the record \<open>strophe\<close>; \<open>Server_State\<close>: \<^verbatim>\<open>xmpp.h\<close>
    and the tables of \<^verbatim>\<open>db.c\<close> as records.
  \<^item> \<open>Session_Table\<close>: \<^verbatim>\<open>xmpp_session.c\<close>. The locale \<open>keyed_table\<close> says what the users of the table
    rely on; the table is a partial map from full JIDs.
  \<^item> \<open>Stream_Out\<close>: the write buffer of \<^verbatim>\<open>xmpp.c\<close>; \<open>Stream_Mgmt\<close>: \<^verbatim>\<open>xep-0198-stream-mgmt.c\<close> with 32-bit
    counters and \<^verbatim>\<open>xep-0352-csi.c\<close>.
  \<^item> \<open>Storage_Roster\<close>: \<^verbatim>\<open>db_roster.c\<close> and \<^verbatim>\<open>xep-0059-roster-ver.c\<close>; \<open>Storage_Offline\<close>:
    \<^verbatim>\<open>db_offline.c\<close>; \<open>Blocking\<close>: \<^verbatim>\<open>db_blocklist.c\<close>, \<^verbatim>\<open>xep-0186-blocking.c\<close>, \<^verbatim>\<open>xep-0199-ping.c\<close>,
    \<^verbatim>\<open>xep-0280-carbons.c\<close>.
  \<^item> \<open>IQ_Dispatch\<close>: \<^verbatim>\<open>xmpp_iq_dispatch.c\<close>, generic in the handlers; the locale \<open>handlers_keep\<close> carries
    what every handler keeps over to dispatching. \<open>IQ_Handlers\<close>: \<^verbatim>\<open>xmpp_iq.c\<close>,
    \<^verbatim>\<open>xep-0030-service-discovery.c\<close>, \<^verbatim>\<open>xep-0054-vcard.c\<close>, \<^verbatim>\<open>db_vcard.c\<close>, and the locale interpreted on
    the registry the server fills. \<open>IQ_Answers\<close>: that requests are answered, with the locale
    \<open>answering_handlers\<close> for what dispatching needs of the handlers.
  \<^item> \<open>Presence\<close>: \<^verbatim>\<open>xmpp_presence.c\<close>; \<open>Message\<close>: \<^verbatim>\<open>xmpp_message.c\<close> with receipts, carbons, markers and
    offline messages.
  \<^item> \<open>Sasl\<close>: \<^verbatim>\<open>xmpp_sasl.c\<close>; \<open>Scram\<close>: \<^verbatim>\<open>xmpp_sasl_scram.c\<close> and \<^verbatim>\<open>db_users.c\<close>.
  \<^item> \<open>Stream\<close>: \<^verbatim>\<open>xmpp.c\<close>; \<open>Stream_Safety\<close>: the negotiation as a state machine with its invariants, and
    what a successful authentication requires (\<open>proves_plain\<close>, \<open>proves_scram\<close>).
  \<^item> \<open>Connection\<close>: the callbacks of one connection of \<^verbatim>\<open>server.c\<close>, with what mbedTLS reports as an
    input (\<open>tls_io\<close>); \<open>Tls_Input\<close>: the receive buffer, an instance of the locale \<open>byte_fifo\<close>; \<open>Tls_Connection\<close>:
    the callbacks with the buffer and the loops around mbedTLS, a refinement of \<open>Connection\<close> on the
    report (\<open>tls_reports\<close>) of what mbedTLS returned for the received bytes;
    \<open>Server_Loop\<close>: all connections and what they share, with accepting, closing, freeing and
    shutting down as interleaved steps; \<open>Tls_Loop\<close>: the same with the buffers and TLS contexts of
    all connections, a simulation of \<open>Server_Loop\<close>.
  \<^item> \<open>Write_Path\<close>: writing in \<^verbatim>\<open>server.c\<close>, down to the write requests that libuv holds; \<open>Conn_Memory\<close>:
    the objects that connections allocate and free.
  \<^item> \<open>Config\<close>: \<^verbatim>\<open>config.c\<close>, the options of \<^verbatim>\<open>main.c\<close>, and the directories made by \<^verbatim>\<open>tls.c\<close> and
    \<^verbatim>\<open>db.c\<close>; \<open>Database_Layer\<close>: opening, migrations and statement cache of \<^verbatim>\<open>db.c\<close>, with the locale
    \<open>statement_cache\<close>; \<open>Statements\<close>: the wrappers of \<^verbatim>\<open>db.c\<close> around a prepared statement; \<open>Startup\<close>:
    \<^verbatim>\<open>tls.c\<close>, \<^verbatim>\<open>log.c\<close>, starting and stopping in \<^verbatim>\<open>server.c\<close>, and \<^verbatim>\<open>main\<close>.
  \<^item> \<open>Negotiation\<close>: the callbacks of a connection whose client follows the protocol, step by step, up to an
    online session.
  \<^item> \<open>Conversations\<close>: what presence, the session table, the roster, offline storage and message
    routing do together.

  \<^bold>\<open>How the code is represented.\<close> A function that changes state takes and returns the record
  \<open>server\<close>: the session of the connection it runs for, the table, the database, and the list of
  what was written, each with the connection it was written to. Its flag \<open>crashed\<close> is set where the C
  code passes a null pointer to \<^verbatim>\<open>strcmp\<close> (two places of the roster set handler), which ends the
  process: what the model does after that says nothing about the program. A pointer that may be NULL is an
  option, a C string is its bytes, a fixed buffer is a list with the truncation of \<^verbatim>\<open>snprintf\<close>
  written out. Return codes are the integers of the source or an option. The numbers that identify
  connections (\<open>g_next_id\<close>, a \<^verbatim>\<open>uint64_t\<close> in the source) are natural numbers: that they
  do not wrap is an assumption. In the database layer the connection to SQLite (\<open>db_conn\<close>) has the state
  of the file at the beginning of an open transaction, to which a rollback or closing returns. The
  handler of a signal is in two parts, the handles (\<open>on_signal\<close>) and the TLS context
  (\<open>on_signal_tls\<close>).

  \<^bold>\<open>Parameters.\<close> Code outside the repository is an argument: the accessors of libstrophe
  (\<open>strophe\<close>), its parser (\<open>xml_parser\<close>), mbedTLS (\<open>ssl\<close>, \<open>tls_io\<close>), the cryptography, clocks,
  random bytes and the outcome of SQLite calls (\<open>env\<close>, which is fixed during one callback and
  arbitrary for the next; \<open>sqlite\<close> for the wrappers), libconfig and the embedded default file, and
  the results of the calls of a start (\<open>startup_calls\<close>). The hypotheses made of them:
  \<open>header_first\<close>, the parser reports the document element before anything else;
  \<open>ssl_conserves\<close>, reading from mbedTLS does not make up bytes; \<open>ssl_writes\<close> and \<open>ssl_sends\<close>, a write
  takes at least one byte and at most those given, and sends with \<open>bio_send\<close> only; \<open>sqlite_ok\<close>, what
  SQLite documents of bindings and resets.

  \<^bold>\<open>Results.\<close> Over all interleavings of callbacks: nobody is authenticated before TLS; a callback that
  authenticates a stream fed it a stanza with the password of that account, or with a SCRAM proof for the stored key
  of the session; three failures close a connection for good; an online JID is that of the
  authenticated user; callbacks return; no entry of the table points to a freed connection; and every
  object and write request of a connection is freed exactly once. A client that follows the protocol
  with a valid password gets online, whatever other connections do meanwhile. Across components: every
  request that fits gets exactly one reply, a message for an offline user reaches the first resource that
  comes online, and a start either establishes everything the event loop needs or releases what it
  took. Per component: subscription stanzas as a state machine of subscriptions and requests, recipients
  of messages and presence, the stores as maps and queues, the dispatcher as a stable sort with
  first match, the codecs, and the configuration, start-up and migrations with their errors.

  \<^bold>\<open>Where the code differs from its documents.\<close> The model follows the code. The properties of subscriptions,
  messages and presence are stated for the cases in which the code does what RFC 6121, the XEPs and
  the plans under \<^verbatim>\<open>docs/\<close> ask for, with the conditions written out (an approval answers a
  request, neither user blocks the other, priorities are not negative, the sender has no further
  resource that wants copies of what it sends to a full JID). What the code does in the other
  cases is the subject of separate lemmas, such as \<open>block_list_of_sender_decides\<close>,
  \<open>unsolicited_approval_subscribes\<close>, \<open>indented_item_crashes\<close> and \<open>scram_challenge_keys\<close>.

  \<^bold>\<open>Bounds.\<close> No fuel is used: loops over lists and strings are structural, the loops around mbedTLS
  are \<open>iterate\<close>, and that they end is proved from \<open>ssl_conserves\<close> and \<open>ssl_writes\<close> by the
  number of bytes left.

  \<^bold>\<open>Not modelled.\<close> Failing memory allocation outside of \<open>Write_Path\<close> and \<open>Conn_Memory\<close>; the texts that
  are logged, and \<^verbatim>\<open>event_name\<close>, \<^verbatim>\<open>state_name\<close> and \<^verbatim>\<open>config_print\<close>, which only serve the log; the
  contents of the generated certificate, which mbedTLS makes; libuv's own loop and handles;
  \<^verbatim>\<open>xep-0245-me-command.c\<close>, which has no code.
\<close>

subsection \<open>A negotiation, step by step\<close>

text \<open>A parser that knows a few inputs, and a client that opens a stream, starts TLS, opens
  the stream again and authenticates with PLAIN as user \<open>a\<close> with password \<open>p\<close>, or tries the
  wrong password \<open>q\<close>.\<close>

definition hello_header :: cstr where
  "hello_header = ''<stream:stream'' @ attr ''xmlns'' ''jabber:client'' @
     attr ''xmlns:stream'' ''http://etherx.jabber.org/streams'' @ ''>''"

definition hello_events :: "cstr \<Rightarrow> xml parser_event list" where
  "hello_events data =
     (if data = hello_header then [Stream_start (Some ''stream'') [(''to'', ''d''), (''version'', ''1.0'')]]
      else if data = ''T'' then [Stanza (Elem ''starttls'' NS_TLS [] [])]
      else if data = ''A'' then [Stanza (Elem ''auth'' NS_SASL [(''mechanism'', ''PLAIN'')] [Text ''AGEAcA==''])]
      else if data = ''W'' then [Stanza (Elem ''auth'' NS_SASL [(''mechanism'', ''PLAIN'')] [Text ''AGEAcQ==''])]
      else if data = ''B'' then [Stanza (Elem ''iq'' ''jabber:client'' [(''type'', ''set'')] [Elem ''bind'' NS_BIND [] []])]
      else if data = ''P'' then [Stanza (Elem ''presence'' ''jabber:client'' [] [])]
      else [])"

definition hello_parser :: "(unit, xml) xml_parser" where
  "hello_parser = \<lparr> parser_new = (), parser_feed = (\<lambda>p data. (p, hello_events data, True)) \<rparr>"

definition hello_db :: database where
  "hello_db = database0\<lparr>users := [\<lparr> u_jid = ''a@d'', u_password_plain = ''p'', u_created_at = 0,
     u_disabled = False, u_scram_salt = None, u_scram_stored_key = None, u_scram_server_key = None,
     u_scram_iterations = 4096 \<rparr>]\<rparr>"

definition hello_io :: "cstr list \<Rightarrow> tls_io" where
  "hello_io records = \<lparr> io_overflow = False, io_handshake = Hs_ok, io_records = records,
     io_ended = False, io_drained = [], io_redrained = [], io_ctx_ready = True, io_setup_ok = True \<rparr>"

abbreviation hello_read :: "cstr list \<Rightarrow> cstr \<Rightarrow> unit conn \<Rightarrow> unit conn" where
  "hello_read records d \<equiv> read_cb env0 xml_strophe hello_parser (hello_io records) (Some d)"

definition hello_accepted :: "unit conn" where
  "hello_accepted = on_new_connection env0 hello_parser 3 (iq_registry0, server0\<lparr>db := hello_db\<rparr>)"

definition hello_secured :: "unit conn" where
  "hello_secured = hello_read [hello_header] ''x'' (hello_read [] ''T'' (hello_read [] hello_header hello_accepted))"

definition hello_authenticated :: "unit conn" where
  "hello_authenticated = hello_read [''A''] ''x'' hello_secured"

definition hello_online :: "unit conn" where
  "hello_online = hello_read [hello_header, ''B''] ''x'' hello_authenticated"

lemma hello_parser_law: "header_first hello_parser"
  by (simp add: header_first_def hello_parser_def hello_events_def)

lemma hello_open:
  "conn_open hello_accepted" "conn_open (hello_read [] hello_header hello_accepted)"
  "conn_open (hello_read [] ''T'' (hello_read [] hello_header hello_accepted))"
  "conn_open hello_secured" "conn_open hello_authenticated"
  by code_simp+

lemma hello_authenticated_facts:
  "state (conn_ctx hello_authenticated) = SASL_SUCCESS \<and> authcid (conn_ctx hello_authenticated) = ''a''"
  by code_simp

lemma hello_online_state: "state (conn_ctx hello_online) = ONLINE"
  by code_simp

lemma hello_secured_reachable: "reachable xml_strophe hello_parser hello_secured"
  using hello_open unfolding hello_secured_def hello_accepted_def by (intro reachable.read reachable.accept)

lemma hello_reachable: "reachable xml_strophe hello_parser hello_authenticated"
  using hello_secured_reachable hello_open(4) unfolding hello_authenticated_def by (rule reachable.read)

lemma hello_online_reachable: "reachable xml_strophe hello_parser hello_online"
  using hello_reachable hello_open(5) unfolding hello_online_def by (rule reachable.read)

subsection \<open>Properties of every reachable connection\<close>

text \<open>C1: nobody is authenticated in the clear. For every connection, after any sequence of
  reads, with whatever data and whatever happens on other connections in between: as long as
  the TLS handshake is not finished the stream is in one of the states before
  authentication.\<close>

theorem no_authentication_before_tls:
  assumes "header_first P" "reachable L P k" "\<not> tls_hs_done k"
  shows "state (conn_ctx k) \<in> plain_states \<and> \<not> authed (state (conn_ctx k))"
  using reachable_inv [OF assms(1,2)] assms(3)
  by (auto simp: conn_inv_def plain_states_def authed_def)

theorem no_authentication_before_tls_witness:
  "header_first hello_parser \<and> tls_hs_done hello_authenticated \<and>
   state (conn_ctx hello_accepted) \<in> plain_states"
proof -
  have "tls_hs_done hello_authenticated"
    using no_authentication_before_tls [OF hello_parser_law hello_reachable] hello_authenticated_facts
    by (auto simp: plain_states_def)
  moreover have "state (conn_ctx hello_accepted) \<in> plain_states"
    using no_authentication_before_tls [OF hello_parser_law, of xml_strophe hello_accepted]
    by (simp add: hello_accepted_def reachable.accept) (simp add: on_new_connection_def)
  ultimately show ?thesis using hello_parser_law by blast
qed

text \<open>C2: nobody is authenticated without a proof of identity. Take any read callback of an open
  connection, with whatever data, after which the stream is authenticated. Either it was before,
  with the same user name. Or the connection is encrypted, and among the records decrypted in this
  callback, fed in order to the stream as it was before the callback (with its handshake
  done), there is an \<open>auth\<close> stanza that proves exactly this user name to the stream in the state right before it: with PLAIN, the
  password of that enabled account in the database as it was when the callback began; with SCRAM, a
  proof of 32 bytes that answers the nonce of the session and satisfies the equation of RFC 5802 for
  the stored key the session holds (which an earlier attempt on the connection may have left there). New connections are not
  authenticated, and what other connections do leaves the session as it is.\<close>

theorem authenticated_has_proof:
  assumes "header_first P" "reachable L P k" "conn_open k" "k' = read_cb E L P io rd k"
    and "authed (state (conn_ctx k'))"
  shows "authed (state (conn_ctx k)) \<and> authcid (conn_ctx k') = authcid (conn_ctx k) \<or>
    is_tls k \<and> (\<exists>cs data n st s. subseq (cs @ [data]) (io_records io @ io_drained io @ io_redrained io) \<and>
      n < length (feed_events P data (feeding E L P cs (secured k))) \<and>
      feed_events P data (feeding E L P cs (secured k)) ! n = Stanza st \<and>
      s = snd (before_event E L P data n (feeding E L P cs (secured k))) \<and> db s = db (snd (conn_stream k)) \<and>
      has_name L st ''auth'' \<and> (proves_plain E L st s (authcid (conn_ctx k')) \<or> proves_scram E L st s (authcid (conn_ctx k'))))"
proof -
  have inv: "conn_inv k" "conn_inv k'"
    using reachable_inv [OF assms(1)] reachable.read [OF assms(2,3)] assms(2,4) by blast+
  have hs: "tls_hs_done k'" using inv(2) assms(5) by (auto simp: conn_inv_def plain_states_def authed_def)
  have tls: "is_tls k"
    using hs inv(1) read_cb_plain_hs [of k E L P io rd] assms(4) by (auto simp: conn_inv_def)
  from read_cb_feeding [OF tls, of E L P io rd] show ?thesis
  proof
    assume "conn_stream (read_cb E L P io rd k) = conn_stream k"
    then show ?thesis using assms(4,5) by simp
  next
    assume "\<exists>es. subseq es (io_records io @ io_drained io @ io_redrained io) \<and>
        conn_stream (read_cb E L P io rd k) = conn_stream (feeding E L P es (secured k))"
    then obtain es where es: "subseq es (io_records io @ io_drained io @ io_redrained io)"
      "conn_stream k' = conn_stream (feeding E L P es (secured k))" using assms(4) by blast
    have sec: "db (snd (conn_stream (secured k))) = db (snd (conn_stream k))"
      "authed (state (conn_ctx (secured k))) \<Longrightarrow> secured k = k"
      by (auto simp: secured_def tls_handshake_done_def authed_def)
    have sub: "subseq (cs @ [d]) (io_records io @ io_drained io @ io_redrained io)" if "es = cs @ d # rest" for cs d rest
      using es(1) that subseq_order.order_trans [of "cs @ [d]" es] list_emb_append_mono [of "(=)" "cs @ [d]" "cs @ [d]" "[]" rest]
      by simp
    from feeding_authed [of E L P es "secured k"] assms(5) es(2) consider
        (kept) "authed (state (conn_ctx (secured k)))" "authcid (conn_ctx k') = authcid (conn_ctx (secured k))"
      | (proved) cs data rest n where "es = cs @ data # rest"
        "proof_in E L P (db (snd (conn_stream k))) (authcid (conn_ctx k')) data n (feeding E L P cs (secured k))"
      using sec(1) by auto
    then show ?thesis
    proof cases
      case kept
      then show ?thesis using sec(2) by simp
    next
      case proved
      then show ?thesis using tls sub [OF proved(1)] unfolding proof_in_def by blast
    qed
  qed
qed

text \<open>The callback in which the client authenticates with PLAIN: the proof is in the one record it
  decrypts, and the account is in the database.\<close>

theorem authenticated_has_proof_witness:
  "\<exists>st s. proves_plain env0 xml_strophe st s ''a'' \<and> users (db s) = users hello_db \<and>
     Stanza st \<in> set (feed_events hello_parser ''A'' hello_secured)"
proof -
  let ?st = "Elem ''auth'' NS_SASL [(''mechanism'', ''PLAIN'')] [Text ''AGEAcA=='']"
  have start: "state (conn_ctx hello_secured) = FEATURES_RECEIVED_POST_TLS" "tls_hs_done hello_secured"
    "users (db (snd (conn_stream hello_secured))) = users hello_db"
    by code_simp+
  have ev: "feed_events hello_parser ''A'' hello_secured = [Stanza ?st]"
    by (simp add: feed_events_def hello_parser_def hello_events_def strip_declaration_def hello_header_def attr_def)
  have "subseq (cs @ [d]) (io_records (hello_io [''A'']) @ io_drained (hello_io [''A'']) @ io_redrained (hello_io [''A''])) \<longleftrightarrow>
      cs = [] \<and> d = ''A''" for cs d
    by (cases cs) (auto simp: hello_io_def)
  then show ?thesis
    using authenticated_has_proof [OF hello_parser_law hello_secured_reachable hello_open(4) hello_authenticated_def]
      hello_authenticated_facts start ev by (auto simp: authed_def secured_def proves_scram_def)
qed

text \<open>C5: three failed authentications close a connection for good. The number of failed
  attempts of a connection never decreases and never exceeds three, whatever is read and whatever other connections
  do; and once it is three, the stream is closing or closed, then and ever after.\<close>

theorem failed_attempts_limited:
  assumes "header_first P" "reachable L P k" "later L P k k'"
  shows "0 \<le> failed_auth_count (conn_ctx k) \<and> failed_auth_count (conn_ctx k) \<le> failed_auth_count (conn_ctx k') \<and>
    failed_auth_count (conn_ctx k') \<le> 3 \<and>
    (failed_auth_count (conn_ctx k) = 3 \<longrightarrow>
       state (conn_ctx k) \<in> {CLOSING, CLOSED} \<and> state (conn_ctx k') \<in> {CLOSING, CLOSED})"
  using reachable_inv [OF assms(1,2)] reachable_inv [OF assms(1) later_reachable [OF assms(3,2)]] later_count [OF assms(3)]
  by (auto simp: conn_inv_def attempts_ok_def)

text \<open>A client that tries the wrong password twice, and then a third time with the right
  one in the data that is drained when the connection is closed.\<close>

definition hello_tried :: "unit conn" where
  "hello_tried = hello_read [''W'', hello_header, ''W'', hello_header] ''x'' hello_secured"

definition hello_locked :: "unit conn" where
  "hello_locked = read_cb env0 xml_strophe hello_parser ((hello_io [''W''])\<lparr>io_drained := [hello_header, ''A'']\<rparr>) (Some ''x'') hello_tried"

lemma hello_tried_count: "failed_auth_count (conn_ctx hello_tried) = 2"
  by code_simp

lemma hello_tried_open: "conn_open hello_tried"
  by code_simp

lemma hello_locked_count: "failed_auth_count (conn_ctx hello_locked) = 3"
  by code_simp

theorem failed_attempts_limited_witness:
  "failed_auth_count (conn_ctx hello_tried) = 2 \<and>
   failed_auth_count (conn_ctx hello_locked) = 3 \<and> state (conn_ctx hello_locked) \<in> {CLOSING, CLOSED} \<and>
   state (conn_ctx (enter_conn (server_registry, server0) hello_locked)) \<in> {CLOSING, CLOSED}"
proof -
  have "reachable xml_strophe hello_parser hello_tried"
    using hello_secured_reachable hello_open(4) unfolding hello_tried_def by (rule reachable.read)
  then have "reachable xml_strophe hello_parser hello_locked"
    using hello_tried_open unfolding hello_locked_def by (rule reachable.read)
  moreover have "later xml_strophe hello_parser hello_locked (enter_conn (server_registry, server0) hello_locked)"
    by (intro later.others later.now)
  ultimately show ?thesis using failed_attempts_limited [OF hello_parser_law] hello_tried_count hello_locked_count by blast
qed

text \<open>C6: the full JID an online connection is bound to names the user it authenticated as and
  a valid resource, whether the client chose the resource or the server generated it.\<close>

theorem online_jid_is_users:
  assumes "reachable L P k" "state (conn_ctx k) = ONLINE"
  shows "\<exists>d r. validate_resource r = 0 \<and>
    bound_jid (conn_ctx k) = snprintf JID_BUF_SIZE (authcid (conn_ctx k) @ ''@'' @ d @ ''/'' @ r)"
proof -
  obtain E0 rs steps where t: "conn_stream k = run L steps (fst rs, xmpp_session_reset E0 (snd rs))"
    using reachable_trace [OF assms(1)] by blast
  have "state (ctx (snd (fst rs, xmpp_session_reset E0 (snd rs)))) \<noteq> ONLINE"
    by (simp add: xmpp_session_reset_def session_reset_def)
  from run_jid [OF _ this, of L steps] show ?thesis
    using assms(2) unfolding t jid_of_user_def by blast
qed

theorem online_jid_is_users_witness:
  "\<exists>u d r. validate_resource r = 0 \<and>
     bound_jid (conn_ctx hello_online) = snprintf JID_BUF_SIZE (u @ ''@'' @ d @ ''/'' @ r)"
  using online_jid_is_users [OF hello_online_reachable hello_online_state] by blast

subsection \<open>A client that follows the protocol\<close>

lemma hello_greets: "greets hello_parser () hello_header ''d'' ()"
proof -
  have "client_ns (extract_namespaces hello_header c) = ''jabber:client''"
    "stream_ns (extract_namespaces hello_header c) = ''http://etherx.jabber.org/streams''" for c
    by (simp_all add: extract_namespaces_def ns_attribute_def first_some_def hello_header_def attr_def quote_char_def
        before_def Let_def)
  then show ?thesis
    by (simp add: greets_def speaks_def hello_parser_def hello_events_def strip_declaration_def)
      (simp add: hello_header_def attr_def)
qed

lemma hello_stanzas:
  "speaks hello_parser () ''T'' (Stanza (Elem ''starttls'' NS_TLS [] [])) ()"
  "speaks hello_parser () ''A'' (Stanza (Elem ''auth'' NS_SASL [(''mechanism'', ''PLAIN'')] [Text ''AGEAcA==''])) ()"
  "speaks hello_parser () ''B'' (Stanza (Elem ''iq'' ''jabber:client'' [(''type'', ''set'')] [Elem ''bind'' NS_BIND [] []])) ()"
  by (simp_all add: speaks_def hello_parser_def hello_events_def strip_declaration_def hello_header_def attr_def)

lemma hello_asks:
  "asks_tls xml_strophe (Elem ''starttls'' NS_TLS [] [])"
  "sends_plain xml_strophe (Elem ''auth'' NS_SASL [(''mechanism'', ''PLAIN'')] [Text ''AGEAcA==''] ) [] ''a'' ''p''"
  "asks_bind xml_strophe (Elem ''iq'' ''jabber:client'' [(''type'', ''set'')] [Elem ''bind'' NS_BIND [] []]) (Elem ''bind'' NS_BIND [] [])"
  "wanted_resource env0 xml_strophe (Elem ''bind'' NS_BIND [] []) = ''00000000''"
  by code_simp+

lemma hello_credentials: "plain_credentials env0 ''d'' [] ''a'' ''p'' hello_db"
  by (simp add: plain_credentials_def hello_db_def find_user_def env0_def jid_localpart_has_forbidden_def forbidden_localpart_def)

text \<open>C3: a client that follows the protocol gets online. A new connection on which the client opens a
  stream, starts TLS, finishes the handshake, opens a stream for a domain, authenticates with the
  password of an enabled account of that domain, opens the stream again and binds a resource is, whatever
  other connections do in between, still open and encrypted, online with the JID of the account
  and that resource, and the client was told this JID.\<close>

theorem negotiation_completes:
  assumes "\<forall>E\<in>{E1, E2, E4, E5, E6, E7}. writes_ok E"
    and "greets P (parser_new P) h1 d1 p1"
    and "speaks P p1 x2 (Stanza tls) p2" "asks_tls L tls" "io_ctx_ready io2" "io_setup_ok io2"
    and "r3 \<noteq> []" "decrypts io3 []" "io_handshake io3 = Hs_ok"
    and "greets P (parser_new P) h4 d p4" "arrives True io4 r4 h4"
    and "speaks P p4 x5 (Stanza auth) p5" "arrives True io5 r5 x5" "sends_plain L auth authzid user password"
    and "plain_credentials E5 d authzid user password (db (snd sh5))" "length user < 1024"
    and "greets P (parser_new P) h6 d p6" "arrives True io6 r6 h6"
    and "speaks P p6 x7 (Stanza iq) p7" "arrives True io7 r7 x7" "asks_bind L iq bind"
    and "validate_resource (wanted_resource E7 L bind) = 0"
    and "jid = user @ ''@'' @ d @ ''/'' @ wanted_resource E7 L bind" "length jid < JID_BUF_SIZE"
    and "length (bind_result_xml (get_attribute L iq ''id'') jid) < XMPP_BUF_SIZE"
    and "k = fold (callback L P) [(E1, io1, sh1, h1), (E2, io2, sh2, x2), (E3, io3, sh3, r3), (E4, io4, sh4, r4),
      (E5, io5, sh5, r5), (E6, io6, sh6, r6), (E7, io7, sh7, r7)] (on_new_connection E0 P u rs)"
  shows "conn_open k \<and> is_tls k \<and> tls_hs_done k \<and> state (conn_ctx k) = ONLINE \<and> authcid (conn_ctx k) = user \<and>
    bound_jid (conn_ctx k) = jid \<and>
    sent (snd (conn_stream k)) = sent (snd sh7) @ [(u, bind_result_xml (get_attribute L iq ''id'') jid)]"
proof -
  note w = assms(1) [simplified]
  let ?k0 = "on_new_connection E0 P u rs"
  let ?k2 = "callback L P (E2, io2, sh2, x2) (callback L P (E1, io1, sh1, h1) ?k0)"
  let ?k4 = "callback L P (E4, io4, sh4, r4) (callback L P (E3, io3, sh3, r3) ?k2)"
  let ?k6 = "callback L P (E6, io6, sh6, r6) (callback L P (E5, io5, sh5, r5) ?k4)"
  have "stage P p1 False FEATURES_RECEIVED d1 [] u (callback L P (E1, io1, sh1, h1) ?k0)"
    using client_greets [OF _ accepted_stage _ assms(2), of E1 io1 h1] w by (simp add: opened_def arrives_def)
  then have "tls_requested d1 u ?k2" using w by (intro client_starts_tls [OF _ _ assms(3-6)]) simp_all
  then have "stage P (parser_new P) True TLS_NEGOTIATED d1 [] u (callback L P (E3, io3, sh3, r3) ?k2)"
    by (rule client_handshake [OF _ assms(7-9)])
  then have "stage P p4 True FEATURES_RECEIVED_POST_TLS d [] u ?k4"
    using client_greets [OF _ _ assms(11,10), of E4] w by (fastforce simp: opened_def)
  then have "stage P (parser_new P) True SASL_SUCCESS d (take 1023 user) u (callback L P (E5, io5, sh5, r5) ?k4)"
    using w by (intro client_authenticates [OF _ _ assms(12-15)]) simp_all
  then have "stage P p6 True BOUND d user u ?k6"
    using client_greets [OF _ _ assms(18,17), of E6] w assms(16) by (fastforce simp: opened_def)
  then show ?thesis
    using client_binds [OF _ _ assms(19-25) refl, of u ?k6 sh7] w assms(26) by (simp add: stage_def)
qed

text \<open>The negotiation above with one callback for each step.\<close>

theorem negotiation_completes_witness:
  "bound_jid (conn_ctx (fold (callback xml_strophe hello_parser)
     (map (\<lambda>(records, d). (env0, hello_io records, (iq_registry0, server0\<lparr>db := hello_db\<rparr>), d))
       [([], hello_header), ([], ''T''), ([], ''x''), ([hello_header], ''x''), ([''A''], ''x''), ([hello_header], ''x''), ([''B''], ''x'')])
     hello_accepted)) = ''a@d/00000000''"
proof -
  have io: "decrypts (hello_io rs) rs" "arrives True (hello_io [x]) ''x'' x" "io_handshake (hello_io rs) = Hs_ok"
    "io_ctx_ready (hello_io rs)" "io_setup_ok (hello_io rs)" for rs x
    by (simp_all add: decrypts_def arrives_def hello_io_def)
  have new: "greets hello_parser (parser_new hello_parser) hello_header ''d'' ()" using hello_greets by simp
  have w: "\<forall>E\<in>{env0, env0, env0, env0, env0, env0}. writes_ok E" by (simp add: writes_ok_def env0_def)
  let ?sh = "(iq_registry0, server0\<lparr>db := hello_db\<rparr>)"
  have cred: "plain_credentials env0 ''d'' [] ''a'' ''p'' (db (snd ?sh))" using hello_credentials by simp
  have res: "validate_resource (wanted_resource env0 xml_strophe (Elem ''bind'' NS_BIND [] [])) = 0"
    using hello_asks(4) by (simp add: validate_resource_def is_forbidden_resource_char_def)
  have jid: "''a@d/00000000'' = ''a'' @ ''@'' @ ''d'' @ ''/'' @ wanted_resource env0 xml_strophe (Elem ''bind'' NS_BIND [] [])"
    using hello_asks(4) by simp
  have short: "length (bind_result_xml (get_attribute xml_strophe (Elem ''iq'' ''jabber:client'' [(''type'', ''set'')] [Elem ''bind'' NS_BIND [] []]) ''id'')
      ''a@d/00000000'') < 8192"
    by code_simp
  note run = negotiation_completes [OF w new hello_stanzas(1) hello_asks(1) io(4) [of "[]"] io(5) _ io(1) io(3)
        new io(2) hello_stanzas(2) io(2) hello_asks(2) cred _ new io(2) hello_stanzas(3) io(2) hello_asks(3) res jid _ short refl,
        where ?r3.0 = "''x''" and ?io1.0 = "hello_io []" and ?sh1.0 = ?sh and ?sh2.0 = ?sh and ?sh3.0 = ?sh and ?sh4.0 = ?sh
          and ?sh6.0 = ?sh and ?sh7.0 = ?sh and ?E3.0 = env0 and ?E0.0 = env0 and u = 3 and rs = ?sh]
  show ?thesis using run by (simp add: hello_accepted_def)
qed

subsection \<open>Properties of the whole server\<close>

definition hello_loop :: "unit server_loop" where
  "hello_loop =
     (let read = (\<lambda>records d. read_conn env0 xml_strophe hello_parser (hello_io records) (Some d) 1) in
      read [hello_header, ''B'', ''P''] ''x'' (read [''A''] ''x'' (read [hello_header] ''x'' (read [] ''T''
        (read [] hello_header (accept_conn env0 hello_parser 0 True
          \<lparr> sl_conns = Map.empty, sl_shared = (iq_registry0, server0\<lparr>db := hello_db\<rparr>), g_next_id = 1 \<rparr>))))))"

lemma hello_loop_reachable: "loop_reachable xml_strophe hello_parser hello_loop"
  unfolding hello_loop_def Let_def
  by (intro loop_reachable.read loop_reachable.accept loop_reachable.start) (simp add: server0_def)

lemma hello_loop_entries: "map e_write_ud (g_sessions (snd (sl_shared hello_loop))) = [1]"
  by code_simp

lemma hello_loop_conns: "dom (sl_conns hello_loop) \<subseteq> set [1]"
  unfolding hello_loop_def Let_def
  by (auto simp: read_conn_def accept_conn_def leave_conn_def Let_def split: option.splits if_splits)

text \<open>C4: messages are never written to a connection that is gone or that belongs to someone
  else. In every state the event loop can reach, whatever connections were accepted, read from,
  closed and freed in whatever order, each entry of the table of online resources points to a
  connection that still exists, whose TLS handshake is done and whose session is bound to the
  JID of the entry; and the connection is one of those the properties above are about.\<close>

theorem online_entries_live:
  assumes "header_first P" "loop_reachable L P w" "e \<in> set (g_sessions (snd (sl_shared w)))"
  shows "\<exists>k. sl_conns w (e_write_ud e) = Some k \<and> conn_sink k = e_write_ud e \<and>
    bound_jid (conn_ctx k) = e_jid e \<and> state (conn_ctx k) \<in> {ONLINE, CLOSING, CLOSED} \<and> tls_hs_done k \<and>
    reachable L P k"
  using entry_connection [OF loop_reachable_inv [OF assms(1,2)] assms(3)] loop_conns_reachable [OF assms(2)] by blast

theorem online_entries_live_witness:
  "\<exists>e\<in>set (g_sessions (snd (sl_shared hello_loop))). \<exists>k. sl_conns hello_loop 1 = Some k \<and> bound_jid (conn_ctx k) = e_jid e"
proof -
  obtain e where "e \<in> set (g_sessions (snd (sl_shared hello_loop)))" "e_write_ud e = 1"
    using hello_loop_entries by (auto simp: map_eq_Cons_conv)
  then show ?thesis using online_entries_live [OF hello_parser_law hello_loop_reachable] by metis
qed

text \<open>C18: shutting down leaves nothing behind. After a signal has closed all handles and their
  close callbacks have run, in any order that covers them, no connection exists any more and the
  table of online resources is empty.\<close>

theorem shutdown_leaves_nothing:
  assumes "header_first P" "loop_reachable L P w" "dom (sl_conns w) \<subseteq> set handles" "set handles \<subseteq> set order"
  shows "sl_conns (fold (closed_conn E) order (on_signal handles w)) = Map.empty \<and>
    g_sessions (snd (sl_shared (fold (closed_conn E) order (on_signal handles w)))) = []"
  using shutdown_clears [OF loop_reachable_inv [OF assms(1,2)] assms(3,4)] by blast

theorem shutdown_leaves_nothing_witness:
  "g_sessions (snd (sl_shared hello_loop)) \<noteq> [] \<and>
   g_sessions (snd (sl_shared (closed_conn env0 1 (on_signal [1] hello_loop)))) = []"
  using shutdown_leaves_nothing [OF hello_parser_law hello_loop_reachable hello_loop_conns, of "[1]" env0]
    hello_loop_entries by auto

text \<open>C8: the server as it runs, with its buffers and its loops around mbedTLS, never gets stuck: in every
  reachable state the next read callback of any connection returns, whatever it reads, in a
  reachable state; and in every reachable state the input buffers are well-formed and nobody is
  authenticated before their handshake. (A callback that crashes the process, in a roster set with text
  between its items, counts as returning with the flag \<open>crashed\<close> set.)\<close>

theorem server_never_stuck:
  assumes "header_first P" "ssl_conserves S held" "tl_reachable L P S w"
  shows "(\<exists>w'. tl_read E L P S ready rd i w = Some w' \<and> tl_reachable L P S w') \<and>
    (\<forall>j k. tl_conns w j = Some k \<longrightarrow>
       tls_conn_ok k \<and> (\<not> tls_hs_done (tc_conn k) \<longrightarrow> \<not> authed (state (conn_ctx (tc_conn k)))))"
proof -
  have ok: "buffers_ok w" by (rule tl_reachable_buffers [OF assms(3)])
  obtain w' where w': "tl_read E L P S ready rd i w = Some w'" using tl_read_returns [OF assms(2) ok] by blast
  have "conn_inv (tc_conn k)" if "tl_conns w j = Some k" for j k
    using that loop_reachable_inv [OF assms(1) tl_reachable_abs [OF assms(3)]]
    by (auto simp: loop_inv_def conn_live_def)
  then have "\<not> tls_hs_done (tc_conn k) \<longrightarrow> \<not> authed (state (conn_ctx (tc_conn k)))" if "tl_conns w j = Some k" for j k
    using that by (fastforce simp: conn_inv_def plain_states_def authed_def)
  then show ?thesis using w' tl_reachable.read [OF assms(3) w'] ok by (auto simp: buffers_ok_def)
qed

definition hello_tls_loop :: "(unit, unit) tls_loop" where
  "hello_tls_loop = tl_accept env0 hello_parser null_ssl () 0 True
     \<lparr> tl_conns = Map.empty, tl_shared = (server_registry, server0\<lparr>db := hello_db\<rparr>), tl_next_id = 1 \<rparr>"

theorem server_never_stuck_witness:
  "\<exists>w'. tl_read env0 xml_strophe hello_parser null_ssl True (Some hello_header) 1 hello_tls_loop = Some w' \<and>
     tl_reachable xml_strophe hello_parser null_ssl w'"
proof -
  have "tl_reachable xml_strophe hello_parser null_ssl hello_tls_loop"
    unfolding hello_tls_loop_def by (intro tl_reachable.accept tl_reachable.start) (simp add: server0_def)
  then show ?thesis using server_never_stuck [OF hello_parser_law null_ssl_conserves] by blast
qed

end
